(* ===== verification/Prelude.thy ===== *)
theory Prelude
  imports Main "HOL-Library.Word" "HOL-Library.Sublist" "HOL-Library.Monad_Syntax"
begin

text \<open>
  Shared vocabulary of the development: the machine integers of the C sources as words,
  byte strings, the little-endian and big-endian readings of a byte string, slices of a byte
  string and their overwriting, C strings, and the bounds-checked array read. The lemmas here
  are the ones that several components use.
\<close>

unbundle bit_operations_syntax

type_synonym u8 = "8 word"
type_synonym u16 = "16 word"
type_synonym u32 = "32 word"
type_synonym u64 = "64 word"
type_synonym bytes = "u8 list"

named_theorems layout_simps
named_theorems c_consts

section \<open>Bounds-checked reads\<close>

text \<open>An array read of the C code. \<^term>\<open>None\<close> is a read outside the array.\<close>

definition nth_opt :: "'a list \<Rightarrow> nat \<Rightarrow> 'a option" where
  "nth_opt xs i = (if i < length xs then Some (xs ! i) else None)"

lemma nth_opt_Some [simp]: "i < length xs \<Longrightarrow> nth_opt xs i = Some (xs ! i)"
  by (simp add: nth_opt_def)

lemma nth_opt_None [simp]: "length xs \<le> i \<Longrightarrow> nth_opt xs i = None"
  by (simp add: nth_opt_def)

lemma nth_opt_eq_Some_iff: "nth_opt xs i = Some x \<longleftrightarrow> i < length xs \<and> xs ! i = x"
  by (auto simp: nth_opt_def)

section \<open>C strings\<close>

text \<open>The bytes of a source string literal (without the terminating NUL).\<close>

definition ascii :: "string \<Rightarrow> bytes" where
  "ascii s = map of_char s"

lemma length_ascii [simp]: "length (ascii s) = length s"
  by (simp add: ascii_def)

lemma ascii_Nil [simp]: "ascii [] = []"
  by (simp add: ascii_def)

lemma ascii_Cons [simp]: "ascii (c # s) = of_char c # ascii s"
  by (simp add: ascii_def)

lemma ascii_append [simp]: "ascii (s @ t) = ascii s @ ascii t"
  by (simp add: ascii_def)

lemma ascii_no_nul: "CHR 0x00 \<notin> set s \<Longrightarrow> 0 \<notin> set (ascii s)"
proof
  assume "CHR 0x00 \<notin> set s" and "0 \<in> set (ascii s)"
  then obtain c where c: "c \<in> set s" "of_char c = (0 :: u8)" by (auto simp: ascii_def)
  have "(of_char c :: nat) mod 256 = of_char c" by simp
  moreover have "unat (of_nat (of_char c) :: u8) = 0" using c(2) by (simp only: of_nat_of_char unat_0)
  ultimately have "(of_char c :: nat) = 0" by (simp add: unat_of_nat del: of_nat_of_char)
  then have "c = char_of (0 :: nat)" by (metis char_of_char)
  then have "c = CHR 0x00" by (simp add: char_of_def)
  then show False using c(1) \<open>CHR 0x00 \<notin> set s\<close> by simp
qed

text \<open>The C string stored in a buffer: the bytes before the first NUL.\<close>

definition c_str :: "bytes \<Rightarrow> bytes" where
  "c_str bs = takeWhile (\<lambda>b. b \<noteq> 0) bs"

lemma c_str_Nil [simp]: "c_str [] = []"
  by (simp add: c_str_def)

lemma c_str_Cons: "c_str (b # bs) = (if b = 0 then [] else b # c_str bs)"
  by (simp add: c_str_def)

lemma c_str_nonzero: "b \<in> set (c_str bs) \<Longrightarrow> b \<noteq> 0"
  by (auto simp: c_str_def dest: set_takeWhileD)

lemma c_str_id: "0 \<notin> set bs \<Longrightarrow> c_str bs = bs"
  by (auto simp: c_str_def takeWhile_eq_all_conv)

lemma c_str_append_zeros [simp]: "c_str (bs @ replicate n 0) = c_str bs"
  by (induction bs) (auto simp: c_str_def takeWhile_replicate)

lemma c_str_terminated: "0 \<notin> set bs \<Longrightarrow> c_str (bs @ 0 # rest) = bs"
  by (induction bs) (auto simp: c_str_def)

lemma length_c_str_le: "length (c_str bs) \<le> length bs"
  by (simp add: c_str_def length_takeWhile_le)

section \<open>Slices of a byte string\<close>

definition slice :: "nat \<Rightarrow> nat \<Rightarrow> 'a list \<Rightarrow> 'a list" where
  "slice off n xs = take n (drop off xs)"

definition overwrite :: "nat \<Rightarrow> 'a list \<Rightarrow> 'a list \<Rightarrow> 'a list" where
  "overwrite off ys xs = take off xs @ ys @ drop (off + length ys) xs"

lemma length_slice [simp]: "off + n \<le> length xs \<Longrightarrow> length (slice off n xs) = n"
  by (simp add: slice_def)

lemma length_overwrite [simp]:
  "off + length ys \<le> length xs \<Longrightarrow> length (overwrite off ys xs) = length xs"
  by (simp add: overwrite_def)

lemma nth_overwrite:
  assumes "off + length ys \<le> length xs" and "i < length xs"
  shows "overwrite off ys xs ! i =
    (if off \<le> i \<and> i < off + length ys then ys ! (i - off) else xs ! i)"
  using assms by (auto simp: overwrite_def nth_append min_def)

lemma nth_slice [simp]: "off + n \<le> length xs \<Longrightarrow> i < n \<Longrightarrow> slice off n xs ! i = xs ! (off + i)"
  by (simp add: slice_def)

lemma slice_append_left: "k + n \<le> length xs \<Longrightarrow> slice k n (xs @ ys) = slice k n xs"
  by (simp add: slice_def)

lemma slice_append_right: "length xs \<le> k \<Longrightarrow> slice k n (xs @ ys) = slice (k - length xs) n ys"
  by (simp add: slice_def)

lemma slice_all: "length xs \<le> n \<Longrightarrow> slice 0 n xs = xs"
  by (simp add: slice_def)

lemma slice_overwrite_same [simp]:
  "off + length ys \<le> length xs \<Longrightarrow> n = length ys \<Longrightarrow> slice off n (overwrite off ys xs) = ys"
  by (simp add: slice_def overwrite_def)

lemma slice_overwrite_other:
  assumes "off + length ys \<le> length xs" and "o' + n \<le> length xs"
    and "o' + n \<le> off \<or> off + length ys \<le> o'"
  shows "slice o' n (overwrite off ys xs) = slice o' n xs"
  using assms by (intro nth_equalityI) (auto simp: nth_overwrite)

lemma overwrite_Cons:
  "l < length xs \<Longrightarrow> overwrite l (c # r) xs = overwrite (Suc l) r (xs[l := c])"
  by (simp add: overwrite_def take_Suc_conv_app_nth)

lemma overwrite_Nil [simp]: "overwrite l [] xs = xs"
  by (simp add: overwrite_def)

lemma update_padding:
  "length t < n \<Longrightarrow> (t @ replicate (n - length t) x)[length t := x] = t @ replicate (n - length t) x"
  by (cases "n - length t") (simp_all add: list_update_append)

text \<open>A byte string in a buffer of \<open>n\<close> bytes, filled up with NULs.\<close>

definition pad_to :: "nat \<Rightarrow> bytes \<Rightarrow> bytes" where
  "pad_to n xs = take n (xs @ replicate n 0)"

lemma length_pad_to [simp]: "length (pad_to n xs) = n"
  by (simp add: pad_to_def)

lemma pad_to_short: "length xs \<le> n \<Longrightarrow> pad_to n xs = xs @ replicate (n - length xs) 0"
  by (simp add: pad_to_def)

lemma c_str_zeros [simp]: "c_str (replicate n 0) = []"
  using c_str_append_zeros [of "[]" n] by simp

lemma pad_to_id: "length xs = n \<Longrightarrow> pad_to n xs = xs"
  by (simp add: pad_to_def)

section \<open>Words and bytes\<close>

text \<open>
  \<open>le_word\<close> and \<open>be_word\<close> read a byte string as an unsigned integer, least and most
  significant byte first; \<open>le_bytes n\<close> is the little-endian representation in \<open>n\<close> bytes.
\<close>

primrec le_word :: "bytes \<Rightarrow> 'a::len word" where
  "le_word [] = 0"
| "le_word (b # bs) = ucast b OR push_bit 8 (le_word bs)"

definition be_word :: "bytes \<Rightarrow> 'a::len word" where
  "be_word bs = le_word (rev bs)"

definition le_bytes :: "nat \<Rightarrow> 'a::len word \<Rightarrow> bytes" where
  "le_bytes n w = map (\<lambda>i. ucast (drop_bit (8 * i) w)) [0..<n]"

lemma length_le_bytes [simp]: "length (le_bytes n w) = n"
  by (simp add: le_bytes_def)

lemma bit_le_word:
  "bit (le_word bs :: 'a::len word) n \<longleftrightarrow>
     n < LENGTH('a) \<and> n div 8 < length bs \<and> bit (bs ! (n div 8)) (n mod 8)"
proof (induction bs arbitrary: n)
  case Nil
  show ?case by simp
next
  case (Cons b bs)
  show ?case
  proof (cases "n < 8")
    case True
    then show ?thesis by (auto simp: bit_or_iff bit_push_bit_iff bit_ucast_iff)
  next
    case False
    then have n: "n div 8 = Suc ((n - 8) div 8)" "n mod 8 = (n - 8) mod 8"
      by (simp_all add: div_if mod_if)
    from False have "\<not> bit b n"
      using bit_imp_le_length [of b n] by auto
    with False show ?thesis
      using Cons.IH [of "n - 8"] by (auto simp: bit_or_iff bit_push_bit_iff bit_ucast_iff n)
  qed
qed

lemma nth_le_bytes [simp]: "i < n \<Longrightarrow> le_bytes n w ! i = ucast (drop_bit (8 * i) w)"
  by (simp add: le_bytes_def)

lemma le_word_le_bytes: "LENGTH('a) \<le> 8 * n \<Longrightarrow> le_word (le_bytes n w) = (w :: 'a::len word)"
proof (rule bit_word_eqI)
  fix k
  assume n: "LENGTH('a) \<le> 8 * n" and k: "k < LENGTH('a)"
  then have "k div 8 < n" by (simp add: div_less_iff_less_mult)
  then show "bit (le_word (le_bytes n w) :: 'a word) k = bit w k"
    using k by (auto simp: bit_le_word bit_ucast_iff bit_drop_bit_eq)
qed

lemma le_bytes_le_word:
  assumes "length bs = n" and "8 * n \<le> LENGTH('a::len)"
  shows "le_bytes n (le_word bs :: 'a word) = bs"
proof (rule nth_equalityI)
  show "length (le_bytes n (le_word bs :: 'a word)) = length bs" using assms by simp
next
  fix i
  assume "i < length (le_bytes n (le_word bs :: 'a word))"
  then have i: "i < n" by simp
  show "le_bytes n (le_word bs :: 'a word) ! i = bs ! i"
  proof (rule bit_word_eqI)
    fix k
    assume k: "k < LENGTH(8)"
    from i assms have "k + 8 * i < LENGTH('a)" using k by simp
    moreover from k have "(k + 8 * i) div 8 = i" "(k + 8 * i) mod 8 = k" by simp_all
    ultimately show "bit (le_bytes n (le_word bs :: 'a word) ! i) k = bit (bs ! i) k"
      using i k assms by (simp add: bit_ucast_iff bit_drop_bit_eq bit_le_word add.commute)
  qed
qed

lemma ucast_le_word:
  "LENGTH('b) \<le> LENGTH('a) \<Longrightarrow> ucast (le_word bs :: 'a::len word) = (le_word bs :: 'b::len word)"
  by (rule bit_word_eqI) (auto simp: bit_ucast_iff bit_le_word)

lemma ucast_be_word:
  "LENGTH('b) \<le> LENGTH('a) \<Longrightarrow> ucast (be_word bs :: 'a::len word) = (be_word bs :: 'b::len word)"
  by (simp add: be_word_def ucast_le_word)

lemma le_word_append:
  "le_word (xs @ ys) = (le_word xs OR push_bit (8 * length xs) (le_word ys) :: 'a::len word)"
proof (induction xs)
  case (Cons x xs)
  have "push_bit 8 (a OR b) = push_bit 8 a OR push_bit 8 (b :: 'a word)" for a b
    by (rule bit_word_eqI) (auto simp: bit_simps)
  with Cons show ?case
    by (simp add: or.assoc push_bit_push_bit add.commute)
qed simp

lemma be_word_append:
  "be_word (xs @ ys) = (push_bit (8 * length ys) (be_word xs) OR be_word ys :: 'a::len word)"
  by (simp add: be_word_def le_word_append or.commute)

lemma le_word_replicate_zero [simp]: "le_word (replicate n 0) = 0"
  by (induction n) auto

lemma le_word_append_zeros [simp]: "le_word (xs @ replicate n 0) = le_word xs"
  by (simp add: le_word_append)

lemma drop_bit_le_word:
  assumes "8 * (length xs + length ys) \<le> LENGTH('a)"
  shows "drop_bit (8 * length xs) (le_word (xs @ ys) :: 'a::len word) = le_word ys"
proof (rule bit_word_eqI)
  fix k
  assume "k < LENGTH('a)"
  show "bit (drop_bit (8 * length xs) (le_word (xs @ ys) :: 'a word)) k = bit (le_word ys :: 'a word) k"
    using assms by (auto simp: bit_drop_bit_eq bit_le_word nth_append)
qed

lemma le_word_single [simp]: "le_word [b] = ucast b"
  by simp

lemma be_word_single [simp]: "be_word [b] = ucast b"
  by (simp add: be_word_def)

lemma ucast_of_nat_down:
  "LENGTH('b) \<le> LENGTH('a) \<Longrightarrow> ucast (of_nat k :: 'a::len word) = (of_nat k :: 'b::len word)"
  by (rule bit_word_eqI) (auto simp: bit_ucast_iff bit_of_nat_iff)

lemma ucast_ucast_up:
  "LENGTH('b) \<le> LENGTH('a) \<Longrightarrow> ucast (ucast (x :: 'b::len word) :: 'a::len word) = x"
  by (rule bit_word_eqI) (auto simp: bit_ucast_iff dest: bit_imp_le_length)

lemma unat_ucast_up:
  assumes "LENGTH('a) \<le> LENGTH('b)"
  shows "unat (ucast (x :: 'a::len word) :: 'b::len word) = unat x"
proof -
  have "unat x < 2 ^ LENGTH('a)" by (rule unsigned_less)
  also have "\<dots> \<le> (2 :: nat) ^ LENGTH('b)" using assms by simp
  finally show ?thesis by (simp add: unsigned_ucast_eq take_bit_nat_eq_self)
qed

end
