(* ===== verification/Bpf_Endian.thy ===== *)
theory Bpf_Endian
  imports Prelude
begin

text \<open>
  \<open>src/ebpf/includes/bpf_endian.h\<close>: the byte-swapping macros and the host/network order
  conversions chosen by \<open>__BYTE_ORDER__\<close>. A leading run of underscores of a macro name is spelled
  \<open>us_\<close>. The compiler builtins the non-constant conversions expand to reverse the bytes of their
  argument.

  The interface of a byte swap (it reverses the byte representation) is the locale
  \<open>byte_swap\<close>; the three macros and the three builtins are instances of it, so the macro and the
  builtin of a width agree, a swap undoes itself, and swapping a little-endian reading gives the
  big-endian one.
\<close>

section \<open>The macros\<close>

text \<open>
  \<open>___bpf_mvb(x, b, n, m)\<close> isolates byte \<open>n\<close> and moves it to byte \<open>m\<close>. For \<open>b = 16\<close> the operand of
  the shifts is promoted to \<open>int\<close>, so the intermediate value is wider than 16 bits.
\<close>

definition us_bpf_mvb16 :: "u16 \<Rightarrow> nat \<Rightarrow> nat \<Rightarrow> u32" where
  "us_bpf_mvb16 x n m = push_bit (m * 8) (drop_bit (16 - 8) (push_bit (16 - (n + 1) * 8) (ucast x)))"

definition us_bpf_mvb32 :: "u32 \<Rightarrow> nat \<Rightarrow> nat \<Rightarrow> u32" where
  "us_bpf_mvb32 x n m = push_bit (m * 8) (drop_bit (32 - 8) (push_bit (32 - (n + 1) * 8) x))"

definition us_bpf_mvb64 :: "u64 \<Rightarrow> nat \<Rightarrow> nat \<Rightarrow> u64" where
  "us_bpf_mvb64 x n m = push_bit (m * 8) (drop_bit (64 - 8) (push_bit (64 - (n + 1) * 8) x))"

definition us_bpf_swab16 :: "u16 \<Rightarrow> u16" where
  "us_bpf_swab16 x = ucast (us_bpf_mvb16 x 0 1 OR us_bpf_mvb16 x 1 0)"

definition us_bpf_swab32 :: "u32 \<Rightarrow> u32" where
  "us_bpf_swab32 x =
     us_bpf_mvb32 x 0 3 OR us_bpf_mvb32 x 1 2 OR us_bpf_mvb32 x 2 1 OR us_bpf_mvb32 x 3 0"

definition us_bpf_swab64 :: "u64 \<Rightarrow> u64" where
  "us_bpf_swab64 x =
     us_bpf_mvb64 x 0 7 OR us_bpf_mvb64 x 1 6 OR us_bpf_mvb64 x 2 5 OR us_bpf_mvb64 x 3 4 OR
     us_bpf_mvb64 x 4 3 OR us_bpf_mvb64 x 5 2 OR us_bpf_mvb64 x 6 1 OR us_bpf_mvb64 x 7 0"

text \<open>The compiler's \<open>__builtin_bswap16\<close>, \<open>32\<close> and \<open>64\<close>.\<close>

definition builtin_bswap16 :: "u16 \<Rightarrow> u16" where
  "builtin_bswap16 x = le_word (rev (le_bytes 2 x))"

definition builtin_bswap32 :: "u32 \<Rightarrow> u32" where
  "builtin_bswap32 x = le_word (rev (le_bytes 4 x))"

definition builtin_bswap64 :: "u64 \<Rightarrow> u64" where
  "builtin_bswap64 x = le_word (rev (le_bytes 8 x))"

datatype byte_order = ORDER_LITTLE_ENDIAN | ORDER_BIG_ENDIAN

fun us_bpf_ntohs :: "byte_order \<Rightarrow> u16 \<Rightarrow> u16" where
  "us_bpf_ntohs ORDER_LITTLE_ENDIAN x = builtin_bswap16 x"
| "us_bpf_ntohs ORDER_BIG_ENDIAN x = x"

fun us_bpf_htons :: "byte_order \<Rightarrow> u16 \<Rightarrow> u16" where
  "us_bpf_htons ORDER_LITTLE_ENDIAN x = builtin_bswap16 x"
| "us_bpf_htons ORDER_BIG_ENDIAN x = x"

fun us_bpf_constant_ntohs :: "byte_order \<Rightarrow> u16 \<Rightarrow> u16" where
  "us_bpf_constant_ntohs ORDER_LITTLE_ENDIAN x = us_bpf_swab16 x"
| "us_bpf_constant_ntohs ORDER_BIG_ENDIAN x = x"

fun us_bpf_constant_htons :: "byte_order \<Rightarrow> u16 \<Rightarrow> u16" where
  "us_bpf_constant_htons ORDER_LITTLE_ENDIAN x = us_bpf_swab16 x"
| "us_bpf_constant_htons ORDER_BIG_ENDIAN x = x"

fun us_bpf_ntohl :: "byte_order \<Rightarrow> u32 \<Rightarrow> u32" where
  "us_bpf_ntohl ORDER_LITTLE_ENDIAN x = builtin_bswap32 x"
| "us_bpf_ntohl ORDER_BIG_ENDIAN x = x"

fun us_bpf_htonl :: "byte_order \<Rightarrow> u32 \<Rightarrow> u32" where
  "us_bpf_htonl ORDER_LITTLE_ENDIAN x = builtin_bswap32 x"
| "us_bpf_htonl ORDER_BIG_ENDIAN x = x"

fun us_bpf_constant_ntohl :: "byte_order \<Rightarrow> u32 \<Rightarrow> u32" where
  "us_bpf_constant_ntohl ORDER_LITTLE_ENDIAN x = us_bpf_swab32 x"
| "us_bpf_constant_ntohl ORDER_BIG_ENDIAN x = x"

fun us_bpf_constant_htonl :: "byte_order \<Rightarrow> u32 \<Rightarrow> u32" where
  "us_bpf_constant_htonl ORDER_LITTLE_ENDIAN x = us_bpf_swab32 x"
| "us_bpf_constant_htonl ORDER_BIG_ENDIAN x = x"

fun us_bpf_ntohll :: "byte_order \<Rightarrow> u64 \<Rightarrow> u64" where
  "us_bpf_ntohll ORDER_LITTLE_ENDIAN x = builtin_bswap64 x"
| "us_bpf_ntohll ORDER_BIG_ENDIAN x = x"

fun us_bpf_htonll :: "byte_order \<Rightarrow> u64 \<Rightarrow> u64" where
  "us_bpf_htonll ORDER_LITTLE_ENDIAN x = builtin_bswap64 x"
| "us_bpf_htonll ORDER_BIG_ENDIAN x = x"

fun us_bpf_constant_ntohll :: "byte_order \<Rightarrow> u64 \<Rightarrow> u64" where
  "us_bpf_constant_ntohll ORDER_LITTLE_ENDIAN x = us_bpf_swab64 x"
| "us_bpf_constant_ntohll ORDER_BIG_ENDIAN x = x"

fun us_bpf_constant_htonll :: "byte_order \<Rightarrow> u64 \<Rightarrow> u64" where
  "us_bpf_constant_htonll ORDER_LITTLE_ENDIAN x = us_bpf_swab64 x"
| "us_bpf_constant_htonll ORDER_BIG_ENDIAN x = x"

fun us_bpf_be64_to_cpu :: "byte_order \<Rightarrow> u64 \<Rightarrow> u64" where
  "us_bpf_be64_to_cpu ORDER_LITTLE_ENDIAN x = builtin_bswap64 x"
| "us_bpf_be64_to_cpu ORDER_BIG_ENDIAN x = x"

fun us_bpf_cpu_to_be64 :: "byte_order \<Rightarrow> u64 \<Rightarrow> u64" where
  "us_bpf_cpu_to_be64 ORDER_LITTLE_ENDIAN x = builtin_bswap64 x"
| "us_bpf_cpu_to_be64 ORDER_BIG_ENDIAN x = x"

fun us_bpf_constant_be64_to_cpu :: "byte_order \<Rightarrow> u64 \<Rightarrow> u64" where
  "us_bpf_constant_be64_to_cpu ORDER_LITTLE_ENDIAN x = us_bpf_swab64 x"
| "us_bpf_constant_be64_to_cpu ORDER_BIG_ENDIAN x = x"

fun us_bpf_constant_cpu_to_be64 :: "byte_order \<Rightarrow> u64 \<Rightarrow> u64" where
  "us_bpf_constant_cpu_to_be64 ORDER_LITTLE_ENDIAN x = us_bpf_swab64 x"
| "us_bpf_constant_cpu_to_be64 ORDER_BIG_ENDIAN x = x"

text \<open>
  The public macros: \<open>cp\<close> is \<open>__builtin_constant_p(x)\<close>, whether the compiler sees the argument as
  a constant.
\<close>

definition bpf_htons :: "byte_order \<Rightarrow> bool \<Rightarrow> u16 \<Rightarrow> u16" where
  "bpf_htons bo cp x = (if cp then us_bpf_constant_htons bo x else us_bpf_htons bo x)"

definition bpf_ntohs :: "byte_order \<Rightarrow> bool \<Rightarrow> u16 \<Rightarrow> u16" where
  "bpf_ntohs bo cp x = (if cp then us_bpf_constant_ntohs bo x else us_bpf_ntohs bo x)"

definition bpf_htonl :: "byte_order \<Rightarrow> bool \<Rightarrow> u32 \<Rightarrow> u32" where
  "bpf_htonl bo cp x = (if cp then us_bpf_constant_htonl bo x else us_bpf_htonl bo x)"

definition bpf_ntohl :: "byte_order \<Rightarrow> bool \<Rightarrow> u32 \<Rightarrow> u32" where
  "bpf_ntohl bo cp x = (if cp then us_bpf_constant_ntohl bo x else us_bpf_ntohl bo x)"

definition bpf_htonll :: "byte_order \<Rightarrow> bool \<Rightarrow> u64 \<Rightarrow> u64" where
  "bpf_htonll bo cp x = (if cp then us_bpf_constant_htonll bo x else us_bpf_htonll bo x)"

definition bpf_ntohll :: "byte_order \<Rightarrow> bool \<Rightarrow> u64 \<Rightarrow> u64" where
  "bpf_ntohll bo cp x = (if cp then us_bpf_constant_ntohll bo x else us_bpf_ntohll bo x)"

definition bpf_cpu_to_be64 :: "byte_order \<Rightarrow> bool \<Rightarrow> u64 \<Rightarrow> u64" where
  "bpf_cpu_to_be64 bo cp x =
     (if cp then us_bpf_constant_cpu_to_be64 bo x else us_bpf_cpu_to_be64 bo x)"

definition bpf_be64_to_cpu :: "byte_order \<Rightarrow> bool \<Rightarrow> u64 \<Rightarrow> u64" where
  "bpf_be64_to_cpu bo cp x =
     (if cp then us_bpf_constant_be64_to_cpu bo x else us_bpf_be64_to_cpu bo x)"

section \<open>The byte swap interface\<close>

text \<open>
  A byte swap of an \<open>n\<close>-byte word reverses its byte representation. Everything the clients need
  follows from that one law.
\<close>

locale byte_swap =
  fixes swab :: "'a::len word \<Rightarrow> 'a word"
    and n :: nat
  assumes width: "LENGTH('a) = 8 * n"
    and swab_bytes: "le_bytes n (swab x) = rev (le_bytes n x)"
begin

lemma le_bytes_inject: "le_bytes n x = le_bytes n y \<longleftrightarrow> x = (y :: 'a word)"
proof
  assume "le_bytes n x = le_bytes n y"
  then have "(le_word (le_bytes n x) :: 'a word) = le_word (le_bytes n y)" by simp
  then show "x = y" using width by (simp add: le_word_le_bytes)
qed simp

lemma swab_involution: "swab (swab x) = x"
  by (simp add: le_bytes_inject [symmetric] swab_bytes)

lemma swab_inject: "swab x = swab y \<longleftrightarrow> x = y"
  using swab_involution by metis

lemma swab_le_word: "length bs = n \<Longrightarrow> swab (le_word bs) = be_word bs"
  using width by (simp add: le_bytes_inject [symmetric] swab_bytes be_word_def le_bytes_le_word)

lemma swab_be_word: "length bs = n \<Longrightarrow> swab (be_word bs) = le_word bs"
  using swab_le_word swab_involution by metis

end

lemma byte_swap_unique: "byte_swap f n \<Longrightarrow> byte_swap g n \<Longrightarrow> f x = g x"
  by (simp add: byte_swap.le_bytes_inject [symmetric] byte_swap.swab_bytes)

section \<open>The macros and the builtins are byte swaps\<close>

lemma bit_us_bpf_mvb16:
  "n < 2 \<Longrightarrow> m < 2 \<Longrightarrow>
     bit (us_bpf_mvb16 x n m) k \<longleftrightarrow> m * 8 \<le> k \<and> bit x (k - m * 8 + n * 8)"
  by (auto simp: us_bpf_mvb16_def bit_simps dest: bit_imp_le_length)

lemma bit_us_bpf_mvb32:
  "n < 4 \<Longrightarrow> m < 4 \<Longrightarrow>
     bit (us_bpf_mvb32 x n m) k \<longleftrightarrow> m * 8 \<le> k \<and> k < m * 8 + 8 \<and> bit x (k - m * 8 + n * 8)"
  by (auto simp: us_bpf_mvb32_def bit_simps dest: bit_imp_le_length)

lemma bit_us_bpf_mvb64:
  "n < 8 \<Longrightarrow> m < 8 \<Longrightarrow>
     bit (us_bpf_mvb64 x n m) k \<longleftrightarrow> m * 8 \<le> k \<and> k < m * 8 + 8 \<and> bit x (k - m * 8 + n * 8)"
  by (auto simp: us_bpf_mvb64_def bit_simps dest: bit_imp_le_length)

text \<open>A function that moves bit \<open>r\<close> of byte \<open>n - 1 - q\<close> to bit \<open>r\<close> of byte \<open>q\<close> reverses the bytes.\<close>

lemma rev_bytesI:
  fixes x y :: "'a::len word"
  assumes "LENGTH('a) = 8 * n"
    and bits: "\<And>q r. q < n \<Longrightarrow> r < 8 \<Longrightarrow> bit y (r + 8 * q) \<longleftrightarrow> bit x (r + 8 * (n - Suc q))"
  shows "le_bytes n y = rev (le_bytes n x)"
proof (rule nth_equalityI)
  fix i
  assume "i < length (le_bytes n y)"
  then have i: "i < n" by simp
  show "le_bytes n y ! i = rev (le_bytes n x) ! i"
    using i bits [OF i] assms(1)
    by (intro bit_word_eqI) (auto simp: rev_nth bit_ucast_iff bit_drop_bit_eq add.commute)
qed simp

lemma us_bpf_swab16_bytes: "le_bytes 2 (us_bpf_swab16 x) = rev (le_bytes 2 x)"
proof (rule rev_bytesI)
  fix q r :: nat
  assume q: "q < 2" and r: "r < 8"
  then have "q = 0 \<or> q = 1" by linarith
  then show "bit (us_bpf_swab16 x) (r + 8 * q) \<longleftrightarrow> bit x (r + 8 * (2 - Suc q))"
    using r bit_imp_le_length [of x "16 + r"]
    by (elim disjE) (auto simp: us_bpf_swab16_def bit_ucast_iff bit_or_iff bit_us_bpf_mvb16)
qed simp

lemma us_bpf_swab32_bytes: "le_bytes 4 (us_bpf_swab32 x) = rev (le_bytes 4 x)"
proof (rule rev_bytesI)
  fix q r :: nat
  assume q: "q < 4" and r: "r < 8"
  then have "q = 0 \<or> q = 1 \<or> q = 2 \<or> q = 3" by linarith
  then show "bit (us_bpf_swab32 x) (r + 8 * q) \<longleftrightarrow> bit x (r + 8 * (4 - Suc q))"
    using r by (elim disjE) (simp_all add: us_bpf_swab32_def bit_or_iff bit_us_bpf_mvb32)
qed simp

lemma us_bpf_swab64_bytes: "le_bytes 8 (us_bpf_swab64 x) = rev (le_bytes 8 x)"
proof (rule rev_bytesI)
  fix q r :: nat
  assume q: "q < 8" and r: "r < 8"
  then have "q = 0 \<or> q = 1 \<or> q = 2 \<or> q = 3 \<or> q = 4 \<or> q = 5 \<or> q = 6 \<or> q = 7" by linarith
  then show "bit (us_bpf_swab64 x) (r + 8 * q) \<longleftrightarrow> bit x (r + 8 * (8 - Suc q))"
    using r by (elim disjE) (simp_all add: us_bpf_swab64_def bit_or_iff bit_us_bpf_mvb64)
qed simp

interpretation swab16: byte_swap us_bpf_swab16 2
  by unfold_locales (simp_all add: us_bpf_swab16_bytes)

interpretation swab32: byte_swap us_bpf_swab32 4
  by unfold_locales (simp_all add: us_bpf_swab32_bytes)

interpretation swab64: byte_swap us_bpf_swab64 8
  by unfold_locales (simp_all add: us_bpf_swab64_bytes)

interpretation bswap16: byte_swap builtin_bswap16 2
  by unfold_locales (simp_all add: builtin_bswap16_def le_bytes_le_word)

interpretation bswap32: byte_swap builtin_bswap32 4
  by unfold_locales (simp_all add: builtin_bswap32_def le_bytes_le_word)

interpretation bswap64: byte_swap builtin_bswap64 8
  by unfold_locales (simp_all add: builtin_bswap64_def le_bytes_le_word)

lemma builtin_eq_swab:
  "builtin_bswap16 = us_bpf_swab16"
  "builtin_bswap32 = us_bpf_swab32"
  "builtin_bswap64 = us_bpf_swab64"
  by (rule ext, rule byte_swap_unique, rule bswap16.byte_swap_axioms, rule swab16.byte_swap_axioms)
    (rule ext, rule byte_swap_unique, rule bswap32.byte_swap_axioms, rule swab32.byte_swap_axioms,
      rule ext, rule byte_swap_unique, rule bswap64.byte_swap_axioms, rule swab64.byte_swap_axioms)

section \<open>Host and network order\<close>

text \<open>
  The memory representation of a value on a host: least significant byte first on a little-endian
  host, most significant first on a big-endian one. A value in network order is one whose host
  representation is the big-endian byte string.
\<close>

fun host_bytes :: "byte_order \<Rightarrow> nat \<Rightarrow> 'a::len word \<Rightarrow> bytes" where
  "host_bytes ORDER_LITTLE_ENDIAN n x = le_bytes n x"
| "host_bytes ORDER_BIG_ENDIAN n x = rev (le_bytes n x)"

lemma ntohll_network:
  "host_bytes bo 8 (bpf_htonll bo cp x) = rev (le_bytes 8 x)"
  "bpf_ntohll bo cp (bpf_htonll bo cp' x) = x"
  by (cases bo; simp add: bpf_htonll_def bpf_ntohll_def builtin_eq_swab us_bpf_swab64_bytes
      swab64.swab_involution)+

lemma ntohl_network:
  "host_bytes bo 4 (bpf_htonl bo cp x) = rev (le_bytes 4 x)"
  "bpf_ntohl bo cp (bpf_htonl bo cp' x) = x"
  by (cases bo; simp add: bpf_htonl_def bpf_ntohl_def builtin_eq_swab us_bpf_swab32_bytes
      swab32.swab_involution)+

lemma ntohs_network:
  "host_bytes bo 2 (bpf_htons bo cp x) = rev (le_bytes 2 x)"
  "bpf_ntohs bo cp (bpf_htons bo cp' x) = x"
  by (cases bo; simp add: bpf_htons_def bpf_ntohs_def builtin_eq_swab us_bpf_swab16_bytes
      swab16.swab_involution)+

lemma be64_network:
  "host_bytes bo 8 (bpf_cpu_to_be64 bo cp x) = rev (le_bytes 8 x)"
  "bpf_be64_to_cpu bo cp (bpf_cpu_to_be64 bo cp' x) = x"
  by (cases bo; simp add: bpf_cpu_to_be64_def bpf_be64_to_cpu_def builtin_eq_swab
      us_bpf_swab64_bytes swab64.swab_involution)+

section \<open>Properties\<close>

text \<open>
  C34: on hosts of either byte order and for constant and computed arguments alike, the conversions to
  network order give a value whose representation in memory is the bytes of the argument, most
  significant first, and the conversions back undo them, for 16, 32 and 64 bits; so the macro
  implementation and the compiler's builtin are interchangeable.
\<close>

theorem endian_conversions:
  "host_bytes bo 2 (bpf_htons bo cp x) = rev (le_bytes 2 x) \<and> bpf_ntohs bo cp (bpf_htons bo cp' x) = x \<and>
   host_bytes bo 4 (bpf_htonl bo cp y) = rev (le_bytes 4 y) \<and> bpf_ntohl bo cp (bpf_htonl bo cp' y) = y \<and>
   host_bytes bo 8 (bpf_htonll bo cp z) = rev (le_bytes 8 z) \<and> bpf_ntohll bo cp (bpf_htonll bo cp' z) = z \<and>
   host_bytes bo 8 (bpf_cpu_to_be64 bo cp z) = rev (le_bytes 8 z) \<and>
   bpf_be64_to_cpu bo cp (bpf_cpu_to_be64 bo cp' z) = z"
  by (intro conjI ntohs_network ntohl_network ntohll_network be64_network)

end
