(* ===== verification/CLayout.thy ===== *)
theory CLayout
  imports Prelude
begin

text \<open>
  The data layout the C compiler gives to the declarations of \<open>ebpf/includes/*/vmlinux.h\<close> and of
  the eBPF sources. A declaration is a value of \<open>ctype\<close>; \<open>sizeof\<close>, \<open>alignof\<close> and \<open>member\<close>
  compute what \<open>sizeof\<close>, \<open>_Alignof\<close> and \<open>offsetof\<close> give for the 64-bit eBPF target the objects
  are built for (\<open>clang -target bpf\<close>, \<open>ebpf/Makefile\<close>): LP64 integers, 8-byte pointers, 4-byte
  enumerations, a bit-field never straddles a storage unit of its declared type, an unnamed
  bit-field pads without raising the alignment of its structure. Positions are counted in bits
  inside a structure, in bytes outside.

  The lemmas show, for every declaration: alignments are powers of two, sizes are multiples of
  the alignment, the fields of a structure are placed in order, disjoint and inside the structure,
  and every member found by name (through anonymous members too) is aligned and inside.
\<close>

section \<open>Declarations\<close>

datatype cbase = CBool | CChar | CSChar | CUChar | CShort | CUShort | CInt | CUInt
  | CLong | CULong | CLongLong | CULongLong | CInt128 | CUInt128

text \<open>
  The field name \<open>''''\<close> marks an anonymous member; \<open>Bits\<close> is a bit-field with its declared type
  and width. The argument of \<open>CPtr\<close> and \<open>CEnum\<close> keeps the name of the referenced type.
\<close>

datatype ctype = CBase cbase | CEnum string | CPtr string | CArr ctype nat
  | CStruct "cfield list" | CUnion "cfield list"
and cfield = Field string ctype | Bits string ctype nat

fun base_size :: "cbase \<Rightarrow> nat" where
  "base_size CBool = 1"
| "base_size CChar = 1"
| "base_size CSChar = 1"
| "base_size CUChar = 1"
| "base_size CShort = 2"
| "base_size CUShort = 2"
| "base_size CInt = 4"
| "base_size CUInt = 4"
| "base_size CLong = 8"
| "base_size CULong = 8"
| "base_size CLongLong = 8"
| "base_size CULongLong = 8"
| "base_size CInt128 = 16"
| "base_size CUInt128 = 16"

definition align_up :: "nat \<Rightarrow> nat \<Rightarrow> nat" where
  "align_up x a = (x + a - 1) div a * a"

section \<open>Alignment, size, placement\<close>

fun alignof :: "ctype \<Rightarrow> nat"
  and falign :: "cfield \<Rightarrow> nat"
  and fsalign :: "cfield list \<Rightarrow> nat" where
  "alignof (CBase b) = base_size b"
| "alignof (CEnum _) = 4"
| "alignof (CPtr _) = 8"
| "alignof (CArr t _) = alignof t"
| "alignof (CStruct fs) = fsalign fs"
| "alignof (CUnion fs) = fsalign fs"
| "falign (Field _ t) = alignof t"
| "falign (Bits nm t _) = (if nm = [] then 1 else alignof t)"
| "fsalign [] = 1"
| "fsalign (f # fs) = max (falign f) (fsalign fs)"

text \<open>
  \<open>fstart f w pos\<close> is the first bit of field \<open>f\<close>, of width \<open>w\<close>, when the fields before it end at
  bit \<open>pos\<close>. A bit-field stays at \<open>pos\<close> when it fits into the current storage unit of its declared
  type; a zero-width bit-field closes the unit.
\<close>

fun fstart :: "cfield \<Rightarrow> nat \<Rightarrow> nat" where
  "fstart (Field _ t) pos = align_up pos (8 * alignof t)"
| "fstart (Bits _ t w) pos =
     (if w = 0 \<or> 8 * alignof t < pos mod (8 * alignof t) + w
      then align_up pos (8 * alignof t) else pos)"

fun sizeof :: "ctype \<Rightarrow> nat"
  and fwidth :: "cfield \<Rightarrow> nat"
  and fsend :: "cfield list \<Rightarrow> nat \<Rightarrow> nat"
  and fsmax :: "cfield list \<Rightarrow> nat" where
  "sizeof (CBase b) = base_size b"
| "sizeof (CEnum _) = 4"
| "sizeof (CPtr _) = 8"
| "sizeof (CArr t n) = n * sizeof t"
| "sizeof (CStruct fs) = align_up (fsend fs 0) (8 * fsalign fs) div 8"
| "sizeof (CUnion fs) = align_up (fsmax fs) (8 * fsalign fs) div 8"
| "fwidth (Field _ t) = 8 * sizeof t"
| "fwidth (Bits _ _ w) = w"
| "fsend [] pos = pos"
| "fsend (f # fs) pos = fsend fs (fstart f pos + fwidth f)"
| "fsmax [] = 0"
| "fsmax (f # fs) = max (fwidth f) (fsmax fs)"

text \<open>The fields of a structure with their first bits, in declaration order.\<close>

fun layout :: "cfield list \<Rightarrow> nat \<Rightarrow> (nat \<times> cfield) list" where
  "layout [] pos = []"
| "layout (f # fs) pos = (fstart f pos, f) # layout fs (fstart f pos + fwidth f)"

text \<open>
  \<open>member t n\<close> is the byte offset and the type of the member \<open>n\<close> of \<open>t\<close>, searched through
  anonymous structures and unions as C does.
\<close>

fun member :: "ctype \<Rightarrow> string \<Rightarrow> (nat \<times> ctype) option"
  and smember :: "cfield list \<Rightarrow> nat \<Rightarrow> string \<Rightarrow> (nat \<times> ctype) option"
  and umember :: "cfield list \<Rightarrow> string \<Rightarrow> (nat \<times> ctype) option" where
  "member (CStruct fs) n = smember fs 0 n"
| "member (CUnion fs) n = umember fs n"
| "member _ n = None"
| "smember [] pos n = None"
| "smember (Field m t # fs) pos n =
     (if m = n then Some (align_up pos (8 * alignof t) div 8, t)
      else case (if m = [] then member t n else None) of
        Some (off, t') \<Rightarrow> Some (align_up pos (8 * alignof t) div 8 + off, t')
      | None \<Rightarrow> smember fs (align_up pos (8 * alignof t) + 8 * sizeof t) n)"
| "smember (Bits m t w # fs) pos n = smember fs (fstart (Bits m t w) pos + w) n"
| "umember [] n = None"
| "umember (Field m t # fs) n =
     (if m = n then Some (0, t)
      else case (if m = [] then member t n else None) of
        Some r \<Rightarrow> Some r
      | None \<Rightarrow> umember fs n)"
| "umember (Bits m t w # fs) n = umember fs n"

text \<open>\<open>offsetof\<close> along a designator such as \<open>tup.saddr_l\<close>.\<close>

fun member_path :: "ctype \<Rightarrow> string list \<Rightarrow> (nat \<times> ctype) option" where
  "member_path t [] = Some (0, t)"
| "member_path t (n # ns) =
     (case member t n of
        None \<Rightarrow> None
      | Some (off, t') \<Rightarrow> map_option (\<lambda>(o', u). (off + o', u)) (member_path t' ns))"

definition offsetof :: "ctype \<Rightarrow> string \<Rightarrow> nat option" where
  "offsetof t n = map_option fst (member t n)"

section \<open>Alignments and sizes\<close>

lemma align_up_ge: "0 < a \<Longrightarrow> x \<le> align_up x a"
proof -
  assume a: "0 < a"
  have "(x + a - 1) div a * a + (x + a - 1) mod a = x + a - 1" by (rule div_mult_mod_eq)
  moreover have "(x + a - 1) mod a < a" using a by simp
  ultimately show ?thesis unfolding align_up_def using a by linarith
qed

lemma align_up_dvd [simp]: "a dvd align_up x a"
  by (simp add: align_up_def)

lemma align_up_less: "0 < a \<Longrightarrow> align_up x a < x + a"
proof -
  assume a: "0 < a"
  have "(x + a - 1) div a * a \<le> x + a - 1" by (rule div_times_less_eq_dividend)
  then show ?thesis unfolding align_up_def using a by linarith
qed

lemma base_size_pow2: "\<exists>k. base_size b = 2 ^ k"
  by (cases b) (auto intro: exI [of _ 0] exI [of _ 1] exI [of _ 2] exI [of _ 3] exI [of _ 4])

lemma alignof_pow2:
  "\<exists>k. alignof t = 2 ^ k"
  "\<exists>k. falign f = 2 ^ k"
  "\<exists>k. fsalign fs = 2 ^ k"
proof (induction t and f and fs rule: alignof_falign_fsalign.induct)
  case (2 n)
  show ?case by (auto intro: exI [of _ 2])
next
  case (3 n)
  show ?case by (auto intro: exI [of _ 3])
next
  case (10 f fs)
  then show ?case by (auto simp: max_def)
qed (auto simp: base_size_pow2 intro: exI [of _ 0])

lemma alignof_pos [simp]: "0 < alignof t" "0 < falign f" "0 < fsalign fs"
proof -
  obtain i j k where "alignof t = 2 ^ i" "falign f = 2 ^ j" "fsalign fs = 2 ^ k"
    using alignof_pow2 by meson
  then show "0 < alignof t" "0 < falign f" "0 < fsalign fs" by simp_all
qed

text \<open>Of two alignments the smaller divides the larger.\<close>

lemma alignof_dvd: "falign f \<le> fsalign fs \<Longrightarrow> falign f dvd fsalign fs"
proof -
  assume le: "falign f \<le> fsalign fs"
  obtain j k where "falign f = 2 ^ j" "fsalign fs = 2 ^ k"
    using alignof_pow2(2,3) by blast
  with le show ?thesis by (simp add: le_imp_power_dvd)
qed

lemma falign_dvd_fsalign: "f \<in> set fs \<Longrightarrow> falign f dvd fsalign fs"
proof (rule alignof_dvd)
  show "f \<in> set fs \<Longrightarrow> falign f \<le> fsalign fs"
    by (induction fs) auto
qed

lemma alignof_dvd_sizeof: "alignof t dvd sizeof t"
proof (induction t rule: ctype.induct [where ?P2.0 = "\<lambda>_. True"])
  case (CStruct fs)
  have "8 * fsalign fs dvd align_up (fsend fs 0) (8 * fsalign fs)" by (rule align_up_dvd)
  then show ?case by (auto simp: dvd_def)
next
  case (CUnion fs)
  have "8 * fsalign fs dvd align_up (fsmax fs) (8 * fsalign fs)" by (rule align_up_dvd)
  then show ?case by (auto simp: dvd_def)
qed auto

section \<open>Placement of fields\<close>

lemma fstart_ge: "pos \<le> fstart f pos"
  by (cases f) (auto simp: align_up_ge)

lemma fsend_ge: "pos \<le> fsend fs pos"
proof (induction fs arbitrary: pos)
  case (Cons f fs)
  have "pos \<le> fstart f pos + fwidth f" using fstart_ge [of pos f] by simp
  also have "\<dots> \<le> fsend fs (fstart f pos + fwidth f)" by (rule Cons)
  finally show ?case by simp
qed simp

lemma layout_bounds:
  "(s, f) \<in> set (layout fs pos) \<Longrightarrow> pos \<le> s \<and> s + fwidth f \<le> fsend fs pos"
proof (induction fs arbitrary: pos)
  case (Cons g gs)
  let ?e = "fstart g pos + fwidth g"
  have e: "pos \<le> ?e" "?e \<le> fsend gs ?e"
    using fstart_ge [of pos g] fsend_ge by auto
  from Cons.prems consider "s = fstart g pos" "f = g" | "(s, f) \<in> set (layout gs ?e)"
    by auto
  then show ?case
  proof cases
    case 1
    with e show ?thesis using fstart_ge [of pos g] by simp
  next
    case 2
    with Cons.IH [of ?e] e show ?thesis by fastforce
  qed
qed simp

lemma layout_sorted: "sorted_wrt (\<lambda>(s, f) (s', f'). s + fwidth f \<le> s') (layout fs pos)"
  by (induction fs arbitrary: pos) (auto dest: layout_bounds)

lemma sizeof_CStruct_ge: "fsend fs 0 \<le> 8 * sizeof (CStruct fs)"
proof -
  let ?u = "align_up (fsend fs 0) (8 * fsalign fs)"
  have "fsend fs 0 \<le> ?u" by (simp add: align_up_ge)
  moreover have "8 dvd ?u" by (rule dvd_trans [OF _ align_up_dvd]) simp
  ultimately show ?thesis by simp
qed

text \<open>The boundary rule each field obeys: a field is aligned, a bit-field stays in one unit.\<close>

fun well_placed :: "nat \<times> cfield \<Rightarrow> bool" where
  "well_placed (s, Field _ t) \<longleftrightarrow> 8 * alignof t dvd s"
| "well_placed (s, Bits _ t w) \<longleftrightarrow>
     0 < w \<longrightarrow> w \<le> 8 * alignof t \<longrightarrow> s mod (8 * alignof t) + w \<le> 8 * alignof t"

lemma fstart_well_placed: "well_placed (fstart f pos, f)"
proof (cases f)
  case (Bits nm t w)
  have "align_up pos (8 * alignof t) mod (8 * alignof t) = 0"
    by (simp add: align_up_def)
  then show ?thesis by (auto simp: Bits)
qed (simp)

lemma layout_well_placed: "sf \<in> set (layout fs pos) \<Longrightarrow> well_placed sf"
  by (induction fs arbitrary: pos) (auto simp: fstart_well_placed)

section \<open>Members by name\<close>

lemma fsalign_Cons_dvd:
  "falign f dvd fsalign (f # fs)" "fsalign fs dvd fsalign (f # fs)"
proof -
  show "falign f dvd fsalign (f # fs)" by (rule falign_dvd_fsalign) simp
  obtain j k where "falign f = 2 ^ j" "fsalign fs = 2 ^ k"
    using alignof_pow2(2,3) by meson
  then show "fsalign fs dvd fsalign (f # fs)" by (simp add: max_def le_imp_power_dvd)
qed

lemma align_up_div8: "8 * (align_up pos (8 * a) div 8) = align_up pos (8 * a)"
proof -
  have "8 dvd align_up pos (8 * a)" by (rule dvd_trans [OF _ align_up_dvd]) simp
  then show ?thesis by simp
qed

lemma dvd_align_up_div8: "a dvd align_up pos (8 * a) div 8"
  using align_up_dvd [of "8 * a" pos] by (auto simp: dvd_def)

text \<open>
  What \<open>member\<close> guarantees of the offset and type it finds; the middle statement carries the
  position inside a structure, the last one is for unions.
\<close>

definition member_ok :: "ctype \<Rightarrow> nat \<times> ctype \<Rightarrow> bool" where
  "member_ok t r \<longleftrightarrow> (case r of (off, u) \<Rightarrow>
     off + sizeof u \<le> sizeof t \<and> alignof u dvd off \<and> alignof u dvd alignof t)"

definition smember_ok :: "cfield list \<Rightarrow> nat \<Rightarrow> nat \<times> ctype \<Rightarrow> bool" where
  "smember_ok fs pos r \<longleftrightarrow> (case r of (off, u) \<Rightarrow>
     pos \<le> 8 * off \<and> 8 * (off + sizeof u) \<le> fsend fs pos \<and> alignof u dvd off \<and>
     alignof u dvd fsalign fs)"

definition umember_ok :: "cfield list \<Rightarrow> nat \<times> ctype \<Rightarrow> bool" where
  "umember_ok fs r \<longleftrightarrow> (case r of (off, u) \<Rightarrow>
     8 * (off + sizeof u) \<le> fsmax fs \<and> alignof u dvd off \<and> alignof u dvd fsalign fs)"

lemma smember_ok_struct: "smember_ok fs 0 r \<Longrightarrow> member_ok (CStruct fs) r"
  using sizeof_CStruct_ge [of fs] by (auto simp: smember_ok_def member_ok_def)

lemma umember_ok_union: "umember_ok fs r \<Longrightarrow> member_ok (CUnion fs) r"
proof -
  assume "umember_ok fs r"
  moreover have "fsmax fs \<le> 8 * sizeof (CUnion fs)"
    using align_up_ge [of "8 * fsalign fs" "fsmax fs"] by (simp add: align_up_div8)
  ultimately show ?thesis by (auto simp: umember_ok_def member_ok_def)
qed

text \<open>Finding the field itself, one inside an anonymous member, and one further on.\<close>

lemma smember_ok_here: "smember_ok (Field m t # fs) pos (align_up pos (8 * alignof t) div 8, t)"
  using fsend_ge [of "align_up pos (8 * alignof t) + 8 * sizeof t" fs]
    align_up_ge [of "8 * alignof t" pos] fsalign_Cons_dvd(1) [of "Field m t" fs]
  by (simp add: smember_ok_def align_up_div8 dvd_align_up_div8 distrib_left)

lemma smember_ok_inside:
  assumes "member_ok t (off, u)"
  shows "smember_ok (Field m t # fs) pos (align_up pos (8 * alignof t) div 8 + off, u)"
proof -
  let ?s = "align_up pos (8 * alignof t)"
  from assms have u: "off + sizeof u \<le> sizeof t" "alignof u dvd off" "alignof u dvd alignof t"
    by (auto simp: member_ok_def)
  have "alignof u dvd ?s div 8" using u(3) dvd_align_up_div8 by (rule dvd_trans)
  moreover have "alignof u dvd fsalign (Field m t # fs)"
    using u(3) fsalign_Cons_dvd(1) [of "Field m t" fs] by (auto intro: dvd_trans)
  moreover have "8 * (?s div 8 + off + sizeof u) \<le> fsend fs (?s + 8 * sizeof t)"
    using u(1) fsend_ge [of "?s + 8 * sizeof t" fs] by (simp add: align_up_div8 distrib_left)
  ultimately show ?thesis
    using u(2) align_up_ge [of "8 * alignof t" pos]
    by (simp add: smember_ok_def align_up_div8 distrib_left)
qed

lemma smember_ok_later:
  assumes "smember_ok fs (fstart f pos + fwidth f) r"
  shows "smember_ok (f # fs) pos r"
  using assms fstart_ge [of pos f] fsalign_Cons_dvd(2) [of fs f]
  by (auto simp: smember_ok_def intro: dvd_trans)

lemma umember_ok_here: "umember_ok (Field m t # fs) (0, t)"
  using fsalign_Cons_dvd(1) [of "Field m t" fs] by (auto simp: umember_ok_def)

lemma umember_ok_inside: "member_ok t r \<Longrightarrow> umember_ok (Field m t # fs) r"
  using fsalign_Cons_dvd(1) [of "Field m t" fs]
  by (auto simp: umember_ok_def member_ok_def intro: dvd_trans)

lemma umember_ok_later: "umember_ok fs r \<Longrightarrow> umember_ok (f # fs) r"
  using fsalign_Cons_dvd(2) [of fs f] by (auto simp: umember_ok_def intro: dvd_trans)

lemma member_sound:
  "member t n = Some r \<Longrightarrow> member_ok t r"
  "smember fs pos k = Some r \<Longrightarrow> smember_ok fs pos r"
  "umember us l = Some r \<Longrightarrow> umember_ok us r"
proof (induction t n and fs pos k and us l arbitrary: r and r and r
    rule: member_smember_umember.induct)
  case (1 fs n)
  then show ?case by (auto intro: smember_ok_struct)
next
  case (2 fs n)
  then show ?case by (auto intro: umember_ok_union)
next
  case (5 m t fs pos n)
  then show ?case
    using smember_ok_later [of fs "Field m t" pos]
    by (auto simp: smember_ok_here intro: smember_ok_inside
        split: if_splits option.splits prod.splits)
next
  case (6 m t w fs pos n)
  then show ?case using smember_ok_later [of fs "Bits m t w" pos] by simp
next
  case (8 m t fs n)
  then show ?case
    by (auto simp: umember_ok_here intro: umember_ok_inside umember_ok_later
        split: if_splits option.splits)
next
  case (9 m t w fs n)
  then show ?case by (auto intro: umember_ok_later)
qed auto

lemma member_path_sound: "member_path t ns = Some r \<Longrightarrow> member_ok t r"
proof (induction t ns arbitrary: r rule: member_path.induct)
  case (1 t)
  then show ?case by (auto simp: member_ok_def)
next
  case (2 t n ns)
  then obtain off u o' v where
    m: "member t n = Some (off, u)" and p: "member_path u ns = Some (o', v)" and r: "r = (off + o', v)"
    by (auto split: option.splits)
  from m have "member_ok t (off, u)" by (rule member_sound(1))
  moreover from 2(1) m p have "member_ok u (o', v)" by auto
  ultimately show ?case by (auto simp: r member_ok_def intro: dvd_trans)
qed

end
