(* ===== verification/Vmlinux_Amd64.thy ===== *)
theory Vmlinux_Amd64
  imports CLayout
begin

text \<open>
  The types and enumerations of \<open>src/ebpf/includes/amd64/vmlinux.h\<close> the eBPF programs and their
  loader depend on, declaration by declaration: the task structure with every type it embeds, the
  register frame, the socket buffer context, the Ethernet, IP, TCP and UDP headers, the argument
  union of the bpf system call, the description of a map, the protocol numbers, map types, update
  flags, system call commands and helper
  numbers. A leading underscore of a C name is spelled \<open>us_\<close>; the suffix is the architecture.
  The file is included for amd64 builds. After each declaration its size and alignment are proved;
  the last section gives the offsets the programs use.
\<close>

section \<open>Types\<close>

definition us_u32_amd64 :: ctype where
  "us_u32_amd64 = CBase CUInt"

lemma us_u32_amd64_size [layout_simps]: "sizeof us_u32_amd64 = 4" "alignof us_u32_amd64 = 4"
  by (simp_all add: us_u32_amd64_def align_up_def layout_simps)

definition u32_amd64 :: ctype where
  "u32_amd64 = us_u32_amd64"

lemma u32_amd64_size [layout_simps]: "sizeof u32_amd64 = 4" "alignof u32_amd64 = 4"
  by (simp_all add: u32_amd64_def align_up_def layout_simps)

definition thread_info_amd64 :: ctype where
  "thread_info_amd64 = CStruct [
       Field ''flags'' (CBase CULong),
       Field ''syscall_work'' (CBase CULong),
       Field ''status'' u32_amd64,
       Field ''cpu'' u32_amd64]"

lemma thread_info_amd64_size [layout_simps]: "sizeof thread_info_amd64 = 24" "alignof thread_info_amd64 = 8"
  by (simp_all add: thread_info_amd64_def align_up_def layout_simps)

definition atomic_t_amd64 :: ctype where
  "atomic_t_amd64 = CStruct [
       Field ''counter'' (CBase CInt)]"

lemma atomic_t_amd64_size [layout_simps]: "sizeof atomic_t_amd64 = 4" "alignof atomic_t_amd64 = 4"
  by (simp_all add: atomic_t_amd64_def align_up_def layout_simps)

definition refcount_struct_amd64 :: ctype where
  "refcount_struct_amd64 = CStruct [
       Field ''refs'' atomic_t_amd64]"

lemma refcount_struct_amd64_size [layout_simps]: "sizeof refcount_struct_amd64 = 4" "alignof refcount_struct_amd64 = 4"
  by (simp_all add: refcount_struct_amd64_def align_up_def layout_simps)

definition refcount_t_amd64 :: ctype where
  "refcount_t_amd64 = refcount_struct_amd64"

lemma refcount_t_amd64_size [layout_simps]: "sizeof refcount_t_amd64 = 4" "alignof refcount_t_amd64 = 4"
  by (simp_all add: refcount_t_amd64_def align_up_def layout_simps)

definition llist_node_amd64 :: ctype where
  "llist_node_amd64 = CStruct [
       Field ''next'' (CPtr ''struct llist_node'')]"

lemma llist_node_amd64_size [layout_simps]: "sizeof llist_node_amd64 = 8" "alignof llist_node_amd64 = 8"
  by (simp_all add: llist_node_amd64_def align_up_def layout_simps)

definition us_u16_amd64 :: ctype where
  "us_u16_amd64 = CBase CUShort"

lemma us_u16_amd64_size [layout_simps]: "sizeof us_u16_amd64 = 2" "alignof us_u16_amd64 = 2"
  by (simp_all add: us_u16_amd64_def align_up_def layout_simps)

definition u16_amd64 :: ctype where
  "u16_amd64 = us_u16_amd64"

lemma u16_amd64_size [layout_simps]: "sizeof u16_amd64 = 2" "alignof u16_amd64 = 2"
  by (simp_all add: u16_amd64_def align_up_def layout_simps)

definition us_call_single_node_amd64 :: ctype where
  "us_call_single_node_amd64 = CStruct [
       Field ''llist'' llist_node_amd64,
       Field '''' (CUnion [
         Field ''u_flags'' (CBase CUInt),
         Field ''a_flags'' atomic_t_amd64]),
       Field ''src'' u16_amd64,
       Field ''dst'' u16_amd64]"

lemma us_call_single_node_amd64_size [layout_simps]: "sizeof us_call_single_node_amd64 = 16" "alignof us_call_single_node_amd64 = 8"
  by (simp_all add: us_call_single_node_amd64_def align_up_def layout_simps)

definition load_weight_amd64 :: ctype where
  "load_weight_amd64 = CStruct [
       Field ''weight'' (CBase CULong),
       Field ''inv_weight'' u32_amd64]"

lemma load_weight_amd64_size [layout_simps]: "sizeof load_weight_amd64 = 16" "alignof load_weight_amd64 = 8"
  by (simp_all add: load_weight_amd64_def align_up_def layout_simps)

definition rb_node_amd64 :: ctype where
  "rb_node_amd64 = CStruct [
       Field ''__rb_parent_color'' (CBase CULong),
       Field ''rb_right'' (CPtr ''struct rb_node''),
       Field ''rb_left'' (CPtr ''struct rb_node'')]"

lemma rb_node_amd64_size [layout_simps]: "sizeof rb_node_amd64 = 24" "alignof rb_node_amd64 = 8"
  by (simp_all add: rb_node_amd64_def align_up_def layout_simps)

definition list_head_amd64 :: ctype where
  "list_head_amd64 = CStruct [
       Field ''next'' (CPtr ''struct list_head''),
       Field ''prev'' (CPtr ''struct list_head'')]"

lemma list_head_amd64_size [layout_simps]: "sizeof list_head_amd64 = 16" "alignof list_head_amd64 = 8"
  by (simp_all add: list_head_amd64_def align_up_def layout_simps)

definition us_u64_amd64 :: ctype where
  "us_u64_amd64 = CBase CULongLong"

lemma us_u64_amd64_size [layout_simps]: "sizeof us_u64_amd64 = 8" "alignof us_u64_amd64 = 8"
  by (simp_all add: us_u64_amd64_def align_up_def layout_simps)

definition u64_amd64 :: ctype where
  "u64_amd64 = us_u64_amd64"

lemma u64_amd64_size [layout_simps]: "sizeof u64_amd64 = 8" "alignof u64_amd64 = 8"
  by (simp_all add: u64_amd64_def align_up_def layout_simps)

definition util_est_amd64 :: ctype where
  "util_est_amd64 = CStruct [
       Field ''enqueued'' (CBase CUInt),
       Field ''ewma'' (CBase CUInt)]"

lemma util_est_amd64_size [layout_simps]: "sizeof util_est_amd64 = 8" "alignof util_est_amd64 = 4"
  by (simp_all add: util_est_amd64_def align_up_def layout_simps)

definition sched_avg_amd64 :: ctype where
  "sched_avg_amd64 = CStruct [
       Field ''last_update_time'' u64_amd64,
       Field ''load_sum'' u64_amd64,
       Field ''runnable_sum'' u64_amd64,
       Field ''util_sum'' u32_amd64,
       Field ''period_contrib'' u32_amd64,
       Field ''load_avg'' (CBase CULong),
       Field ''runnable_avg'' (CBase CULong),
       Field ''util_avg'' (CBase CULong),
       Field ''util_est'' util_est_amd64]"

lemma sched_avg_amd64_size [layout_simps]: "sizeof sched_avg_amd64 = 64" "alignof sched_avg_amd64 = 8"
  by (simp_all add: sched_avg_amd64_def align_up_def layout_simps)

definition sched_entity_amd64 :: ctype where
  "sched_entity_amd64 = CStruct [
       Field ''load'' load_weight_amd64,
       Field ''run_node'' rb_node_amd64,
       Field ''group_node'' list_head_amd64,
       Field ''on_rq'' (CBase CUInt),
       Field ''exec_start'' u64_amd64,
       Field ''sum_exec_runtime'' u64_amd64,
       Field ''vruntime'' u64_amd64,
       Field ''prev_sum_exec_runtime'' u64_amd64,
       Field ''nr_migrations'' u64_amd64,
       Field ''depth'' (CBase CInt),
       Field ''parent'' (CPtr ''struct sched_entity''),
       Field ''cfs_rq'' (CPtr ''struct cfs_rq''),
       Field ''my_q'' (CPtr ''struct cfs_rq''),
       Field ''runnable_weight'' (CBase CULong),
       Bits '''' (CBase CLong) 64,
       Bits '''' (CBase CLong) 64,
       Bits '''' (CBase CLong) 64,
       Bits '''' (CBase CLong) 64,
       Bits '''' (CBase CLong) 64,
       Bits '''' (CBase CLong) 64,
       Field ''avg'' sched_avg_amd64]"

lemma sched_entity_amd64_size [layout_simps]: "sizeof sched_entity_amd64 = 256" "alignof sched_entity_amd64 = 8"
  by (simp_all add: sched_entity_amd64_def align_up_def layout_simps)

definition sched_rt_entity_amd64 :: ctype where
  "sched_rt_entity_amd64 = CStruct [
       Field ''run_list'' list_head_amd64,
       Field ''timeout'' (CBase CULong),
       Field ''watchdog_stamp'' (CBase CULong),
       Field ''time_slice'' (CBase CUInt),
       Field ''on_rq'' (CBase CUShort),
       Field ''on_list'' (CBase CUShort),
       Field ''back'' (CPtr ''struct sched_rt_entity'')]"

lemma sched_rt_entity_amd64_size [layout_simps]: "sizeof sched_rt_entity_amd64 = 48" "alignof sched_rt_entity_amd64 = 8"
  by (simp_all add: sched_rt_entity_amd64_def align_up_def layout_simps)

definition us_s64_amd64 :: ctype where
  "us_s64_amd64 = CBase CLongLong"

lemma us_s64_amd64_size [layout_simps]: "sizeof us_s64_amd64 = 8" "alignof us_s64_amd64 = 8"
  by (simp_all add: us_s64_amd64_def align_up_def layout_simps)

definition s64_amd64 :: ctype where
  "s64_amd64 = us_s64_amd64"

lemma s64_amd64_size [layout_simps]: "sizeof s64_amd64 = 8" "alignof s64_amd64 = 8"
  by (simp_all add: s64_amd64_def align_up_def layout_simps)

definition ktime_t_amd64 :: ctype where
  "ktime_t_amd64 = s64_amd64"

lemma ktime_t_amd64_size [layout_simps]: "sizeof ktime_t_amd64 = 8" "alignof ktime_t_amd64 = 8"
  by (simp_all add: ktime_t_amd64_def align_up_def layout_simps)

definition timerqueue_node_amd64 :: ctype where
  "timerqueue_node_amd64 = CStruct [
       Field ''node'' rb_node_amd64,
       Field ''expires'' ktime_t_amd64]"

lemma timerqueue_node_amd64_size [layout_simps]: "sizeof timerqueue_node_amd64 = 32" "alignof timerqueue_node_amd64 = 8"
  by (simp_all add: timerqueue_node_amd64_def align_up_def layout_simps)

definition us_u8_amd64 :: ctype where
  "us_u8_amd64 = CBase CUChar"

lemma us_u8_amd64_size [layout_simps]: "sizeof us_u8_amd64 = 1" "alignof us_u8_amd64 = 1"
  by (simp_all add: us_u8_amd64_def align_up_def layout_simps)

definition u8_amd64 :: ctype where
  "u8_amd64 = us_u8_amd64"

lemma u8_amd64_size [layout_simps]: "sizeof u8_amd64 = 1" "alignof u8_amd64 = 1"
  by (simp_all add: u8_amd64_def align_up_def layout_simps)

definition hrtimer_amd64 :: ctype where
  "hrtimer_amd64 = CStruct [
       Field ''node'' timerqueue_node_amd64,
       Field ''_softexpires'' ktime_t_amd64,
       Field ''function'' (CPtr ''enum hrtimer_restart (*)(struct hrtimer *)''),
       Field ''base'' (CPtr ''struct hrtimer_clock_base''),
       Field ''state'' u8_amd64,
       Field ''is_rel'' u8_amd64,
       Field ''is_soft'' u8_amd64,
       Field ''is_hard'' u8_amd64]"

lemma hrtimer_amd64_size [layout_simps]: "sizeof hrtimer_amd64 = 64" "alignof hrtimer_amd64 = 8"
  by (simp_all add: hrtimer_amd64_def align_up_def layout_simps)

definition sched_dl_entity_amd64 :: ctype where
  "sched_dl_entity_amd64 = CStruct [
       Field ''rb_node'' rb_node_amd64,
       Field ''dl_runtime'' u64_amd64,
       Field ''dl_deadline'' u64_amd64,
       Field ''dl_period'' u64_amd64,
       Field ''dl_bw'' u64_amd64,
       Field ''dl_density'' u64_amd64,
       Field ''runtime'' s64_amd64,
       Field ''deadline'' u64_amd64,
       Field ''flags'' (CBase CUInt),
       Bits ''dl_throttled'' (CBase CUInt) 1,
       Bits ''dl_yielded'' (CBase CUInt) 1,
       Bits ''dl_non_contending'' (CBase CUInt) 1,
       Bits ''dl_overrun'' (CBase CUInt) 1,
       Field ''dl_timer'' hrtimer_amd64,
       Field ''inactive_timer'' hrtimer_amd64,
       Field ''pi_se'' (CPtr ''struct sched_dl_entity'')]"

lemma sched_dl_entity_amd64_size [layout_simps]: "sizeof sched_dl_entity_amd64 = 224" "alignof sched_dl_entity_amd64 = 8"
  by (simp_all add: sched_dl_entity_amd64_def align_up_def layout_simps)

definition uclamp_se_amd64 :: ctype where
  "uclamp_se_amd64 = CStruct [
       Bits ''value'' (CBase CUInt) 11,
       Bits ''bucket_id'' (CBase CUInt) 3,
       Bits ''active'' (CBase CUInt) 1,
       Bits ''user_defined'' (CBase CUInt) 1]"

lemma uclamp_se_amd64_size [layout_simps]: "sizeof uclamp_se_amd64 = 4" "alignof uclamp_se_amd64 = 4"
  by (simp_all add: uclamp_se_amd64_def align_up_def layout_simps)

definition sched_statistics_amd64 :: ctype where
  "sched_statistics_amd64 = CStruct [
       Field ''wait_start'' u64_amd64,
       Field ''wait_max'' u64_amd64,
       Field ''wait_count'' u64_amd64,
       Field ''wait_sum'' u64_amd64,
       Field ''iowait_count'' u64_amd64,
       Field ''iowait_sum'' u64_amd64,
       Field ''sleep_start'' u64_amd64,
       Field ''sleep_max'' u64_amd64,
       Field ''sum_sleep_runtime'' s64_amd64,
       Field ''block_start'' u64_amd64,
       Field ''block_max'' u64_amd64,
       Field ''sum_block_runtime'' s64_amd64,
       Field ''exec_max'' u64_amd64,
       Field ''slice_max'' u64_amd64,
       Field ''nr_migrations_cold'' u64_amd64,
       Field ''nr_failed_migrations_affine'' u64_amd64,
       Field ''nr_failed_migrations_running'' u64_amd64,
       Field ''nr_failed_migrations_hot'' u64_amd64,
       Field ''nr_forced_migrations'' u64_amd64,
       Field ''nr_wakeups'' u64_amd64,
       Field ''nr_wakeups_sync'' u64_amd64,
       Field ''nr_wakeups_migrate'' u64_amd64,
       Field ''nr_wakeups_local'' u64_amd64,
       Field ''nr_wakeups_remote'' u64_amd64,
       Field ''nr_wakeups_affine'' u64_amd64,
       Field ''nr_wakeups_affine_attempts'' u64_amd64,
       Field ''nr_wakeups_passive'' u64_amd64,
       Field ''nr_wakeups_idle'' u64_amd64,
       Field ''core_forceidle_sum'' u64_amd64,
       Bits '''' (CBase CLong) 64,
       Bits '''' (CBase CLong) 64,
       Bits '''' (CBase CLong) 64]"

lemma sched_statistics_amd64_size [layout_simps]: "sizeof sched_statistics_amd64 = 256" "alignof sched_statistics_amd64 = 8"
  by (simp_all add: sched_statistics_amd64_def align_up_def layout_simps)

definition hlist_head_amd64 :: ctype where
  "hlist_head_amd64 = CStruct [
       Field ''first'' (CPtr ''struct hlist_node'')]"

lemma hlist_head_amd64_size [layout_simps]: "sizeof hlist_head_amd64 = 8" "alignof hlist_head_amd64 = 8"
  by (simp_all add: hlist_head_amd64_def align_up_def layout_simps)

definition cpumask_amd64 :: ctype where
  "cpumask_amd64 = CStruct [
       Field ''bits'' (CArr (CBase CULong) 128)]"

lemma cpumask_amd64_size [layout_simps]: "sizeof cpumask_amd64 = 1024" "alignof cpumask_amd64 = 8"
  by (simp_all add: cpumask_amd64_def align_up_def layout_simps)

definition cpumask_t_amd64 :: ctype where
  "cpumask_t_amd64 = cpumask_amd64"

lemma cpumask_t_amd64_size [layout_simps]: "sizeof cpumask_t_amd64 = 1024" "alignof cpumask_t_amd64 = 8"
  by (simp_all add: cpumask_t_amd64_def align_up_def layout_simps)

definition rcu_special_amd64 :: ctype where
  "rcu_special_amd64 = CUnion [
       Field ''b'' (CStruct [
         Field ''blocked'' u8_amd64,
         Field ''need_qs'' u8_amd64,
         Field ''exp_hint'' u8_amd64,
         Field ''need_mb'' u8_amd64]),
       Field ''s'' u32_amd64]"

lemma rcu_special_amd64_size [layout_simps]: "sizeof rcu_special_amd64 = 4" "alignof rcu_special_amd64 = 4"
  by (simp_all add: rcu_special_amd64_def align_up_def layout_simps)

definition bool_amd64 :: ctype where
  "bool_amd64 = CBase CBool"

lemma bool_amd64_size [layout_simps]: "sizeof bool_amd64 = 1" "alignof bool_amd64 = 1"
  by (simp_all add: bool_amd64_def align_up_def layout_simps)

definition sched_info_amd64 :: ctype where
  "sched_info_amd64 = CStruct [
       Field ''pcount'' (CBase CULong),
       Field ''run_delay'' (CBase CULongLong),
       Field ''last_arrival'' (CBase CULongLong),
       Field ''last_queued'' (CBase CULongLong)]"

lemma sched_info_amd64_size [layout_simps]: "sizeof sched_info_amd64 = 32" "alignof sched_info_amd64 = 8"
  by (simp_all add: sched_info_amd64_def align_up_def layout_simps)

definition plist_node_amd64 :: ctype where
  "plist_node_amd64 = CStruct [
       Field ''prio'' (CBase CInt),
       Field ''prio_list'' list_head_amd64,
       Field ''node_list'' list_head_amd64]"

lemma plist_node_amd64_size [layout_simps]: "sizeof plist_node_amd64 = 40" "alignof plist_node_amd64 = 8"
  by (simp_all add: plist_node_amd64_def align_up_def layout_simps)

definition vmacache_amd64 :: ctype where
  "vmacache_amd64 = CStruct [
       Field ''seqnum'' u64_amd64,
       Field ''vmas'' (CArr (CPtr ''struct vm_area_struct'') 4)]"

lemma vmacache_amd64_size [layout_simps]: "sizeof vmacache_amd64 = 40" "alignof vmacache_amd64 = 8"
  by (simp_all add: vmacache_amd64_def align_up_def layout_simps)

definition task_rss_stat_amd64 :: ctype where
  "task_rss_stat_amd64 = CStruct [
       Field ''events'' (CBase CInt),
       Field ''count'' (CArr (CBase CInt) 4)]"

lemma task_rss_stat_amd64_size [layout_simps]: "sizeof task_rss_stat_amd64 = 20" "alignof task_rss_stat_amd64 = 4"
  by (simp_all add: task_rss_stat_amd64_def align_up_def layout_simps)

definition us_kernel_clockid_t_amd64 :: ctype where
  "us_kernel_clockid_t_amd64 = CBase CInt"

lemma us_kernel_clockid_t_amd64_size [layout_simps]: "sizeof us_kernel_clockid_t_amd64 = 4" "alignof us_kernel_clockid_t_amd64 = 4"
  by (simp_all add: us_kernel_clockid_t_amd64_def align_up_def layout_simps)

definition clockid_t_amd64 :: ctype where
  "clockid_t_amd64 = us_kernel_clockid_t_amd64"

lemma clockid_t_amd64_size [layout_simps]: "sizeof clockid_t_amd64 = 4" "alignof clockid_t_amd64 = 4"
  by (simp_all add: clockid_t_amd64_def align_up_def layout_simps)

definition restart_block_amd64 :: ctype where
  "restart_block_amd64 = CStruct [
       Field ''arch_data'' (CBase CULong),
       Field ''fn'' (CPtr ''long int (*)(struct restart_block *)''),
       Field '''' (CUnion [
         Field ''futex'' (CStruct [
           Field ''uaddr'' (CPtr ''u32''),
           Field ''val'' u32_amd64,
           Field ''flags'' u32_amd64,
           Field ''bitset'' u32_amd64,
           Field ''time'' u64_amd64,
           Field ''uaddr2'' (CPtr ''u32'')]),
         Field ''nanosleep'' (CStruct [
           Field ''clockid'' clockid_t_amd64,
           Field ''type'' (CEnum ''timespec_type''),
           Field '''' (CUnion [
             Field ''rmtp'' (CPtr ''struct __kernel_timespec''),
             Field ''compat_rmtp'' (CPtr ''struct old_timespec32'')]),
           Field ''expires'' u64_amd64]),
         Field ''poll'' (CStruct [
           Field ''ufds'' (CPtr ''struct pollfd''),
           Field ''nfds'' (CBase CInt),
           Field ''has_timeout'' (CBase CInt),
           Field ''tv_sec'' (CBase CULong),
           Field ''tv_nsec'' (CBase CULong)])])]"

lemma restart_block_amd64_size [layout_simps]: "sizeof restart_block_amd64 = 56" "alignof restart_block_amd64 = 8"
  by (simp_all add: restart_block_amd64_def align_up_def layout_simps)

definition us_kernel_pid_t_amd64 :: ctype where
  "us_kernel_pid_t_amd64 = CBase CInt"

lemma us_kernel_pid_t_amd64_size [layout_simps]: "sizeof us_kernel_pid_t_amd64 = 4" "alignof us_kernel_pid_t_amd64 = 4"
  by (simp_all add: us_kernel_pid_t_amd64_def align_up_def layout_simps)

definition pid_t_amd64 :: ctype where
  "pid_t_amd64 = us_kernel_pid_t_amd64"

lemma pid_t_amd64_size [layout_simps]: "sizeof pid_t_amd64 = 4" "alignof pid_t_amd64 = 4"
  by (simp_all add: pid_t_amd64_def align_up_def layout_simps)

definition hlist_node_amd64 :: ctype where
  "hlist_node_amd64 = CStruct [
       Field ''next'' (CPtr ''struct hlist_node''),
       Field ''pprev'' (CPtr ''struct hlist_node *'')]"

lemma hlist_node_amd64_size [layout_simps]: "sizeof hlist_node_amd64 = 16" "alignof hlist_node_amd64 = 8"
  by (simp_all add: hlist_node_amd64_def align_up_def layout_simps)

definition qspinlock_amd64 :: ctype where
  "qspinlock_amd64 = CStruct [
       Field '''' (CUnion [
         Field ''val'' atomic_t_amd64,
         Field '''' (CStruct [
           Field ''locked'' u8_amd64,
           Field ''pending'' u8_amd64]),
         Field '''' (CStruct [
           Field ''locked_pending'' u16_amd64,
           Field ''tail'' u16_amd64])])]"

lemma qspinlock_amd64_size [layout_simps]: "sizeof qspinlock_amd64 = 4" "alignof qspinlock_amd64 = 4"
  by (simp_all add: qspinlock_amd64_def align_up_def layout_simps)

definition arch_spinlock_t_amd64 :: ctype where
  "arch_spinlock_t_amd64 = qspinlock_amd64"

lemma arch_spinlock_t_amd64_size [layout_simps]: "sizeof arch_spinlock_t_amd64 = 4" "alignof arch_spinlock_t_amd64 = 4"
  by (simp_all add: arch_spinlock_t_amd64_def align_up_def layout_simps)

definition raw_spinlock_amd64 :: ctype where
  "raw_spinlock_amd64 = CStruct [
       Field ''raw_lock'' arch_spinlock_t_amd64]"

lemma raw_spinlock_amd64_size [layout_simps]: "sizeof raw_spinlock_amd64 = 4" "alignof raw_spinlock_amd64 = 4"
  by (simp_all add: raw_spinlock_amd64_def align_up_def layout_simps)

definition raw_spinlock_t_amd64 :: ctype where
  "raw_spinlock_t_amd64 = raw_spinlock_amd64"

lemma raw_spinlock_t_amd64_size [layout_simps]: "sizeof raw_spinlock_t_amd64 = 4" "alignof raw_spinlock_t_amd64 = 4"
  by (simp_all add: raw_spinlock_t_amd64_def align_up_def layout_simps)

definition prev_cputime_amd64 :: ctype where
  "prev_cputime_amd64 = CStruct [
       Field ''utime'' u64_amd64,
       Field ''stime'' u64_amd64,
       Field ''lock'' raw_spinlock_t_amd64]"

lemma prev_cputime_amd64_size [layout_simps]: "sizeof prev_cputime_amd64 = 24" "alignof prev_cputime_amd64 = 8"
  by (simp_all add: prev_cputime_amd64_def align_up_def layout_simps)

definition rb_root_amd64 :: ctype where
  "rb_root_amd64 = CStruct [
       Field ''rb_node'' (CPtr ''struct rb_node'')]"

lemma rb_root_amd64_size [layout_simps]: "sizeof rb_root_amd64 = 8" "alignof rb_root_amd64 = 8"
  by (simp_all add: rb_root_amd64_def align_up_def layout_simps)

definition rb_root_cached_amd64 :: ctype where
  "rb_root_cached_amd64 = CStruct [
       Field ''rb_root'' rb_root_amd64,
       Field ''rb_leftmost'' (CPtr ''struct rb_node'')]"

lemma rb_root_cached_amd64_size [layout_simps]: "sizeof rb_root_cached_amd64 = 16" "alignof rb_root_cached_amd64 = 8"
  by (simp_all add: rb_root_cached_amd64_def align_up_def layout_simps)

definition timerqueue_head_amd64 :: ctype where
  "timerqueue_head_amd64 = CStruct [
       Field ''rb_root'' rb_root_cached_amd64]"

lemma timerqueue_head_amd64_size [layout_simps]: "sizeof timerqueue_head_amd64 = 16" "alignof timerqueue_head_amd64 = 8"
  by (simp_all add: timerqueue_head_amd64_def align_up_def layout_simps)

definition posix_cputimer_base_amd64 :: ctype where
  "posix_cputimer_base_amd64 = CStruct [
       Field ''nextevt'' u64_amd64,
       Field ''tqhead'' timerqueue_head_amd64]"

lemma posix_cputimer_base_amd64_size [layout_simps]: "sizeof posix_cputimer_base_amd64 = 24" "alignof posix_cputimer_base_amd64 = 8"
  by (simp_all add: posix_cputimer_base_amd64_def align_up_def layout_simps)

definition posix_cputimers_amd64 :: ctype where
  "posix_cputimers_amd64 = CStruct [
       Field ''bases'' (CArr (posix_cputimer_base_amd64) 3),
       Field ''timers_active'' (CBase CUInt),
       Field ''expiry_active'' (CBase CUInt)]"

lemma posix_cputimers_amd64_size [layout_simps]: "sizeof posix_cputimers_amd64 = 80" "alignof posix_cputimers_amd64 = 8"
  by (simp_all add: posix_cputimers_amd64_def align_up_def layout_simps)

definition callback_head_amd64 :: ctype where
  "callback_head_amd64 = CStruct [
       Field ''next'' (CPtr ''struct callback_head''),
       Field ''func'' (CPtr ''void (*)(struct callback_head *)'')]"

lemma callback_head_amd64_size [layout_simps]: "sizeof callback_head_amd64 = 16" "alignof callback_head_amd64 = 8"
  by (simp_all add: callback_head_amd64_def align_up_def layout_simps)

definition posix_cputimers_work_amd64 :: ctype where
  "posix_cputimers_work_amd64 = CStruct [
       Field ''work'' callback_head_amd64,
       Field ''scheduled'' (CBase CUInt)]"

lemma posix_cputimers_work_amd64_size [layout_simps]: "sizeof posix_cputimers_work_amd64 = 24" "alignof posix_cputimers_work_amd64 = 8"
  by (simp_all add: posix_cputimers_work_amd64_def align_up_def layout_simps)

definition sysv_sem_amd64 :: ctype where
  "sysv_sem_amd64 = CStruct [
       Field ''undo_list'' (CPtr ''struct sem_undo_list'')]"

lemma sysv_sem_amd64_size [layout_simps]: "sizeof sysv_sem_amd64 = 8" "alignof sysv_sem_amd64 = 8"
  by (simp_all add: sysv_sem_amd64_def align_up_def layout_simps)

definition sysv_shm_amd64 :: ctype where
  "sysv_shm_amd64 = CStruct [
       Field ''shm_clist'' list_head_amd64]"

lemma sysv_shm_amd64_size [layout_simps]: "sizeof sysv_shm_amd64 = 16" "alignof sysv_shm_amd64 = 8"
  by (simp_all add: sysv_shm_amd64_def align_up_def layout_simps)

definition sigset_t_amd64 :: ctype where
  "sigset_t_amd64 = CStruct [
       Field ''sig'' (CArr (CBase CULong) 1)]"

lemma sigset_t_amd64_size [layout_simps]: "sizeof sigset_t_amd64 = 8" "alignof sigset_t_amd64 = 8"
  by (simp_all add: sigset_t_amd64_def align_up_def layout_simps)

definition sigpending_amd64 :: ctype where
  "sigpending_amd64 = CStruct [
       Field ''list'' list_head_amd64,
       Field ''signal'' sigset_t_amd64]"

lemma sigpending_amd64_size [layout_simps]: "sizeof sigpending_amd64 = 24" "alignof sigpending_amd64 = 8"
  by (simp_all add: sigpending_amd64_def align_up_def layout_simps)

definition us_kernel_ulong_t_amd64 :: ctype where
  "us_kernel_ulong_t_amd64 = CBase CULong"

lemma us_kernel_ulong_t_amd64_size [layout_simps]: "sizeof us_kernel_ulong_t_amd64 = 8" "alignof us_kernel_ulong_t_amd64 = 8"
  by (simp_all add: us_kernel_ulong_t_amd64_def align_up_def layout_simps)

definition us_kernel_size_t_amd64 :: ctype where
  "us_kernel_size_t_amd64 = us_kernel_ulong_t_amd64"

lemma us_kernel_size_t_amd64_size [layout_simps]: "sizeof us_kernel_size_t_amd64 = 8" "alignof us_kernel_size_t_amd64 = 8"
  by (simp_all add: us_kernel_size_t_amd64_def align_up_def layout_simps)

definition size_t_amd64 :: ctype where
  "size_t_amd64 = us_kernel_size_t_amd64"

lemma size_t_amd64_size [layout_simps]: "sizeof size_t_amd64 = 8" "alignof size_t_amd64 = 8"
  by (simp_all add: size_t_amd64_def align_up_def layout_simps)

definition us_kernel_uid32_t_amd64 :: ctype where
  "us_kernel_uid32_t_amd64 = CBase CUInt"

lemma us_kernel_uid32_t_amd64_size [layout_simps]: "sizeof us_kernel_uid32_t_amd64 = 4" "alignof us_kernel_uid32_t_amd64 = 4"
  by (simp_all add: us_kernel_uid32_t_amd64_def align_up_def layout_simps)

definition uid_t_amd64 :: ctype where
  "uid_t_amd64 = us_kernel_uid32_t_amd64"

lemma uid_t_amd64_size [layout_simps]: "sizeof uid_t_amd64 = 4" "alignof uid_t_amd64 = 4"
  by (simp_all add: uid_t_amd64_def align_up_def layout_simps)

definition kuid_t_amd64 :: ctype where
  "kuid_t_amd64 = CStruct [
       Field ''val'' uid_t_amd64]"

lemma kuid_t_amd64_size [layout_simps]: "sizeof kuid_t_amd64 = 4" "alignof kuid_t_amd64 = 4"
  by (simp_all add: kuid_t_amd64_def align_up_def layout_simps)

definition seccomp_amd64 :: ctype where
  "seccomp_amd64 = CStruct [
       Field ''mode'' (CBase CInt),
       Field ''filter_count'' atomic_t_amd64,
       Field ''filter'' (CPtr ''struct seccomp_filter'')]"

lemma seccomp_amd64_size [layout_simps]: "sizeof seccomp_amd64 = 16" "alignof seccomp_amd64 = 8"
  by (simp_all add: seccomp_amd64_def align_up_def layout_simps)

definition syscall_user_dispatch_amd64 :: ctype where
  "syscall_user_dispatch_amd64 = CStruct [
       Field ''selector'' (CPtr ''char''),
       Field ''offset'' (CBase CULong),
       Field ''len'' (CBase CULong),
       Field ''on_dispatch'' bool_amd64]"

lemma syscall_user_dispatch_amd64_size [layout_simps]: "sizeof syscall_user_dispatch_amd64 = 32" "alignof syscall_user_dispatch_amd64 = 8"
  by (simp_all add: syscall_user_dispatch_amd64_def align_up_def layout_simps)

definition spinlock_amd64 :: ctype where
  "spinlock_amd64 = CStruct [
       Field '''' (CUnion [
         Field ''rlock'' raw_spinlock_amd64])]"

lemma spinlock_amd64_size [layout_simps]: "sizeof spinlock_amd64 = 4" "alignof spinlock_amd64 = 4"
  by (simp_all add: spinlock_amd64_def align_up_def layout_simps)

definition spinlock_t_amd64 :: ctype where
  "spinlock_t_amd64 = spinlock_amd64"

lemma spinlock_t_amd64_size [layout_simps]: "sizeof spinlock_t_amd64 = 4" "alignof spinlock_t_amd64 = 4"
  by (simp_all add: spinlock_t_amd64_def align_up_def layout_simps)

definition wake_q_node_amd64 :: ctype where
  "wake_q_node_amd64 = CStruct [
       Field ''next'' (CPtr ''struct wake_q_node'')]"

lemma wake_q_node_amd64_size [layout_simps]: "sizeof wake_q_node_amd64 = 8" "alignof wake_q_node_amd64 = 8"
  by (simp_all add: wake_q_node_amd64_def align_up_def layout_simps)

definition task_io_accounting_amd64 :: ctype where
  "task_io_accounting_amd64 = CStruct [
       Field ''rchar'' u64_amd64,
       Field ''wchar'' u64_amd64,
       Field ''syscr'' u64_amd64,
       Field ''syscw'' u64_amd64,
       Field ''read_bytes'' u64_amd64,
       Field ''write_bytes'' u64_amd64,
       Field ''cancelled_write_bytes'' u64_amd64]"

lemma task_io_accounting_amd64_size [layout_simps]: "sizeof task_io_accounting_amd64 = 56" "alignof task_io_accounting_amd64 = 8"
  by (simp_all add: task_io_accounting_amd64_def align_up_def layout_simps)

definition nodemask_t_amd64 :: ctype where
  "nodemask_t_amd64 = CStruct [
       Field ''bits'' (CArr (CBase CULong) 16)]"

lemma nodemask_t_amd64_size [layout_simps]: "sizeof nodemask_t_amd64 = 128" "alignof nodemask_t_amd64 = 8"
  by (simp_all add: nodemask_t_amd64_def align_up_def layout_simps)

definition seqcount_amd64 :: ctype where
  "seqcount_amd64 = CStruct [
       Field ''sequence'' (CBase CUInt)]"

lemma seqcount_amd64_size [layout_simps]: "sizeof seqcount_amd64 = 4" "alignof seqcount_amd64 = 4"
  by (simp_all add: seqcount_amd64_def align_up_def layout_simps)

definition seqcount_t_amd64 :: ctype where
  "seqcount_t_amd64 = seqcount_amd64"

lemma seqcount_t_amd64_size [layout_simps]: "sizeof seqcount_t_amd64 = 4" "alignof seqcount_t_amd64 = 4"
  by (simp_all add: seqcount_t_amd64_def align_up_def layout_simps)

definition seqcount_spinlock_amd64 :: ctype where
  "seqcount_spinlock_amd64 = CStruct [
       Field ''seqcount'' seqcount_t_amd64]"

lemma seqcount_spinlock_amd64_size [layout_simps]: "sizeof seqcount_spinlock_amd64 = 4" "alignof seqcount_spinlock_amd64 = 4"
  by (simp_all add: seqcount_spinlock_amd64_def align_up_def layout_simps)

definition seqcount_spinlock_t_amd64 :: ctype where
  "seqcount_spinlock_t_amd64 = seqcount_spinlock_amd64"

lemma seqcount_spinlock_t_amd64_size [layout_simps]: "sizeof seqcount_spinlock_t_amd64 = 4" "alignof seqcount_spinlock_t_amd64 = 4"
  by (simp_all add: seqcount_spinlock_t_amd64_def align_up_def layout_simps)

definition atomic64_t_amd64 :: ctype where
  "atomic64_t_amd64 = CStruct [
       Field ''counter'' s64_amd64]"

lemma atomic64_t_amd64_size [layout_simps]: "sizeof atomic64_t_amd64 = 8" "alignof atomic64_t_amd64 = 8"
  by (simp_all add: atomic64_t_amd64_def align_up_def layout_simps)

definition atomic_long_t_amd64 :: ctype where
  "atomic_long_t_amd64 = atomic64_t_amd64"

lemma atomic_long_t_amd64_size [layout_simps]: "sizeof atomic_long_t_amd64 = 8" "alignof atomic_long_t_amd64 = 8"
  by (simp_all add: atomic_long_t_amd64_def align_up_def layout_simps)

definition optimistic_spin_queue_amd64 :: ctype where
  "optimistic_spin_queue_amd64 = CStruct [
       Field ''tail'' atomic_t_amd64]"

lemma optimistic_spin_queue_amd64_size [layout_simps]: "sizeof optimistic_spin_queue_amd64 = 4" "alignof optimistic_spin_queue_amd64 = 4"
  by (simp_all add: optimistic_spin_queue_amd64_def align_up_def layout_simps)

definition mutex_amd64 :: ctype where
  "mutex_amd64 = CStruct [
       Field ''owner'' atomic_long_t_amd64,
       Field ''wait_lock'' raw_spinlock_t_amd64,
       Field ''osq'' optimistic_spin_queue_amd64,
       Field ''wait_list'' list_head_amd64]"

lemma mutex_amd64_size [layout_simps]: "sizeof mutex_amd64 = 32" "alignof mutex_amd64 = 8"
  by (simp_all add: mutex_amd64_def align_up_def layout_simps)

definition arch_tlbflush_unmap_batch_amd64 :: ctype where
  "arch_tlbflush_unmap_batch_amd64 = CStruct [
       Field ''cpumask'' cpumask_amd64]"

lemma arch_tlbflush_unmap_batch_amd64_size [layout_simps]: "sizeof arch_tlbflush_unmap_batch_amd64 = 1024" "alignof arch_tlbflush_unmap_batch_amd64 = 8"
  by (simp_all add: arch_tlbflush_unmap_batch_amd64_def align_up_def layout_simps)

definition tlbflush_unmap_batch_amd64 :: ctype where
  "tlbflush_unmap_batch_amd64 = CStruct [
       Field ''arch'' arch_tlbflush_unmap_batch_amd64,
       Field ''flush_required'' bool_amd64,
       Field ''writable'' bool_amd64]"

lemma tlbflush_unmap_batch_amd64_size [layout_simps]: "sizeof tlbflush_unmap_batch_amd64 = 1032" "alignof tlbflush_unmap_batch_amd64 = 8"
  by (simp_all add: tlbflush_unmap_batch_amd64_def align_up_def layout_simps)

definition page_frag_amd64 :: ctype where
  "page_frag_amd64 = CStruct [
       Field ''page'' (CPtr ''struct page''),
       Field ''offset'' us_u32_amd64,
       Field ''size'' us_u32_amd64]"

lemma page_frag_amd64_size [layout_simps]: "sizeof page_frag_amd64 = 16" "alignof page_frag_amd64 = 8"
  by (simp_all add: page_frag_amd64_def align_up_def layout_simps)

definition gfp_t_amd64 :: ctype where
  "gfp_t_amd64 = CBase CUInt"

lemma gfp_t_amd64_size [layout_simps]: "sizeof gfp_t_amd64 = 4" "alignof gfp_t_amd64 = 4"
  by (simp_all add: gfp_t_amd64_def align_up_def layout_simps)

definition kmap_ctrl_amd64 :: ctype where
  "kmap_ctrl_amd64 = CStruct []"

lemma kmap_ctrl_amd64_size [layout_simps]: "sizeof kmap_ctrl_amd64 = 0" "alignof kmap_ctrl_amd64 = 1"
  by (simp_all add: kmap_ctrl_amd64_def align_up_def layout_simps)

definition timer_list_amd64 :: ctype where
  "timer_list_amd64 = CStruct [
       Field ''entry'' hlist_node_amd64,
       Field ''expires'' (CBase CULong),
       Field ''function'' (CPtr ''void (*)(struct timer_list *)''),
       Field ''flags'' u32_amd64]"

lemma timer_list_amd64_size [layout_simps]: "sizeof timer_list_amd64 = 40" "alignof timer_list_amd64 = 8"
  by (simp_all add: timer_list_amd64_def align_up_def layout_simps)

definition llist_head_amd64 :: ctype where
  "llist_head_amd64 = CStruct [
       Field ''first'' (CPtr ''struct llist_node'')]"

lemma llist_head_amd64_size [layout_simps]: "sizeof llist_head_amd64 = 8" "alignof llist_head_amd64 = 8"
  by (simp_all add: llist_head_amd64_def align_up_def layout_simps)

definition desc_struct_amd64 :: ctype where
  "desc_struct_amd64 = CStruct [
       Field ''limit0'' u16_amd64,
       Field ''base0'' u16_amd64,
       Bits ''base1'' u16_amd64 8,
       Bits ''type'' u16_amd64 4,
       Bits ''s'' u16_amd64 1,
       Bits ''dpl'' u16_amd64 2,
       Bits ''p'' u16_amd64 1,
       Bits ''limit1'' u16_amd64 4,
       Bits ''avl'' u16_amd64 1,
       Bits ''l'' u16_amd64 1,
       Bits ''d'' u16_amd64 1,
       Bits ''g'' u16_amd64 1,
       Bits ''base2'' u16_amd64 8]"

lemma desc_struct_amd64_size [layout_simps]: "sizeof desc_struct_amd64 = 8" "alignof desc_struct_amd64 = 2"
  by (simp_all add: desc_struct_amd64_def align_up_def layout_simps)

definition fpu_state_perm_amd64 :: ctype where
  "fpu_state_perm_amd64 = CStruct [
       Field ''__state_perm'' u64_amd64,
       Field ''__state_size'' (CBase CUInt),
       Field ''__user_state_size'' (CBase CUInt)]"

lemma fpu_state_perm_amd64_size [layout_simps]: "sizeof fpu_state_perm_amd64 = 16" "alignof fpu_state_perm_amd64 = 8"
  by (simp_all add: fpu_state_perm_amd64_def align_up_def layout_simps)

definition fregs_state_amd64 :: ctype where
  "fregs_state_amd64 = CStruct [
       Field ''cwd'' u32_amd64,
       Field ''swd'' u32_amd64,
       Field ''twd'' u32_amd64,
       Field ''fip'' u32_amd64,
       Field ''fcs'' u32_amd64,
       Field ''foo'' u32_amd64,
       Field ''fos'' u32_amd64,
       Field ''st_space'' (CArr (u32_amd64) 20),
       Field ''status'' u32_amd64]"

lemma fregs_state_amd64_size [layout_simps]: "sizeof fregs_state_amd64 = 112" "alignof fregs_state_amd64 = 4"
  by (simp_all add: fregs_state_amd64_def align_up_def layout_simps)

definition fxregs_state_amd64 :: ctype where
  "fxregs_state_amd64 = CStruct [
       Field ''cwd'' u16_amd64,
       Field ''swd'' u16_amd64,
       Field ''twd'' u16_amd64,
       Field ''fop'' u16_amd64,
       Field '''' (CUnion [
         Field '''' (CStruct [
           Field ''rip'' u64_amd64,
           Field ''rdp'' u64_amd64]),
         Field '''' (CStruct [
           Field ''fip'' u32_amd64,
           Field ''fcs'' u32_amd64,
           Field ''foo'' u32_amd64,
           Field ''fos'' u32_amd64])]),
       Field ''mxcsr'' u32_amd64,
       Field ''mxcsr_mask'' u32_amd64,
       Field ''st_space'' (CArr (u32_amd64) 32),
       Field ''xmm_space'' (CArr (u32_amd64) 64),
       Field ''padding'' (CArr (u32_amd64) 12),
       Field '''' (CUnion [
         Field ''padding1'' (CArr (u32_amd64) 12),
         Field ''sw_reserved'' (CArr (u32_amd64) 12)])]"

lemma fxregs_state_amd64_size [layout_simps]: "sizeof fxregs_state_amd64 = 512" "alignof fxregs_state_amd64 = 8"
  by (simp_all add: fxregs_state_amd64_def align_up_def layout_simps)

definition swregs_state_amd64 :: ctype where
  "swregs_state_amd64 = CStruct [
       Field ''cwd'' u32_amd64,
       Field ''swd'' u32_amd64,
       Field ''twd'' u32_amd64,
       Field ''fip'' u32_amd64,
       Field ''fcs'' u32_amd64,
       Field ''foo'' u32_amd64,
       Field ''fos'' u32_amd64,
       Field ''st_space'' (CArr (u32_amd64) 20),
       Field ''ftop'' u8_amd64,
       Field ''changed'' u8_amd64,
       Field ''lookahead'' u8_amd64,
       Field ''no_update'' u8_amd64,
       Field ''rm'' u8_amd64,
       Field ''alimit'' u8_amd64,
       Field ''info'' (CPtr ''struct math_emu_info''),
       Field ''entry_eip'' u32_amd64]"

lemma swregs_state_amd64_size [layout_simps]: "sizeof swregs_state_amd64 = 136" "alignof swregs_state_amd64 = 8"
  by (simp_all add: swregs_state_amd64_def align_up_def layout_simps)

definition xstate_header_amd64 :: ctype where
  "xstate_header_amd64 = CStruct [
       Field ''xfeatures'' u64_amd64,
       Field ''xcomp_bv'' u64_amd64,
       Field ''reserved'' (CArr (u64_amd64) 6)]"

lemma xstate_header_amd64_size [layout_simps]: "sizeof xstate_header_amd64 = 64" "alignof xstate_header_amd64 = 8"
  by (simp_all add: xstate_header_amd64_def align_up_def layout_simps)

definition xregs_state_amd64 :: ctype where
  "xregs_state_amd64 = CStruct [
       Field ''i387'' fxregs_state_amd64,
       Field ''header'' xstate_header_amd64,
       Field ''extended_state_area'' (CArr (u8_amd64) 0)]"

lemma xregs_state_amd64_size [layout_simps]: "sizeof xregs_state_amd64 = 576" "alignof xregs_state_amd64 = 8"
  by (simp_all add: xregs_state_amd64_def align_up_def layout_simps)

definition fpregs_state_amd64 :: ctype where
  "fpregs_state_amd64 = CUnion [
       Field ''fsave'' fregs_state_amd64,
       Field ''fxsave'' fxregs_state_amd64,
       Field ''soft'' swregs_state_amd64,
       Field ''xsave'' xregs_state_amd64,
       Field ''__padding'' (CArr (u8_amd64) 4096)]"

lemma fpregs_state_amd64_size [layout_simps]: "sizeof fpregs_state_amd64 = 4096" "alignof fpregs_state_amd64 = 8"
  by (simp_all add: fpregs_state_amd64_def align_up_def layout_simps)

definition fpstate_amd64 :: ctype where
  "fpstate_amd64 = CStruct [
       Field ''size'' (CBase CUInt),
       Field ''user_size'' (CBase CUInt),
       Field ''xfeatures'' u64_amd64,
       Field ''user_xfeatures'' u64_amd64,
       Field ''xfd'' u64_amd64,
       Bits ''is_valloc'' (CBase CUInt) 1,
       Bits ''is_guest'' (CBase CUInt) 1,
       Bits ''is_confidential'' (CBase CUInt) 1,
       Bits ''in_use'' (CBase CUInt) 1,
       Bits '''' (CBase CLong) 60,
       Bits '''' (CBase CLong) 64,
       Bits '''' (CBase CLong) 64,
       Bits '''' (CBase CLong) 64,
       Field ''regs'' fpregs_state_amd64]"

lemma fpstate_amd64_size [layout_simps]: "sizeof fpstate_amd64 = 4160" "alignof fpstate_amd64 = 8"
  by (simp_all add: fpstate_amd64_def align_up_def layout_simps)

definition fpu_amd64 :: ctype where
  "fpu_amd64 = CStruct [
       Field ''last_cpu'' (CBase CUInt),
       Field ''avx512_timestamp'' (CBase CULong),
       Field ''fpstate'' (CPtr ''struct fpstate''),
       Field ''__task_fpstate'' (CPtr ''struct fpstate''),
       Field ''perm'' fpu_state_perm_amd64,
       Field ''guest_perm'' fpu_state_perm_amd64,
       Field ''__fpstate'' fpstate_amd64]"

lemma fpu_amd64_size [layout_simps]: "sizeof fpu_amd64 = 4224" "alignof fpu_amd64 = 8"
  by (simp_all add: fpu_amd64_def align_up_def layout_simps)

definition thread_struct_amd64 :: ctype where
  "thread_struct_amd64 = CStruct [
       Field ''tls_array'' (CArr (desc_struct_amd64) 3),
       Field ''sp'' (CBase CULong),
       Field ''es'' (CBase CUShort),
       Field ''ds'' (CBase CUShort),
       Field ''fsindex'' (CBase CUShort),
       Field ''gsindex'' (CBase CUShort),
       Field ''fsbase'' (CBase CULong),
       Field ''gsbase'' (CBase CULong),
       Field ''ptrace_bps'' (CArr (CPtr ''struct perf_event'') 4),
       Field ''virtual_dr6'' (CBase CULong),
       Field ''ptrace_dr7'' (CBase CULong),
       Field ''cr2'' (CBase CULong),
       Field ''trap_nr'' (CBase CULong),
       Field ''error_code'' (CBase CULong),
       Field ''io_bitmap'' (CPtr ''struct io_bitmap''),
       Field ''iopl_emul'' (CBase CULong),
       Bits ''iopl_warn'' (CBase CUInt) 1,
       Bits ''sig_on_uaccess_err'' (CBase CUInt) 1,
       Field ''pkru'' u32_amd64,
       Bits '''' (CBase CLong) 64,
       Bits '''' (CBase CLong) 64,
       Bits '''' (CBase CLong) 64,
       Bits '''' (CBase CLong) 64,
       Bits '''' (CBase CLong) 64,
       Field ''fpu'' fpu_amd64]"

lemma thread_struct_amd64_size [layout_simps]: "sizeof thread_struct_amd64 = 4416" "alignof thread_struct_amd64 = 8"
  by (simp_all add: thread_struct_amd64_def align_up_def layout_simps)

definition task_struct_amd64_part1 :: "cfield list" where
  "task_struct_amd64_part1 = [
     Field ''thread_info'' thread_info_amd64,
     Field ''__state'' (CBase CUInt),
     Field ''stack'' (CPtr ''void''),
     Field ''usage'' refcount_t_amd64,
     Field ''flags'' (CBase CUInt),
     Field ''ptrace'' (CBase CUInt),
     Field ''on_cpu'' (CBase CInt),
     Field ''wake_entry'' us_call_single_node_amd64,
     Field ''wakee_flips'' (CBase CUInt),
     Field ''wakee_flip_decay_ts'' (CBase CULong),
     Field ''last_wakee'' (CPtr ''struct task_struct''),
     Field ''recent_used_cpu'' (CBase CInt),
     Field ''wake_cpu'' (CBase CInt),
     Field ''on_rq'' (CBase CInt),
     Field ''prio'' (CBase CInt),
     Field ''static_prio'' (CBase CInt),
     Field ''normal_prio'' (CBase CInt),
     Field ''rt_priority'' (CBase CUInt),
     Field ''se'' sched_entity_amd64,
     Field ''rt'' sched_rt_entity_amd64,
     Field ''dl'' sched_dl_entity_amd64,
     Field ''sched_class'' (CPtr ''const struct sched_class''),
     Field ''core_node'' rb_node_amd64,
     Field ''core_cookie'' (CBase CULong),
     Field ''core_occupation'' (CBase CUInt),
     Field ''sched_task_group'' (CPtr ''struct task_group''),
     Field ''uclamp_req'' (CArr (uclamp_se_amd64) 2),
     Field ''uclamp'' (CArr (uclamp_se_amd64) 2),
     Bits '''' (CBase CLong) 64,
     Bits '''' (CBase CLong) 64,
     Bits '''' (CBase CLong) 64,
     Bits '''' (CBase CLong) 64,
     Bits '''' (CBase CLong) 64,
     Field ''stats'' sched_statistics_amd64,
     Field ''preempt_notifiers'' hlist_head_amd64,
     Field ''btrace_seq'' (CBase CUInt),
     Field ''policy'' (CBase CUInt),
     Field ''nr_cpus_allowed'' (CBase CInt),
     Field ''cpus_ptr'' (CPtr ''const cpumask_t''),
     Field ''user_cpus_ptr'' (CPtr ''cpumask_t''),
     Field ''cpus_mask'' cpumask_t_amd64,
     Field ''migration_pending'' (CPtr ''void''),
     Field ''migration_disabled'' (CBase CUShort),
     Field ''migration_flags'' (CBase CUShort),
     Field ''rcu_read_lock_nesting'' (CBase CInt),
     Field ''rcu_read_unlock_special'' rcu_special_amd64,
     Field ''rcu_node_entry'' list_head_amd64,
     Field ''rcu_blocked_node'' (CPtr ''struct rcu_node''),
     Field ''rcu_tasks_nvcsw'' (CBase CULong),
     Field ''rcu_tasks_holdout'' u8_amd64,
     Field ''rcu_tasks_idx'' u8_amd64,
     Field ''rcu_tasks_idle_cpu'' (CBase CInt),
     Field ''rcu_tasks_holdout_list'' list_head_amd64,
     Field ''trc_reader_nesting'' (CBase CInt),
     Field ''trc_ipi_to_cpu'' (CBase CInt),
     Field ''trc_reader_special'' rcu_special_amd64,
     Field ''trc_reader_checked'' bool_amd64,
     Field ''trc_holdout_list'' list_head_amd64,
     Field ''sched_info'' sched_info_amd64,
     Field ''tasks'' list_head_amd64,
     Field ''pushable_tasks'' plist_node_amd64,
     Field ''pushable_dl_tasks'' rb_node_amd64,
     Field ''mm'' (CPtr ''struct mm_struct''),
     Field ''active_mm'' (CPtr ''struct mm_struct''),
     Field ''vmacache'' vmacache_amd64,
     Field ''rss_stat'' task_rss_stat_amd64,
     Field ''exit_state'' (CBase CInt),
     Field ''exit_code'' (CBase CInt),
     Field ''exit_signal'' (CBase CInt),
     Field ''pdeath_signal'' (CBase CInt),
     Field ''jobctl'' (CBase CULong),
     Field ''personality'' (CBase CUInt),
     Bits ''sched_reset_on_fork'' (CBase CUInt) 1,
     Bits ''sched_contributes_to_load'' (CBase CUInt) 1,
     Bits ''sched_migrated'' (CBase CUInt) 1,
     Bits ''sched_psi_wake_requeue'' (CBase CUInt) 1,
     Bits '''' (CBase CInt) 28,
     Bits ''sched_remote_wakeup'' (CBase CUInt) 1,
     Bits ''in_execve'' (CBase CUInt) 1,
     Bits ''in_iowait'' (CBase CUInt) 1,
     Bits ''restore_sigmask'' (CBase CUInt) 1,
     Bits ''in_user_fault'' (CBase CUInt) 1,
     Bits ''no_cgroup_migration'' (CBase CUInt) 1,
     Bits ''frozen'' (CBase CUInt) 1,
     Bits ''use_memdelay'' (CBase CUInt) 1,
     Bits ''in_memstall'' (CBase CUInt) 1,
     Bits ''in_eventfd'' (CBase CUInt) 1,
     Bits ''pasid_activated'' (CBase CUInt) 1,
     Bits ''reported_split_lock'' (CBase CUInt) 1,
     Field ''atomic_flags'' (CBase CULong),
     Field ''restart_block'' restart_block_amd64,
     Field ''pid'' pid_t_amd64,
     Field ''tgid'' pid_t_amd64,
     Field ''stack_canary'' (CBase CULong),
     Field ''real_parent'' (CPtr ''struct task_struct''),
     Field ''parent'' (CPtr ''struct task_struct''),
     Field ''children'' list_head_amd64,
     Field ''sibling'' list_head_amd64,
     Field ''group_leader'' (CPtr ''struct task_struct''),
     Field ''ptraced'' list_head_amd64,
     Field ''ptrace_entry'' list_head_amd64,
     Field ''thread_pid'' (CPtr ''struct pid''),
     Field ''pid_links'' (CArr (hlist_node_amd64) 4),
     Field ''thread_group'' list_head_amd64,
     Field ''thread_node'' list_head_amd64,
     Field ''vfork_done'' (CPtr ''struct completion''),
     Field ''set_child_tid'' (CPtr ''int''),
     Field ''clear_child_tid'' (CPtr ''int''),
     Field ''worker_private'' (CPtr ''void''),
     Field ''utime'' u64_amd64,
     Field ''stime'' u64_amd64,
     Field ''gtime'' u64_amd64,
     Field ''prev_cputime'' prev_cputime_amd64,
     Field ''nvcsw'' (CBase CULong),
     Field ''nivcsw'' (CBase CULong),
     Field ''start_time'' u64_amd64,
     Field ''start_boottime'' u64_amd64,
     Field ''min_flt'' (CBase CULong),
     Field ''maj_flt'' (CBase CULong),
     Field ''posix_cputimers'' posix_cputimers_amd64,
     Field ''posix_cputimers_work'' posix_cputimers_work_amd64,
     Field ''ptracer_cred'' (CPtr ''const struct cred'')]"

definition task_struct_amd64_part2 :: "cfield list" where
  "task_struct_amd64_part2 = [
     Field ''real_cred'' (CPtr ''const struct cred''),
     Field ''cred'' (CPtr ''const struct cred''),
     Field ''cached_requested_key'' (CPtr ''struct key''),
     Field ''comm'' (CArr (CBase CChar) 16),
     Field ''nameidata'' (CPtr ''struct nameidata''),
     Field ''sysvsem'' sysv_sem_amd64,
     Field ''sysvshm'' sysv_shm_amd64,
     Field ''last_switch_count'' (CBase CULong),
     Field ''last_switch_time'' (CBase CULong),
     Field ''fs'' (CPtr ''struct fs_struct''),
     Field ''files'' (CPtr ''struct files_struct''),
     Field ''io_uring'' (CPtr ''struct io_uring_task''),
     Field ''nsproxy'' (CPtr ''struct nsproxy''),
     Field ''signal'' (CPtr ''struct signal_struct''),
     Field ''sighand'' (CPtr ''struct sighand_struct''),
     Field ''blocked'' sigset_t_amd64,
     Field ''real_blocked'' sigset_t_amd64,
     Field ''saved_sigmask'' sigset_t_amd64,
     Field ''pending'' sigpending_amd64,
     Field ''sas_ss_sp'' (CBase CULong),
     Field ''sas_ss_size'' size_t_amd64,
     Field ''sas_ss_flags'' (CBase CUInt),
     Field ''task_works'' (CPtr ''struct callback_head''),
     Field ''audit_context'' (CPtr ''struct audit_context''),
     Field ''loginuid'' kuid_t_amd64,
     Field ''sessionid'' (CBase CUInt),
     Field ''seccomp'' seccomp_amd64,
     Field ''syscall_dispatch'' syscall_user_dispatch_amd64,
     Field ''parent_exec_id'' u64_amd64,
     Field ''self_exec_id'' u64_amd64,
     Field ''alloc_lock'' spinlock_t_amd64,
     Field ''pi_lock'' raw_spinlock_t_amd64,
     Field ''wake_q'' wake_q_node_amd64,
     Field ''pi_waiters'' rb_root_cached_amd64,
     Field ''pi_top_task'' (CPtr ''struct task_struct''),
     Field ''pi_blocked_on'' (CPtr ''struct rt_mutex_waiter''),
     Field ''in_ubsan'' (CBase CUInt),
     Field ''journal_info'' (CPtr ''void''),
     Field ''bio_list'' (CPtr ''struct bio_list''),
     Field ''plug'' (CPtr ''struct blk_plug''),
     Field ''reclaim_state'' (CPtr ''struct reclaim_state''),
     Field ''backing_dev_info'' (CPtr ''struct backing_dev_info''),
     Field ''io_context'' (CPtr ''struct io_context''),
     Field ''capture_control'' (CPtr ''struct capture_control''),
     Field ''ptrace_message'' (CBase CULong),
     Field ''last_siginfo'' (CPtr ''kernel_siginfo_t''),
     Field ''ioac'' task_io_accounting_amd64,
     Field ''psi_flags'' (CBase CUInt),
     Field ''acct_rss_mem1'' u64_amd64,
     Field ''acct_vm_mem1'' u64_amd64,
     Field ''acct_timexpd'' u64_amd64,
     Field ''mems_allowed'' nodemask_t_amd64,
     Field ''mems_allowed_seq'' seqcount_spinlock_t_amd64,
     Field ''cpuset_mem_spread_rotor'' (CBase CInt),
     Field ''cpuset_slab_spread_rotor'' (CBase CInt),
     Field ''cgroups'' (CPtr ''struct css_set''),
     Field ''cg_list'' list_head_amd64,
     Field ''closid'' u32_amd64,
     Field ''rmid'' u32_amd64,
     Field ''robust_list'' (CPtr ''struct robust_list_head''),
     Field ''compat_robust_list'' (CPtr ''struct compat_robust_list_head''),
     Field ''pi_state_list'' list_head_amd64,
     Field ''pi_state_cache'' (CPtr ''struct futex_pi_state''),
     Field ''futex_exit_mutex'' mutex_amd64,
     Field ''futex_state'' (CBase CUInt),
     Field ''perf_event_ctxp'' (CArr (CPtr ''struct perf_event_context'') 2),
     Field ''perf_event_mutex'' mutex_amd64,
     Field ''perf_event_list'' list_head_amd64,
     Field ''mempolicy'' (CPtr ''struct mempolicy''),
     Field ''il_prev'' (CBase CShort),
     Field ''pref_node_fork'' (CBase CShort),
     Field ''numa_scan_seq'' (CBase CInt),
     Field ''numa_scan_period'' (CBase CUInt),
     Field ''numa_scan_period_max'' (CBase CUInt),
     Field ''numa_preferred_nid'' (CBase CInt),
     Field ''numa_migrate_retry'' (CBase CULong),
     Field ''node_stamp'' u64_amd64,
     Field ''last_task_numa_placement'' u64_amd64,
     Field ''last_sum_exec_runtime'' u64_amd64,
     Field ''numa_work'' callback_head_amd64,
     Field ''numa_group'' (CPtr ''struct numa_group''),
     Field ''numa_faults'' (CPtr ''long unsigned int''),
     Field ''total_numa_faults'' (CBase CULong),
     Field ''numa_faults_locality'' (CArr (CBase CULong) 3),
     Field ''numa_pages_migrated'' (CBase CULong),
     Field ''rseq'' (CPtr ''struct rseq''),
     Field ''rseq_sig'' u32_amd64,
     Field ''rseq_event_mask'' (CBase CULong),
     Field ''tlb_ubc'' tlbflush_unmap_batch_amd64,
     Field '''' (CUnion [
       Field ''rcu_users'' refcount_t_amd64,
       Field ''rcu'' callback_head_amd64]),
     Field ''splice_pipe'' (CPtr ''struct pipe_inode_info''),
     Field ''task_frag'' page_frag_amd64,
     Field ''delays'' (CPtr ''struct task_delay_info''),
     Field ''nr_dirtied'' (CBase CInt),
     Field ''nr_dirtied_pause'' (CBase CInt),
     Field ''dirty_paused_when'' (CBase CULong),
     Field ''timer_slack_ns'' u64_amd64,
     Field ''default_timer_slack_ns'' u64_amd64,
     Field ''curr_ret_stack'' (CBase CInt),
     Field ''curr_ret_depth'' (CBase CInt),
     Field ''ret_stack'' (CPtr ''struct ftrace_ret_stack''),
     Field ''ftrace_timestamp'' (CBase CULongLong),
     Field ''trace_overrun'' atomic_t_amd64,
     Field ''tracing_graph_pause'' atomic_t_amd64,
     Field ''trace'' (CBase CULong),
     Field ''trace_recursion'' (CBase CULong),
     Field ''memcg_in_oom'' (CPtr ''struct mem_cgroup''),
     Field ''memcg_oom_gfp_mask'' gfp_t_amd64,
     Field ''memcg_oom_order'' (CBase CInt),
     Field ''memcg_nr_pages_over_high'' (CBase CUInt),
     Field ''active_memcg'' (CPtr ''struct mem_cgroup''),
     Field ''throttle_queue'' (CPtr ''struct request_queue''),
     Field ''utask'' (CPtr ''struct uprobe_task''),
     Field ''sequential_io'' (CBase CUInt),
     Field ''sequential_io_avg'' (CBase CUInt),
     Field ''kmap_ctrl'' kmap_ctrl_amd64,
     Field ''pagefault_disabled'' (CBase CInt),
     Field ''oom_reaper_list'' (CPtr ''struct task_struct''),
     Field ''oom_reaper_timer'' timer_list_amd64,
     Field ''stack_vm_area'' (CPtr ''struct vm_struct''),
     Field ''stack_refcount'' refcount_t_amd64,
     Field ''patch_state'' (CBase CInt),
     Field ''security'' (CPtr ''void''),
     Field ''bpf_storage'' (CPtr ''struct bpf_local_storage''),
     Field ''bpf_ctx'' (CPtr ''struct bpf_run_ctx''),
     Field ''mce_vaddr'' (CPtr ''void''),
     Field ''mce_kflags'' us_u64_amd64,
     Field ''mce_addr'' u64_amd64,
     Bits ''mce_ripv'' us_u64_amd64 1,
     Bits ''mce_whole_page'' us_u64_amd64 1,
     Bits ''__mce_reserved'' us_u64_amd64 62,
     Field ''mce_kill_me'' callback_head_amd64,
     Field ''mce_count'' (CBase CInt),
     Field ''kretprobe_instances'' llist_head_amd64,
     Field ''rethooks'' llist_head_amd64,
     Field ''l1d_flush_kill'' callback_head_amd64,
     Bits '''' (CBase CLong) 64,
     Bits '''' (CBase CLong) 64,
     Bits '''' (CBase CLong) 64,
     Bits '''' (CBase CLong) 64,
     Bits '''' (CBase CLong) 64,
     Field ''thread'' thread_struct_amd64]"

definition task_struct_amd64 :: ctype where
  "task_struct_amd64 = CStruct (task_struct_amd64_part1 @ task_struct_amd64_part2)"

lemma task_struct_amd64_size [layout_simps]: "sizeof task_struct_amd64 = 9792" "alignof task_struct_amd64 = 8"
  by (simp_all add: task_struct_amd64_def task_struct_amd64_part1_def task_struct_amd64_part2_def align_up_def layout_simps)

definition pt_regs_amd64 :: ctype where
  "pt_regs_amd64 = CStruct [
       Field ''r15'' (CBase CULong),
       Field ''r14'' (CBase CULong),
       Field ''r13'' (CBase CULong),
       Field ''r12'' (CBase CULong),
       Field ''bp'' (CBase CULong),
       Field ''bx'' (CBase CULong),
       Field ''r11'' (CBase CULong),
       Field ''r10'' (CBase CULong),
       Field ''r9'' (CBase CULong),
       Field ''r8'' (CBase CULong),
       Field ''ax'' (CBase CULong),
       Field ''cx'' (CBase CULong),
       Field ''dx'' (CBase CULong),
       Field ''si'' (CBase CULong),
       Field ''di'' (CBase CULong),
       Field ''orig_ax'' (CBase CULong),
       Field ''ip'' (CBase CULong),
       Field ''cs'' (CBase CULong),
       Field ''flags'' (CBase CULong),
       Field ''sp'' (CBase CULong),
       Field ''ss'' (CBase CULong)]"

lemma pt_regs_amd64_size [layout_simps]: "sizeof pt_regs_amd64 = 168" "alignof pt_regs_amd64 = 8"
  by (simp_all add: pt_regs_amd64_def align_up_def layout_simps)

definition us_sk_buff_amd64 :: ctype where
  "us_sk_buff_amd64 = CStruct [
       Field ''len'' us_u32_amd64,
       Field ''pkt_type'' us_u32_amd64,
       Field ''mark'' us_u32_amd64,
       Field ''queue_mapping'' us_u32_amd64,
       Field ''protocol'' us_u32_amd64,
       Field ''vlan_present'' us_u32_amd64,
       Field ''vlan_tci'' us_u32_amd64,
       Field ''vlan_proto'' us_u32_amd64,
       Field ''priority'' us_u32_amd64,
       Field ''ingress_ifindex'' us_u32_amd64,
       Field ''ifindex'' us_u32_amd64,
       Field ''tc_index'' us_u32_amd64,
       Field ''cb'' (CArr (us_u32_amd64) 5),
       Field ''hash'' us_u32_amd64,
       Field ''tc_classid'' us_u32_amd64,
       Field ''data'' us_u32_amd64,
       Field ''data_end'' us_u32_amd64,
       Field ''napi_id'' us_u32_amd64,
       Field ''family'' us_u32_amd64,
       Field ''remote_ip4'' us_u32_amd64,
       Field ''local_ip4'' us_u32_amd64,
       Field ''remote_ip6'' (CArr (us_u32_amd64) 4),
       Field ''local_ip6'' (CArr (us_u32_amd64) 4),
       Field ''remote_port'' us_u32_amd64,
       Field ''local_port'' us_u32_amd64,
       Field ''data_meta'' us_u32_amd64,
       Field '''' (CUnion [
         Field ''flow_keys'' (CPtr ''struct bpf_flow_keys'')]),
       Field ''tstamp'' us_u64_amd64,
       Field ''wire_len'' us_u32_amd64,
       Field ''gso_segs'' us_u32_amd64,
       Field '''' (CUnion [
         Field ''sk'' (CPtr ''struct bpf_sock'')]),
       Field ''gso_size'' us_u32_amd64,
       Field ''tstamp_type'' us_u8_amd64,
       Field ''hwtstamp'' us_u64_amd64]"

lemma us_sk_buff_amd64_size [layout_simps]: "sizeof us_sk_buff_amd64 = 192" "alignof us_sk_buff_amd64 = 8"
  by (simp_all add: us_sk_buff_amd64_def align_up_def layout_simps)

definition us_be16_amd64 :: ctype where
  "us_be16_amd64 = us_u16_amd64"

lemma us_be16_amd64_size [layout_simps]: "sizeof us_be16_amd64 = 2" "alignof us_be16_amd64 = 2"
  by (simp_all add: us_be16_amd64_def align_up_def layout_simps)

definition ethhdr_amd64 :: ctype where
  "ethhdr_amd64 = CStruct [
       Field ''h_dest'' (CArr (CBase CUChar) 6),
       Field ''h_source'' (CArr (CBase CUChar) 6),
       Field ''h_proto'' us_be16_amd64]"

lemma ethhdr_amd64_size [layout_simps]: "sizeof ethhdr_amd64 = 14" "alignof ethhdr_amd64 = 2"
  by (simp_all add: ethhdr_amd64_def align_up_def layout_simps)

definition us_sum16_amd64 :: ctype where
  "us_sum16_amd64 = us_u16_amd64"

lemma us_sum16_amd64_size [layout_simps]: "sizeof us_sum16_amd64 = 2" "alignof us_sum16_amd64 = 2"
  by (simp_all add: us_sum16_amd64_def align_up_def layout_simps)

definition us_be32_amd64 :: ctype where
  "us_be32_amd64 = us_u32_amd64"

lemma us_be32_amd64_size [layout_simps]: "sizeof us_be32_amd64 = 4" "alignof us_be32_amd64 = 4"
  by (simp_all add: us_be32_amd64_def align_up_def layout_simps)

definition iphdr_amd64 :: ctype where
  "iphdr_amd64 = CStruct [
       Bits ''ihl'' us_u8_amd64 4,
       Bits ''version'' us_u8_amd64 4,
       Field ''tos'' us_u8_amd64,
       Field ''tot_len'' us_be16_amd64,
       Field ''id'' us_be16_amd64,
       Field ''frag_off'' us_be16_amd64,
       Field ''ttl'' us_u8_amd64,
       Field ''protocol'' us_u8_amd64,
       Field ''check'' us_sum16_amd64,
       Field ''saddr'' us_be32_amd64,
       Field ''daddr'' us_be32_amd64]"

lemma iphdr_amd64_size [layout_simps]: "sizeof iphdr_amd64 = 20" "alignof iphdr_amd64 = 4"
  by (simp_all add: iphdr_amd64_def align_up_def layout_simps)

definition in6_addr_amd64 :: ctype where
  "in6_addr_amd64 = CStruct [
       Field ''in6_u'' (CUnion [
         Field ''u6_addr8'' (CArr (us_u8_amd64) 16),
         Field ''u6_addr16'' (CArr (us_be16_amd64) 8),
         Field ''u6_addr32'' (CArr (us_be32_amd64) 4)])]"

lemma in6_addr_amd64_size [layout_simps]: "sizeof in6_addr_amd64 = 16" "alignof in6_addr_amd64 = 4"
  by (simp_all add: in6_addr_amd64_def align_up_def layout_simps)

definition ipv6hdr_amd64 :: ctype where
  "ipv6hdr_amd64 = CStruct [
       Bits ''priority'' us_u8_amd64 4,
       Bits ''version'' us_u8_amd64 4,
       Field ''flow_lbl'' (CArr (us_u8_amd64) 3),
       Field ''payload_len'' us_be16_amd64,
       Field ''nexthdr'' us_u8_amd64,
       Field ''hop_limit'' us_u8_amd64,
       Field ''saddr'' in6_addr_amd64,
       Field ''daddr'' in6_addr_amd64]"

lemma ipv6hdr_amd64_size [layout_simps]: "sizeof ipv6hdr_amd64 = 40" "alignof ipv6hdr_amd64 = 4"
  by (simp_all add: ipv6hdr_amd64_def align_up_def layout_simps)

definition tcphdr_amd64 :: ctype where
  "tcphdr_amd64 = CStruct [
       Field ''source'' us_be16_amd64,
       Field ''dest'' us_be16_amd64,
       Field ''seq'' us_be32_amd64,
       Field ''ack_seq'' us_be32_amd64,
       Bits ''res1'' us_u16_amd64 4,
       Bits ''doff'' us_u16_amd64 4,
       Bits ''fin'' us_u16_amd64 1,
       Bits ''syn'' us_u16_amd64 1,
       Bits ''rst'' us_u16_amd64 1,
       Bits ''psh'' us_u16_amd64 1,
       Bits ''ack'' us_u16_amd64 1,
       Bits ''urg'' us_u16_amd64 1,
       Bits ''ece'' us_u16_amd64 1,
       Bits ''cwr'' us_u16_amd64 1,
       Field ''window'' us_be16_amd64,
       Field ''check'' us_sum16_amd64,
       Field ''urg_ptr'' us_be16_amd64]"

lemma tcphdr_amd64_size [layout_simps]: "sizeof tcphdr_amd64 = 20" "alignof tcphdr_amd64 = 4"
  by (simp_all add: tcphdr_amd64_def align_up_def layout_simps)

definition udphdr_amd64 :: ctype where
  "udphdr_amd64 = CStruct [
       Field ''source'' us_be16_amd64,
       Field ''dest'' us_be16_amd64,
       Field ''len'' us_be16_amd64,
       Field ''check'' us_sum16_amd64]"

lemma udphdr_amd64_size [layout_simps]: "sizeof udphdr_amd64 = 8" "alignof udphdr_amd64 = 2"
  by (simp_all add: udphdr_amd64_def align_up_def layout_simps)

definition bpf_attr_amd64_part1 :: "cfield list" where
  "bpf_attr_amd64_part1 = [
     Field '''' (CStruct [
       Field ''map_type'' us_u32_amd64,
       Field ''key_size'' us_u32_amd64,
       Field ''value_size'' us_u32_amd64,
       Field ''max_entries'' us_u32_amd64,
       Field ''map_flags'' us_u32_amd64,
       Field ''inner_map_fd'' us_u32_amd64,
       Field ''numa_node'' us_u32_amd64,
       Field ''map_name'' (CArr (CBase CChar) 16),
       Field ''map_ifindex'' us_u32_amd64,
       Field ''btf_fd'' us_u32_amd64,
       Field ''btf_key_type_id'' us_u32_amd64,
       Field ''btf_value_type_id'' us_u32_amd64,
       Field ''btf_vmlinux_value_type_id'' us_u32_amd64,
       Field ''map_extra'' us_u64_amd64]),
     Field '''' (CStruct [
       Field ''map_fd'' us_u32_amd64,
       Field ''key'' us_u64_amd64,
       Field '''' (CUnion [
         Field ''value'' us_u64_amd64,
         Field ''next_key'' us_u64_amd64]),
       Field ''flags'' us_u64_amd64]),
     Field ''batch'' (CStruct [
       Field ''in_batch'' us_u64_amd64,
       Field ''out_batch'' us_u64_amd64,
       Field ''keys'' us_u64_amd64,
       Field ''values'' us_u64_amd64,
       Field ''count'' us_u32_amd64,
       Field ''map_fd'' us_u32_amd64,
       Field ''elem_flags'' us_u64_amd64,
       Field ''flags'' us_u64_amd64]),
     Field '''' (CStruct [
       Field ''prog_type'' us_u32_amd64,
       Field ''insn_cnt'' us_u32_amd64,
       Field ''insns'' us_u64_amd64,
       Field ''license'' us_u64_amd64,
       Field ''log_level'' us_u32_amd64,
       Field ''log_size'' us_u32_amd64,
       Field ''log_buf'' us_u64_amd64,
       Field ''kern_version'' us_u32_amd64,
       Field ''prog_flags'' us_u32_amd64,
       Field ''prog_name'' (CArr (CBase CChar) 16),
       Field ''prog_ifindex'' us_u32_amd64,
       Field ''expected_attach_type'' us_u32_amd64,
       Field ''prog_btf_fd'' us_u32_amd64,
       Field ''func_info_rec_size'' us_u32_amd64,
       Field ''func_info'' us_u64_amd64,
       Field ''func_info_cnt'' us_u32_amd64,
       Field ''line_info_rec_size'' us_u32_amd64,
       Field ''line_info'' us_u64_amd64,
       Field ''line_info_cnt'' us_u32_amd64,
       Field ''attach_btf_id'' us_u32_amd64,
       Field '''' (CUnion [
         Field ''attach_prog_fd'' us_u32_amd64,
         Field ''attach_btf_obj_fd'' us_u32_amd64]),
       Field ''core_relo_cnt'' us_u32_amd64,
       Field ''fd_array'' us_u64_amd64,
       Field ''core_relos'' us_u64_amd64,
       Field ''core_relo_rec_size'' us_u32_amd64]),
     Field '''' (CStruct [
       Field ''pathname'' us_u64_amd64,
       Field ''bpf_fd'' us_u32_amd64,
       Field ''file_flags'' us_u32_amd64]),
     Field '''' (CStruct [
       Field ''target_fd'' us_u32_amd64,
       Field ''attach_bpf_fd'' us_u32_amd64,
       Field ''attach_type'' us_u32_amd64,
       Field ''attach_flags'' us_u32_amd64,
       Field ''replace_bpf_fd'' us_u32_amd64]),
     Field ''test'' (CStruct [
       Field ''prog_fd'' us_u32_amd64,
       Field ''retval'' us_u32_amd64,
       Field ''data_size_in'' us_u32_amd64,
       Field ''data_size_out'' us_u32_amd64,
       Field ''data_in'' us_u64_amd64,
       Field ''data_out'' us_u64_amd64,
       Field ''repeat'' us_u32_amd64,
       Field ''duration'' us_u32_amd64,
       Field ''ctx_size_in'' us_u32_amd64,
       Field ''ctx_size_out'' us_u32_amd64,
       Field ''ctx_in'' us_u64_amd64,
       Field ''ctx_out'' us_u64_amd64,
       Field ''flags'' us_u32_amd64,
       Field ''cpu'' us_u32_amd64,
       Field ''batch_size'' us_u32_amd64])]"

definition bpf_attr_amd64_part2 :: "cfield list" where
  "bpf_attr_amd64_part2 = [
     Field '''' (CStruct [
       Field '''' (CUnion [
         Field ''start_id'' us_u32_amd64,
         Field ''prog_id'' us_u32_amd64,
         Field ''map_id'' us_u32_amd64,
         Field ''btf_id'' us_u32_amd64,
         Field ''link_id'' us_u32_amd64]),
       Field ''next_id'' us_u32_amd64,
       Field ''open_flags'' us_u32_amd64]),
     Field ''info'' (CStruct [
       Field ''bpf_fd'' us_u32_amd64,
       Field ''info_len'' us_u32_amd64,
       Field ''info'' us_u64_amd64]),
     Field ''query'' (CStruct [
       Field ''target_fd'' us_u32_amd64,
       Field ''attach_type'' us_u32_amd64,
       Field ''query_flags'' us_u32_amd64,
       Field ''attach_flags'' us_u32_amd64,
       Field ''prog_ids'' us_u64_amd64,
       Field ''prog_cnt'' us_u32_amd64]),
     Field ''raw_tracepoint'' (CStruct [
       Field ''name'' us_u64_amd64,
       Field ''prog_fd'' us_u32_amd64]),
     Field '''' (CStruct [
       Field ''btf'' us_u64_amd64,
       Field ''btf_log_buf'' us_u64_amd64,
       Field ''btf_size'' us_u32_amd64,
       Field ''btf_log_size'' us_u32_amd64,
       Field ''btf_log_level'' us_u32_amd64]),
     Field ''task_fd_query'' (CStruct [
       Field ''pid'' us_u32_amd64,
       Field ''fd'' us_u32_amd64,
       Field ''flags'' us_u32_amd64,
       Field ''buf_len'' us_u32_amd64,
       Field ''buf'' us_u64_amd64,
       Field ''prog_id'' us_u32_amd64,
       Field ''fd_type'' us_u32_amd64,
       Field ''probe_offset'' us_u64_amd64,
       Field ''probe_addr'' us_u64_amd64]),
     Field ''link_create'' (CStruct [
       Field ''prog_fd'' us_u32_amd64,
       Field '''' (CUnion [
         Field ''target_fd'' us_u32_amd64,
         Field ''target_ifindex'' us_u32_amd64]),
       Field ''attach_type'' us_u32_amd64,
       Field ''flags'' us_u32_amd64,
       Field '''' (CUnion [
         Field ''target_btf_id'' us_u32_amd64,
         Field '''' (CStruct [
           Field ''iter_info'' us_u64_amd64,
           Field ''iter_info_len'' us_u32_amd64]),
         Field ''perf_event'' (CStruct [
           Field ''bpf_cookie'' us_u64_amd64]),
         Field ''kprobe_multi'' (CStruct [
           Field ''flags'' us_u32_amd64,
           Field ''cnt'' us_u32_amd64,
           Field ''syms'' us_u64_amd64,
           Field ''addrs'' us_u64_amd64,
           Field ''cookies'' us_u64_amd64]),
         Field ''tracing'' (CStruct [
           Field ''target_btf_id'' us_u32_amd64,
           Field ''cookie'' us_u64_amd64])])]),
     Field ''link_update'' (CStruct [
       Field ''link_fd'' us_u32_amd64,
       Field ''new_prog_fd'' us_u32_amd64,
       Field ''flags'' us_u32_amd64,
       Field ''old_prog_fd'' us_u32_amd64]),
     Field ''link_detach'' (CStruct [
       Field ''link_fd'' us_u32_amd64]),
     Field ''enable_stats'' (CStruct [
       Field ''type'' us_u32_amd64]),
     Field ''iter_create'' (CStruct [
       Field ''link_fd'' us_u32_amd64,
       Field ''flags'' us_u32_amd64]),
     Field ''prog_bind_map'' (CStruct [
       Field ''prog_fd'' us_u32_amd64,
       Field ''map_fd'' us_u32_amd64,
       Field ''flags'' us_u32_amd64])]"

definition bpf_attr_amd64 :: ctype where
  "bpf_attr_amd64 = CUnion (bpf_attr_amd64_part1 @ bpf_attr_amd64_part2)"

lemma bpf_attr_amd64_size [layout_simps]: "sizeof bpf_attr_amd64 = 144" "alignof bpf_attr_amd64 = 8"
  by (simp_all add: bpf_attr_amd64_def bpf_attr_amd64_part1_def bpf_attr_amd64_part2_def align_up_def layout_simps)

definition bpf_iter_link_info_amd64 :: ctype where
  "bpf_iter_link_info_amd64 = CUnion [
       Field ''map'' (CStruct [
         Field ''map_fd'' us_u32_amd64])]"

lemma bpf_iter_link_info_amd64_size [layout_simps]: "sizeof bpf_iter_link_info_amd64 = 4" "alignof bpf_iter_link_info_amd64 = 4"
  by (simp_all add: bpf_iter_link_info_amd64_def align_up_def layout_simps)

definition bpf_map_info_amd64 :: ctype where
  "bpf_map_info_amd64 = CStruct [
       Field ''type'' us_u32_amd64,
       Field ''id'' us_u32_amd64,
       Field ''key_size'' us_u32_amd64,
       Field ''value_size'' us_u32_amd64,
       Field ''max_entries'' us_u32_amd64,
       Field ''map_flags'' us_u32_amd64,
       Field ''name'' (CArr (CBase CChar) 16),
       Field ''ifindex'' us_u32_amd64,
       Field ''btf_vmlinux_value_type_id'' us_u32_amd64,
       Field ''netns_dev'' us_u64_amd64,
       Field ''netns_ino'' us_u64_amd64,
       Field ''btf_id'' us_u32_amd64,
       Field ''btf_key_type_id'' us_u32_amd64,
       Field ''btf_value_type_id'' us_u32_amd64,
       Field ''map_extra'' us_u64_amd64]"

lemma bpf_map_info_amd64_size [layout_simps]: "sizeof bpf_map_info_amd64 = 88" "alignof bpf_map_info_amd64 = 8"
  by (simp_all add: bpf_map_info_amd64_def align_up_def layout_simps)

section \<open>Enumerations\<close>

definition ipproto_amd64 :: "(string \<times> nat) list" where
  "ipproto_amd64 = [
     (''IPPROTO_IP'', 0),
     (''IPPROTO_ICMP'', 1),
     (''IPPROTO_IGMP'', 2),
     (''IPPROTO_IPIP'', 4),
     (''IPPROTO_TCP'', 6),
     (''IPPROTO_EGP'', 8),
     (''IPPROTO_PUP'', 12),
     (''IPPROTO_UDP'', 17),
     (''IPPROTO_IDP'', 22),
     (''IPPROTO_TP'', 29),
     (''IPPROTO_DCCP'', 33),
     (''IPPROTO_IPV6'', 41),
     (''IPPROTO_RSVP'', 46),
     (''IPPROTO_GRE'', 47),
     (''IPPROTO_ESP'', 50),
     (''IPPROTO_AH'', 51),
     (''IPPROTO_MTP'', 92),
     (''IPPROTO_BEETPH'', 94),
     (''IPPROTO_ENCAP'', 98),
     (''IPPROTO_PIM'', 103),
     (''IPPROTO_COMP'', 108),
     (''IPPROTO_SCTP'', 132),
     (''IPPROTO_UDPLITE'', 136),
     (''IPPROTO_MPLS'', 137),
     (''IPPROTO_ETHERNET'', 143),
     (''IPPROTO_RAW'', 255),
     (''IPPROTO_MPTCP'', 262),
     (''IPPROTO_MAX'', 263)]"

definition bpf_map_type_amd64 :: "(string \<times> nat) list" where
  "bpf_map_type_amd64 = [
     (''BPF_MAP_TYPE_UNSPEC'', 0),
     (''BPF_MAP_TYPE_HASH'', 1),
     (''BPF_MAP_TYPE_ARRAY'', 2),
     (''BPF_MAP_TYPE_PROG_ARRAY'', 3),
     (''BPF_MAP_TYPE_PERF_EVENT_ARRAY'', 4),
     (''BPF_MAP_TYPE_PERCPU_HASH'', 5),
     (''BPF_MAP_TYPE_PERCPU_ARRAY'', 6),
     (''BPF_MAP_TYPE_STACK_TRACE'', 7),
     (''BPF_MAP_TYPE_CGROUP_ARRAY'', 8),
     (''BPF_MAP_TYPE_LRU_HASH'', 9),
     (''BPF_MAP_TYPE_LRU_PERCPU_HASH'', 10),
     (''BPF_MAP_TYPE_LPM_TRIE'', 11),
     (''BPF_MAP_TYPE_ARRAY_OF_MAPS'', 12),
     (''BPF_MAP_TYPE_HASH_OF_MAPS'', 13),
     (''BPF_MAP_TYPE_DEVMAP'', 14),
     (''BPF_MAP_TYPE_SOCKMAP'', 15),
     (''BPF_MAP_TYPE_CPUMAP'', 16),
     (''BPF_MAP_TYPE_XSKMAP'', 17),
     (''BPF_MAP_TYPE_SOCKHASH'', 18),
     (''BPF_MAP_TYPE_CGROUP_STORAGE'', 19),
     (''BPF_MAP_TYPE_REUSEPORT_SOCKARRAY'', 20),
     (''BPF_MAP_TYPE_PERCPU_CGROUP_STORAGE'', 21),
     (''BPF_MAP_TYPE_QUEUE'', 22),
     (''BPF_MAP_TYPE_STACK'', 23),
     (''BPF_MAP_TYPE_SK_STORAGE'', 24),
     (''BPF_MAP_TYPE_DEVMAP_HASH'', 25),
     (''BPF_MAP_TYPE_STRUCT_OPS'', 26),
     (''BPF_MAP_TYPE_RINGBUF'', 27),
     (''BPF_MAP_TYPE_INODE_STORAGE'', 28),
     (''BPF_MAP_TYPE_TASK_STORAGE'', 29),
     (''BPF_MAP_TYPE_BLOOM_FILTER'', 30)]"

definition bpf_cmd_amd64 :: "(string \<times> nat) list" where
  "bpf_cmd_amd64 = [
     (''BPF_MAP_CREATE'', 0),
     (''BPF_MAP_LOOKUP_ELEM'', 1),
     (''BPF_MAP_UPDATE_ELEM'', 2),
     (''BPF_MAP_DELETE_ELEM'', 3),
     (''BPF_MAP_GET_NEXT_KEY'', 4),
     (''BPF_PROG_LOAD'', 5),
     (''BPF_OBJ_PIN'', 6),
     (''BPF_OBJ_GET'', 7),
     (''BPF_PROG_ATTACH'', 8),
     (''BPF_PROG_DETACH'', 9),
     (''BPF_PROG_TEST_RUN'', 10),
     (''BPF_PROG_RUN'', 10),
     (''BPF_PROG_GET_NEXT_ID'', 11),
     (''BPF_MAP_GET_NEXT_ID'', 12),
     (''BPF_PROG_GET_FD_BY_ID'', 13),
     (''BPF_MAP_GET_FD_BY_ID'', 14),
     (''BPF_OBJ_GET_INFO_BY_FD'', 15),
     (''BPF_PROG_QUERY'', 16),
     (''BPF_RAW_TRACEPOINT_OPEN'', 17),
     (''BPF_BTF_LOAD'', 18),
     (''BPF_BTF_GET_FD_BY_ID'', 19),
     (''BPF_TASK_FD_QUERY'', 20),
     (''BPF_MAP_LOOKUP_AND_DELETE_ELEM'', 21),
     (''BPF_MAP_FREEZE'', 22),
     (''BPF_BTF_GET_NEXT_ID'', 23),
     (''BPF_MAP_LOOKUP_BATCH'', 24),
     (''BPF_MAP_LOOKUP_AND_DELETE_BATCH'', 25),
     (''BPF_MAP_UPDATE_BATCH'', 26),
     (''BPF_MAP_DELETE_BATCH'', 27),
     (''BPF_LINK_CREATE'', 28),
     (''BPF_LINK_UPDATE'', 29),
     (''BPF_LINK_GET_FD_BY_ID'', 30),
     (''BPF_LINK_GET_NEXT_ID'', 31),
     (''BPF_ENABLE_STATS'', 32),
     (''BPF_ITER_CREATE'', 33),
     (''BPF_LINK_DETACH'', 34),
     (''BPF_PROG_BIND_MAP'', 35)]"

definition bpf_func_id_amd64_part1 :: "(string \<times> nat) list" where
  "bpf_func_id_amd64_part1 = [
     (''BPF_FUNC_unspec'', 0),
     (''BPF_FUNC_map_lookup_elem'', 1),
     (''BPF_FUNC_map_update_elem'', 2),
     (''BPF_FUNC_map_delete_elem'', 3),
     (''BPF_FUNC_probe_read'', 4),
     (''BPF_FUNC_ktime_get_ns'', 5),
     (''BPF_FUNC_trace_printk'', 6),
     (''BPF_FUNC_get_prandom_u32'', 7),
     (''BPF_FUNC_get_smp_processor_id'', 8),
     (''BPF_FUNC_skb_store_bytes'', 9),
     (''BPF_FUNC_l3_csum_replace'', 10),
     (''BPF_FUNC_l4_csum_replace'', 11),
     (''BPF_FUNC_tail_call'', 12),
     (''BPF_FUNC_clone_redirect'', 13),
     (''BPF_FUNC_get_current_pid_tgid'', 14),
     (''BPF_FUNC_get_current_uid_gid'', 15),
     (''BPF_FUNC_get_current_comm'', 16),
     (''BPF_FUNC_get_cgroup_classid'', 17),
     (''BPF_FUNC_skb_vlan_push'', 18),
     (''BPF_FUNC_skb_vlan_pop'', 19),
     (''BPF_FUNC_skb_get_tunnel_key'', 20),
     (''BPF_FUNC_skb_set_tunnel_key'', 21),
     (''BPF_FUNC_perf_event_read'', 22),
     (''BPF_FUNC_redirect'', 23),
     (''BPF_FUNC_get_route_realm'', 24),
     (''BPF_FUNC_perf_event_output'', 25),
     (''BPF_FUNC_skb_load_bytes'', 26),
     (''BPF_FUNC_get_stackid'', 27),
     (''BPF_FUNC_csum_diff'', 28),
     (''BPF_FUNC_skb_get_tunnel_opt'', 29),
     (''BPF_FUNC_skb_set_tunnel_opt'', 30),
     (''BPF_FUNC_skb_change_proto'', 31),
     (''BPF_FUNC_skb_change_type'', 32),
     (''BPF_FUNC_skb_under_cgroup'', 33),
     (''BPF_FUNC_get_hash_recalc'', 34),
     (''BPF_FUNC_get_current_task'', 35),
     (''BPF_FUNC_probe_write_user'', 36),
     (''BPF_FUNC_current_task_under_cgroup'', 37),
     (''BPF_FUNC_skb_change_tail'', 38),
     (''BPF_FUNC_skb_pull_data'', 39),
     (''BPF_FUNC_csum_update'', 40),
     (''BPF_FUNC_set_hash_invalid'', 41),
     (''BPF_FUNC_get_numa_node_id'', 42),
     (''BPF_FUNC_skb_change_head'', 43),
     (''BPF_FUNC_xdp_adjust_head'', 44),
     (''BPF_FUNC_probe_read_str'', 45),
     (''BPF_FUNC_get_socket_cookie'', 46),
     (''BPF_FUNC_get_socket_uid'', 47),
     (''BPF_FUNC_set_hash'', 48),
     (''BPF_FUNC_setsockopt'', 49),
     (''BPF_FUNC_skb_adjust_room'', 50),
     (''BPF_FUNC_redirect_map'', 51),
     (''BPF_FUNC_sk_redirect_map'', 52),
     (''BPF_FUNC_sock_map_update'', 53),
     (''BPF_FUNC_xdp_adjust_meta'', 54),
     (''BPF_FUNC_perf_event_read_value'', 55),
     (''BPF_FUNC_perf_prog_read_value'', 56),
     (''BPF_FUNC_getsockopt'', 57),
     (''BPF_FUNC_override_return'', 58),
     (''BPF_FUNC_sock_ops_cb_flags_set'', 59),
     (''BPF_FUNC_msg_redirect_map'', 60),
     (''BPF_FUNC_msg_apply_bytes'', 61),
     (''BPF_FUNC_msg_cork_bytes'', 62),
     (''BPF_FUNC_msg_pull_data'', 63),
     (''BPF_FUNC_bind'', 64),
     (''BPF_FUNC_xdp_adjust_tail'', 65),
     (''BPF_FUNC_skb_get_xfrm_state'', 66),
     (''BPF_FUNC_get_stack'', 67),
     (''BPF_FUNC_skb_load_bytes_relative'', 68),
     (''BPF_FUNC_fib_lookup'', 69),
     (''BPF_FUNC_sock_hash_update'', 70),
     (''BPF_FUNC_msg_redirect_hash'', 71),
     (''BPF_FUNC_sk_redirect_hash'', 72),
     (''BPF_FUNC_lwt_push_encap'', 73),
     (''BPF_FUNC_lwt_seg6_store_bytes'', 74),
     (''BPF_FUNC_lwt_seg6_adjust_srh'', 75),
     (''BPF_FUNC_lwt_seg6_action'', 76),
     (''BPF_FUNC_rc_repeat'', 77),
     (''BPF_FUNC_rc_keydown'', 78),
     (''BPF_FUNC_skb_cgroup_id'', 79),
     (''BPF_FUNC_get_current_cgroup_id'', 80),
     (''BPF_FUNC_get_local_storage'', 81),
     (''BPF_FUNC_sk_select_reuseport'', 82),
     (''BPF_FUNC_skb_ancestor_cgroup_id'', 83),
     (''BPF_FUNC_sk_lookup_tcp'', 84),
     (''BPF_FUNC_sk_lookup_udp'', 85),
     (''BPF_FUNC_sk_release'', 86),
     (''BPF_FUNC_map_push_elem'', 87),
     (''BPF_FUNC_map_pop_elem'', 88),
     (''BPF_FUNC_map_peek_elem'', 89),
     (''BPF_FUNC_msg_push_data'', 90),
     (''BPF_FUNC_msg_pop_data'', 91),
     (''BPF_FUNC_rc_pointer_rel'', 92),
     (''BPF_FUNC_spin_lock'', 93),
     (''BPF_FUNC_spin_unlock'', 94),
     (''BPF_FUNC_sk_fullsock'', 95),
     (''BPF_FUNC_tcp_sock'', 96),
     (''BPF_FUNC_skb_ecn_set_ce'', 97),
     (''BPF_FUNC_get_listener_sock'', 98),
     (''BPF_FUNC_skc_lookup_tcp'', 99),
     (''BPF_FUNC_tcp_check_syncookie'', 100),
     (''BPF_FUNC_sysctl_get_name'', 101)]"

definition bpf_func_id_amd64_part2 :: "(string \<times> nat) list" where
  "bpf_func_id_amd64_part2 = [
     (''BPF_FUNC_sysctl_get_current_value'', 102),
     (''BPF_FUNC_sysctl_get_new_value'', 103),
     (''BPF_FUNC_sysctl_set_new_value'', 104),
     (''BPF_FUNC_strtol'', 105),
     (''BPF_FUNC_strtoul'', 106),
     (''BPF_FUNC_sk_storage_get'', 107),
     (''BPF_FUNC_sk_storage_delete'', 108),
     (''BPF_FUNC_send_signal'', 109),
     (''BPF_FUNC_tcp_gen_syncookie'', 110),
     (''BPF_FUNC_skb_output'', 111),
     (''BPF_FUNC_probe_read_user'', 112),
     (''BPF_FUNC_probe_read_kernel'', 113),
     (''BPF_FUNC_probe_read_user_str'', 114),
     (''BPF_FUNC_probe_read_kernel_str'', 115),
     (''BPF_FUNC_tcp_send_ack'', 116),
     (''BPF_FUNC_send_signal_thread'', 117),
     (''BPF_FUNC_jiffies64'', 118),
     (''BPF_FUNC_read_branch_records'', 119),
     (''BPF_FUNC_get_ns_current_pid_tgid'', 120),
     (''BPF_FUNC_xdp_output'', 121),
     (''BPF_FUNC_get_netns_cookie'', 122),
     (''BPF_FUNC_get_current_ancestor_cgroup_id'', 123),
     (''BPF_FUNC_sk_assign'', 124),
     (''BPF_FUNC_ktime_get_boot_ns'', 125),
     (''BPF_FUNC_seq_printf'', 126),
     (''BPF_FUNC_seq_write'', 127),
     (''BPF_FUNC_sk_cgroup_id'', 128),
     (''BPF_FUNC_sk_ancestor_cgroup_id'', 129),
     (''BPF_FUNC_ringbuf_output'', 130),
     (''BPF_FUNC_ringbuf_reserve'', 131),
     (''BPF_FUNC_ringbuf_submit'', 132),
     (''BPF_FUNC_ringbuf_discard'', 133),
     (''BPF_FUNC_ringbuf_query'', 134),
     (''BPF_FUNC_csum_level'', 135),
     (''BPF_FUNC_skc_to_tcp6_sock'', 136),
     (''BPF_FUNC_skc_to_tcp_sock'', 137),
     (''BPF_FUNC_skc_to_tcp_timewait_sock'', 138),
     (''BPF_FUNC_skc_to_tcp_request_sock'', 139),
     (''BPF_FUNC_skc_to_udp6_sock'', 140),
     (''BPF_FUNC_get_task_stack'', 141),
     (''BPF_FUNC_load_hdr_opt'', 142),
     (''BPF_FUNC_store_hdr_opt'', 143),
     (''BPF_FUNC_reserve_hdr_opt'', 144),
     (''BPF_FUNC_inode_storage_get'', 145),
     (''BPF_FUNC_inode_storage_delete'', 146),
     (''BPF_FUNC_d_path'', 147),
     (''BPF_FUNC_copy_from_user'', 148),
     (''BPF_FUNC_snprintf_btf'', 149),
     (''BPF_FUNC_seq_printf_btf'', 150),
     (''BPF_FUNC_skb_cgroup_classid'', 151),
     (''BPF_FUNC_redirect_neigh'', 152),
     (''BPF_FUNC_per_cpu_ptr'', 153),
     (''BPF_FUNC_this_cpu_ptr'', 154),
     (''BPF_FUNC_redirect_peer'', 155),
     (''BPF_FUNC_task_storage_get'', 156),
     (''BPF_FUNC_task_storage_delete'', 157),
     (''BPF_FUNC_get_current_task_btf'', 158),
     (''BPF_FUNC_bprm_opts_set'', 159),
     (''BPF_FUNC_ktime_get_coarse_ns'', 160),
     (''BPF_FUNC_ima_inode_hash'', 161),
     (''BPF_FUNC_sock_from_file'', 162),
     (''BPF_FUNC_check_mtu'', 163),
     (''BPF_FUNC_for_each_map_elem'', 164),
     (''BPF_FUNC_snprintf'', 165),
     (''BPF_FUNC_sys_bpf'', 166),
     (''BPF_FUNC_btf_find_by_name_kind'', 167),
     (''BPF_FUNC_sys_close'', 168),
     (''BPF_FUNC_timer_init'', 169),
     (''BPF_FUNC_timer_set_callback'', 170),
     (''BPF_FUNC_timer_start'', 171),
     (''BPF_FUNC_timer_cancel'', 172),
     (''BPF_FUNC_get_func_ip'', 173),
     (''BPF_FUNC_get_attach_cookie'', 174),
     (''BPF_FUNC_task_pt_regs'', 175),
     (''BPF_FUNC_get_branch_snapshot'', 176),
     (''BPF_FUNC_trace_vprintk'', 177),
     (''BPF_FUNC_skc_to_unix_sock'', 178),
     (''BPF_FUNC_kallsyms_lookup_name'', 179),
     (''BPF_FUNC_find_vma'', 180),
     (''BPF_FUNC_loop'', 181),
     (''BPF_FUNC_strncmp'', 182),
     (''BPF_FUNC_get_func_arg'', 183),
     (''BPF_FUNC_get_func_ret'', 184),
     (''BPF_FUNC_get_func_arg_cnt'', 185),
     (''BPF_FUNC_get_retval'', 186),
     (''BPF_FUNC_set_retval'', 187),
     (''BPF_FUNC_xdp_get_buff_len'', 188),
     (''BPF_FUNC_xdp_load_bytes'', 189),
     (''BPF_FUNC_xdp_store_bytes'', 190),
     (''BPF_FUNC_copy_from_user_task'', 191),
     (''BPF_FUNC_skb_set_tstamp'', 192),
     (''BPF_FUNC_ima_file_hash'', 193),
     (''BPF_FUNC_kptr_xchg'', 194),
     (''BPF_FUNC_map_lookup_percpu_elem'', 195),
     (''BPF_FUNC_skc_to_mptcp_sock'', 196),
     (''BPF_FUNC_dynptr_from_mem'', 197),
     (''BPF_FUNC_ringbuf_reserve_dynptr'', 198),
     (''BPF_FUNC_ringbuf_submit_dynptr'', 199),
     (''BPF_FUNC_ringbuf_discard_dynptr'', 200),
     (''BPF_FUNC_dynptr_read'', 201),
     (''BPF_FUNC_dynptr_write'', 202),
     (''BPF_FUNC_dynptr_data'', 203),
     (''__BPF_FUNC_MAX_ID'', 204)]"

definition bpf_func_id_amd64 :: "(string \<times> nat) list" where
  "bpf_func_id_amd64 = bpf_func_id_amd64_part1 @ bpf_func_id_amd64_part2"

definition bpf_update_flags_amd64 :: "(string \<times> nat) list" where
  "bpf_update_flags_amd64 = [
     (''BPF_ANY'', 0),
     (''BPF_NOEXIST'', 1),
     (''BPF_EXIST'', 2),
     (''BPF_F_LOCK'', 4)]"

definition bpf_perf_flags_amd64 :: "(string \<times> nat) list" where
  "bpf_perf_flags_amd64 = [
     (''BPF_F_INDEX_MASK'', 4294967295),
     (''BPF_F_CURRENT_CPU'', 4294967295),
     (''BPF_F_CTXLEN_MASK'', 0)]"

section \<open>Offsets of the members the programs use\<close>

lemma task_struct_amd64_member [layout_simps]:
  "member task_struct_amd64 ''pid'' = Some (2496, pid_t_amd64)"
  "member task_struct_amd64 ''tgid'' = Some (2500, pid_t_amd64)"
  "member task_struct_amd64 ''real_parent'' = Some (2512, (CPtr ''struct task_struct''))"
  by (simp_all add: task_struct_amd64_def task_struct_amd64_part1_def task_struct_amd64_part2_def align_up_def layout_simps)

lemma pt_regs_amd64_member [layout_simps]:
  "member pt_regs_amd64 ''di'' = Some (112, (CBase CULong))"
  "member pt_regs_amd64 ''si'' = Some (104, (CBase CULong))"
  by (simp_all add: pt_regs_amd64_def align_up_def layout_simps)

lemma us_sk_buff_amd64_member [layout_simps]:
  "member us_sk_buff_amd64 ''len'' = Some (0, us_u32_amd64)"
  "member us_sk_buff_amd64 ''data'' = Some (76, us_u32_amd64)"
  "member us_sk_buff_amd64 ''data_end'' = Some (80, us_u32_amd64)"
  by (simp_all add: us_sk_buff_amd64_def align_up_def layout_simps)

lemma ethhdr_amd64_member [layout_simps]:
  "member ethhdr_amd64 ''h_proto'' = Some (12, us_be16_amd64)"
  by (simp_all add: ethhdr_amd64_def align_up_def layout_simps)

lemma iphdr_amd64_member [layout_simps]:
  "member iphdr_amd64 ''protocol'' = Some (9, us_u8_amd64)"
  "member iphdr_amd64 ''saddr'' = Some (12, us_be32_amd64)"
  "member iphdr_amd64 ''daddr'' = Some (16, us_be32_amd64)"
  by (simp_all add: iphdr_amd64_def align_up_def layout_simps)

lemma ipv6hdr_amd64_member [layout_simps]:
  "member ipv6hdr_amd64 ''nexthdr'' = Some (6, us_u8_amd64)"
  "member ipv6hdr_amd64 ''saddr'' = Some (8, in6_addr_amd64)"
  "member ipv6hdr_amd64 ''daddr'' = Some (24, in6_addr_amd64)"
  by (simp_all add: ipv6hdr_amd64_def align_up_def layout_simps)

lemma udphdr_amd64_member [layout_simps]:
  "member udphdr_amd64 ''source'' = Some (0, us_be16_amd64)"
  "member udphdr_amd64 ''dest'' = Some (2, us_be16_amd64)"
  by (simp_all add: udphdr_amd64_def align_up_def layout_simps)

lemma tcphdr_amd64_member [layout_simps]:
  "member tcphdr_amd64 ''source'' = Some (0, us_be16_amd64)"
  "member tcphdr_amd64 ''dest'' = Some (2, us_be16_amd64)"
  "member tcphdr_amd64 ''ack_seq'' = Some (8, us_be32_amd64)"
  by (simp_all add: tcphdr_amd64_def align_up_def layout_simps)

lemma bpf_map_info_amd64_member [layout_simps]:
  "member bpf_map_info_amd64 ''type'' = Some (0, us_u32_amd64)"
  "member bpf_map_info_amd64 ''id'' = Some (4, us_u32_amd64)"
  "member bpf_map_info_amd64 ''key_size'' = Some (8, us_u32_amd64)"
  "member bpf_map_info_amd64 ''value_size'' = Some (12, us_u32_amd64)"
  "member bpf_map_info_amd64 ''max_entries'' = Some (16, us_u32_amd64)"
  "member bpf_map_info_amd64 ''map_flags'' = Some (20, us_u32_amd64)"
  "member bpf_map_info_amd64 ''name'' = Some (24, (CArr (CBase CChar) 16))"
  "member bpf_map_info_amd64 ''ifindex'' = Some (40, us_u32_amd64)"
  "member bpf_map_info_amd64 ''btf_vmlinux_value_type_id'' = Some (44, us_u32_amd64)"
  "member bpf_map_info_amd64 ''netns_dev'' = Some (48, us_u64_amd64)"
  "member bpf_map_info_amd64 ''netns_ino'' = Some (56, us_u64_amd64)"
  "member bpf_map_info_amd64 ''btf_id'' = Some (64, us_u32_amd64)"
  "member bpf_map_info_amd64 ''btf_key_type_id'' = Some (68, us_u32_amd64)"
  "member bpf_map_info_amd64 ''btf_value_type_id'' = Some (72, us_u32_amd64)"
  "member bpf_map_info_amd64 ''map_extra'' = Some (80, us_u64_amd64)"
  by (simp_all add: bpf_map_info_amd64_def align_up_def layout_simps)

lemma bpf_attr_amd64_member [layout_simps]:
  "member bpf_attr_amd64 ''target_fd'' = Some (0, us_u32_amd64)"
  "member bpf_attr_amd64 ''attach_bpf_fd'' = Some (4, us_u32_amd64)"
  "member bpf_attr_amd64 ''attach_type'' = Some (8, us_u32_amd64)"
  "member bpf_attr_amd64 ''attach_flags'' = Some (12, us_u32_amd64)"
  "member bpf_attr_amd64 ''replace_bpf_fd'' = Some (16, us_u32_amd64)"
  by (simp_all add: bpf_attr_amd64_def bpf_attr_amd64_part1_def bpf_attr_amd64_part2_def align_up_def layout_simps)

end
