(* ===== verification/Http.thy ===== *)
theory Http
  imports Bpf_Endian Vmlinux_Amd64 Vmlinux_Aarch64
begin

text \<open>
  \<open>src/ebpf/includes/http.h\<close>: reading the connection tuple and the offset of the application
  payload out of a socket buffer, and recognising the method of an HTTP request.

  The packet is the byte string behind a \<open>struct __sk_buff\<close>. \<open>load_byte\<close>, \<open>load_half\<close> and
  \<open>load_word\<close> are the packet loads of the eBPF instruction set: they return the value in host
  order, and a load outside the packet ends the program with the result 0, which is \<^term>\<open>None\<close>
  here. The header structures come from the \<open>vmlinux.h\<close> of the architecture: the parser takes them
  as a record, and every offset is the one \<open>CLayout\<close> computes. The locale \<open>net_headers\<close> states
  the wire format the parser relies on; both architectures are instances.
\<close>

section \<open>Constants and structures\<close>

definition DEFAULT_HTTP_BUFFER_SIZE :: nat where [c_consts]: "DEFAULT_HTTP_BUFFER_SIZE = 25"
definition LARGE_HTTP_BUFFER_SIZE :: nat where [c_consts]: "LARGE_HTTP_BUFFER_SIZE = 100"
definition ETH_P_IPV6 :: u16 where [c_consts]: "ETH_P_IPV6 = 0x86DD"
definition ETH_P_IP :: u16 where [c_consts]: "ETH_P_IP = 0x0800"
definition ETH_HLEN :: u32 where [c_consts]: "ETH_HLEN = 14"
definition TCP_FLAGS_OFFSET :: u64 where [c_consts]: "TCP_FLAGS_OFFSET = 13"

datatype http_packet_t = HTTP_PACKET_UNKNOWN | HTTP_REQUEST | HTTP_RESPONSE

record conn_tuple_t =
  ct_saddr_h :: u64
  ct_saddr_l :: u64
  ct_daddr_h :: u64
  ct_daddr_l :: u64
  ct_sport :: u16
  ct_dport :: u16
  ct_netns :: u32
  ct_pid :: u32
  ct_metadata :: u32

record skb_info_t =
  tup :: conn_tuple_t
  data_off :: u32
  tcp_flags :: u8

text \<open>\<open>metadata_mask_t\<close>.\<close>

definition CONN_TYPE_UDP :: u32 where [c_consts]: "CONN_TYPE_UDP = 0"
definition CONN_TYPE_TCP :: u32 where [c_consts]: "CONN_TYPE_TCP = 1"
definition CONN_V4 :: u32 where [c_consts]: "CONN_V4 = push_bit 1 0"
definition CONN_V6 :: u32 where [c_consts]: "CONN_V6 = push_bit 1 1"

text \<open>The packet view of the socket buffer context: \<open>len\<close> and the packet bytes.\<close>

record us_sk_buff =
  skb_len :: u32
  skb_bytes :: bytes

section \<open>Packet loads\<close>

definition load_bytes :: "nat \<Rightarrow> us_sk_buff \<Rightarrow> u64 \<Rightarrow> u64 option" where
  "load_bytes n skb off =
     (if unat off + n \<le> length (skb_bytes skb)
      then Some (be_word (slice (unat off) n (skb_bytes skb))) else None)"

definition load_byte :: "us_sk_buff \<Rightarrow> u64 \<Rightarrow> u64 option" where
  "load_byte skb off = load_bytes 1 skb off"

definition load_half :: "us_sk_buff \<Rightarrow> u64 \<Rightarrow> u64 option" where
  "load_half skb off = load_bytes 2 skb off"

definition load_word :: "us_sk_buff \<Rightarrow> u64 \<Rightarrow> u64 option" where
  "load_word skb off = load_bytes 4 skb off"

section \<open>Addresses\<close>

definition read_ipv4_skb :: "byte_order \<Rightarrow> us_sk_buff \<Rightarrow> u64 \<Rightarrow> u64 option" where
  "read_ipv4_skb bo skb off = do {
     addr \<leftarrow> load_word skb off;
     Some (drop_bit 32 (bpf_ntohll bo False addr))
   }"

text \<open>The result is the pair of \<open>*addr_l\<close> and \<open>*addr_h\<close>.\<close>

definition read_ipv6_skb ::
  "byte_order \<Rightarrow> us_sk_buff \<Rightarrow> u64 \<Rightarrow> u64 \<Rightarrow> u64 \<Rightarrow> (u64 \<times> u64) option" where
  "read_ipv6_skb bo skb off addr_l addr_h = do {
     w0 \<leftarrow> load_word skb off;
     w1 \<leftarrow> load_word skb (off + 4);
     let addr_h = bpf_ntohll bo False (addr_h OR push_bit 32 w0 OR w1);
     w2 \<leftarrow> load_word skb (off + 8);
     w3 \<leftarrow> load_word skb (off + 12);
     let addr_l = bpf_ntohll bo False (addr_l OR push_bit 32 w2 OR w3);
     Some (addr_l, addr_h)
   }"

section \<open>The connection tuple\<close>

text \<open>The header structures and protocol numbers of the included \<open>vmlinux.h\<close>.\<close>

record headers =
  ethhdr :: ctype
  iphdr :: ctype
  ipv6hdr :: ctype
  udphdr :: ctype
  tcphdr :: ctype
  ipproto :: "(string \<times> nat) list"

definition amd64_headers :: headers where
  "amd64_headers = \<lparr>ethhdr = ethhdr_amd64, iphdr = iphdr_amd64, ipv6hdr = ipv6hdr_amd64,
     udphdr = udphdr_amd64, tcphdr = tcphdr_amd64, ipproto = ipproto_amd64\<rparr>"

definition aarch64_headers :: headers where
  "aarch64_headers = \<lparr>ethhdr = ethhdr_aarch64, iphdr = iphdr_aarch64, ipv6hdr = ipv6hdr_aarch64,
     udphdr = udphdr_aarch64, tcphdr = tcphdr_aarch64, ipproto = ipproto_aarch64\<rparr>"

text \<open>
  \<open>offsetof\<close> and an enumerator as the integers the expressions use. A designator that names no
  member does not compile; the contract of the headers below says that the ones used exist.
\<close>

definition off :: "ctype \<Rightarrow> string \<Rightarrow> u64" where
  "off t n = of_nat (case offsetof t n of Some k \<Rightarrow> k | None \<Rightarrow> 0)"

definition proto_num :: "headers \<Rightarrow> string \<Rightarrow> u8" where
  "proto_num H n = of_nat (case map_of (ipproto H) n of Some k \<Rightarrow> k | None \<Rightarrow> 0)"

definition skb_info_zero :: skb_info_t where
  "skb_info_zero =
     \<lparr>tup = \<lparr>ct_saddr_h = 0, ct_saddr_l = 0, ct_daddr_h = 0, ct_daddr_l = 0, ct_sport = 0,
        ct_dport = 0, ct_netns = 0, ct_pid = 0, ct_metadata = 0\<rparr>,
      data_off = 0, tcp_flags = 0\<rparr>"

text \<open>The second switch of \<open>read_conn_tuple_skb\<close>: the transport header.\<close>

definition read_conn_tuple_l4 ::
  "headers \<Rightarrow> us_sk_buff \<Rightarrow> skb_info_t \<Rightarrow> u8 \<Rightarrow> (u64 \<times> skb_info_t) option" where
  "read_conn_tuple_l4 H skb info l4_proto =
     (if l4_proto = proto_num H ''IPPROTO_UDP'' then do {
        let info = info\<lparr>tup := (tup info)\<lparr>ct_metadata := ct_metadata (tup info) OR CONN_TYPE_UDP\<rparr>\<rparr>;
        sp \<leftarrow> load_half skb (ucast (data_off info) + off (udphdr H) ''source'');
        dp \<leftarrow> load_half skb (ucast (data_off info) + off (udphdr H) ''dest'');
        let info = info\<lparr>tup := (tup info)\<lparr>ct_sport := ucast sp, ct_dport := ucast dp\<rparr>\<rparr>;
        let info = info\<lparr>data_off := ucast (ucast (data_off info) + (of_nat (sizeof (udphdr H)) :: u64))\<rparr>;
        Some (1, info)
      } else if l4_proto = proto_num H ''IPPROTO_TCP'' then do {
        let info = info\<lparr>tup := (tup info)\<lparr>ct_metadata := ct_metadata (tup info) OR CONN_TYPE_TCP\<rparr>\<rparr>;
        sp \<leftarrow> load_half skb (ucast (data_off info) + off (tcphdr H) ''source'');
        dp \<leftarrow> load_half skb (ucast (data_off info) + off (tcphdr H) ''dest'');
        let info = info\<lparr>tup := (tup info)\<lparr>ct_sport := ucast sp, ct_dport := ucast dp\<rparr>\<rparr>;
        fl \<leftarrow> load_byte skb (ucast (data_off info) + TCP_FLAGS_OFFSET);
        let info = info\<lparr>tcp_flags := ucast fl\<rparr>;
        d \<leftarrow> load_byte skb (ucast (data_off info) + off (tcphdr H) ''ack_seq'' + 4);
        let info = info\<lparr>data_off := ucast (ucast (data_off info) + drop_bit 4 (d AND 0xF0) * 4)\<rparr>;
        Some (1, info)
      } else Some (0, info))"

definition read_conn_tuple_skb ::
  "headers \<Rightarrow> byte_order \<Rightarrow> us_sk_buff \<Rightarrow> (u64 \<times> skb_info_t) option" where
  "read_conn_tuple_skb H bo skb = do {
     let info = skb_info_zero\<lparr>data_off := ETH_HLEN\<rparr>;
     l3 \<leftarrow> load_half skb (off (ethhdr H) ''h_proto'');
     let l3_proto = (ucast l3 :: u16);
     if l3_proto = ETH_P_IP then do {
       l4 \<leftarrow> load_byte skb (ucast (data_off info) + off (iphdr H) ''protocol'');
       let info = info\<lparr>tup := (tup info)\<lparr>ct_metadata := ct_metadata (tup info) OR CONN_V4\<rparr>\<rparr>;
       sa \<leftarrow> read_ipv4_skb bo skb (ucast (data_off info) + off (iphdr H) ''saddr'');
       da \<leftarrow> read_ipv4_skb bo skb (ucast (data_off info) + off (iphdr H) ''daddr'');
       let info = info\<lparr>tup := (tup info)\<lparr>ct_saddr_l := sa, ct_daddr_l := da\<rparr>\<rparr>;
       let info = info\<lparr>data_off := ucast (ucast (data_off info) + (of_nat (sizeof (iphdr H)) :: u64))\<rparr>;
       read_conn_tuple_l4 H skb info (ucast l4)
     } else if l3_proto = ETH_P_IPV6 then do {
       l4 \<leftarrow> load_byte skb (ucast (data_off info) + off (ipv6hdr H) ''nexthdr'');
       let info = info\<lparr>tup := (tup info)\<lparr>ct_metadata := ct_metadata (tup info) OR CONN_V6\<rparr>\<rparr>;
       (sl, sh) \<leftarrow> read_ipv6_skb bo skb (ucast (data_off info) + off (ipv6hdr H) ''saddr'')
                    (ct_saddr_l (tup info)) (ct_saddr_h (tup info));
       (dl, dh) \<leftarrow> read_ipv6_skb bo skb (ucast (data_off info) + off (ipv6hdr H) ''daddr'')
                    (ct_daddr_l (tup info)) (ct_daddr_h (tup info));
       let info = info\<lparr>tup := (tup info)\<lparr>ct_saddr_l := sl, ct_saddr_h := sh,
                    ct_daddr_l := dl, ct_daddr_h := dh\<rparr>\<rparr>;
       let info = info\<lparr>data_off := ucast (ucast (data_off info) + (of_nat (sizeof (ipv6hdr H)) :: u64))\<rparr>;
       read_conn_tuple_l4 H skb info (ucast l4)
     } else Some (0, info)
   }"

section \<open>HTTP methods\<close>

text \<open>
  A pointer to a string literal: the function the literal is written in and its characters.
  Whether two equal literals are one object is left to the compiler; \<open>merged\<close> says that it is so.
\<close>

datatype str_lit = Lit (lit_site: string) (lit_chars: string)

definition lit_bytes :: "str_lit \<Rightarrow> bytes" where
  "lit_bytes l = ascii (lit_chars l) @ [0]"

definition ptr_eq :: "bool \<Rightarrow> str_lit \<Rightarrow> str_lit \<Rightarrow> bool" where
  "ptr_eq merged a b = (if merged then lit_chars a = lit_chars b else a = b)"

text \<open>
  The buffer is an array: \<open>char_at\<close> compares one of its elements and has no value outside the bounds. A
  chain of \<open>&&\<close> stops at the first comparison that fails, so what follows it is not read.
\<close>

definition char_at :: "bytes \<Rightarrow> nat \<Rightarrow> char \<Rightarrow> bool option" where
  "char_at p i c = map_option (\<lambda>d. d = of_char c) (nth_opt p i)"

fun all_of :: "bool option list \<Rightarrow> bool option" where
  "all_of [] = Some True"
| "all_of (None # bs) = None"
| "all_of (Some b # bs) = (if b then all_of bs else Some False)"

fun c_if :: "bool option \<Rightarrow> 'a option \<Rightarrow> 'a option \<Rightarrow> 'a option" where
  "c_if None t e = None"
| "c_if (Some b) t e = (if b then t else e)"

definition get_method :: "bytes \<Rightarrow> str_lit option" where
  "get_method p =
     c_if (all_of [char_at p 0 CHR ''G'', char_at p 1 CHR ''E'', char_at p 2 CHR ''T''])
       (Some (Lit ''get_method'' ''GET'')) (
     c_if (all_of [char_at p 0 CHR ''P'', char_at p 1 CHR ''O'', char_at p 2 CHR ''S'',
         char_at p 3 CHR ''T''])
       (Some (Lit ''get_method'' ''POST'')) (
     c_if (all_of [char_at p 0 CHR ''P'', char_at p 1 CHR ''U'', char_at p 2 CHR ''T''])
       (Some (Lit ''get_method'' ''PUT'')) (
     c_if (all_of [char_at p 0 CHR ''D'', char_at p 1 CHR ''E'', char_at p 2 CHR ''L'',
         char_at p 3 CHR ''E'', char_at p 4 CHR ''T'', char_at p 5 CHR ''E''])
       (Some (Lit ''get_method'' ''DELETE'')) (
     c_if (all_of [char_at p 0 CHR ''H'', char_at p 1 CHR ''E'', char_at p 2 CHR ''A'',
         char_at p 3 CHR ''D''])
       (Some (Lit ''get_method'' ''HEAD'')) (
     c_if (all_of [char_at p 0 CHR ''O'', char_at p 1 CHR ''P'', char_at p 2 CHR ''T'',
         char_at p 3 CHR ''I'', char_at p 4 CHR ''O'', char_at p 5 CHR ''N'',
         char_at p 6 CHR ''S''])
       (Some (Lit ''get_method'' ''OPTIONS'')) (
     c_if (all_of [char_at p 0 CHR ''P'', char_at p 1 CHR ''A'', char_at p 2 CHR ''T'',
         char_at p 3 CHR ''C'', char_at p 4 CHR ''H''])
       (Some (Lit ''get_method'' ''PATCH'')) (
     c_if (all_of [char_at p 0 CHR ''C'', char_at p 1 CHR ''O'', char_at p 2 CHR ''N'',
         char_at p 3 CHR ''N'', char_at p 4 CHR ''E'', char_at p 5 CHR ''C'',
         char_at p 6 CHR ''T''])
       (Some (Lit ''get_method'' ''CONNECT'')) (
     c_if (all_of [char_at p 0 CHR ''T'', char_at p 1 CHR ''R'', char_at p 2 CHR ''A'',
         char_at p 3 CHR ''C'', char_at p 4 CHR ''E''])
       (Some (Lit ''get_method'' ''TRACE'')) (
     Some (Lit ''get_method'' ''UNKNOWN''))))))))))"

section \<open>Revalidating the packet pointers\<close>

text \<open>
  \<open>skb_revalidate_data\<close> keeps two packet pointers \<open>head\<close> and \<open>tail\<close>. \<open>pull\<close> stands for the kernel's
  \<open>bpf_skb_pull_data\<close>: its return code and the \<open>data\<close> and \<open>data_end\<close> of the buffer afterwards.
\<close>

record skb_pointers =
  skb_head :: u64
  skb_tail :: u64

definition skb_revalidate_data ::
  "(u32 \<Rightarrow> int \<times> u64 \<times> u64) \<Rightarrow> skb_pointers \<Rightarrow> u32 \<Rightarrow> bool \<times> skb_pointers" where
  "skb_revalidate_data pull s offset =
     (if skb_tail s < skb_head s + ucast offset then
        (case pull offset of (rc, dat, dat_end) \<Rightarrow>
           if rc < 0 then (False, s)
           else (let s = \<lparr>skb_head = dat, skb_tail = dat_end\<rparr> in
             if skb_tail s < skb_head s + ucast offset then (False, s) else (True, s)))
      else (True, s))"

section \<open>The wire format\<close>

text \<open>
  What the parser relies on: the offsets and sizes of the header structures are the ones of the
  Ethernet, IPv4, IPv6, UDP and TCP wire formats, and the protocol numbers the assigned ones.
\<close>

locale net_headers =
  fixes H :: headers
  assumes eth: "offsetof (ethhdr H) ''h_proto'' = Some 12"
    and ip4: "sizeof (iphdr H) = 20" "offsetof (iphdr H) ''protocol'' = Some 9"
      "offsetof (iphdr H) ''saddr'' = Some 12" "offsetof (iphdr H) ''daddr'' = Some 16"
    and ip6: "sizeof (ipv6hdr H) = 40" "offsetof (ipv6hdr H) ''nexthdr'' = Some 6"
      "offsetof (ipv6hdr H) ''saddr'' = Some 8" "offsetof (ipv6hdr H) ''daddr'' = Some 24"
    and udp: "sizeof (udphdr H) = 8" "offsetof (udphdr H) ''source'' = Some 0"
      "offsetof (udphdr H) ''dest'' = Some 2"
    and tcp: "offsetof (tcphdr H) ''source'' = Some 0" "offsetof (tcphdr H) ''dest'' = Some 2"
      "offsetof (tcphdr H) ''ack_seq'' = Some 8"
    and protos: "map_of (ipproto H) ''IPPROTO_UDP'' = Some 17"
      "map_of (ipproto H) ''IPPROTO_TCP'' = Some 6"
begin

lemma offs:
  "off (ethhdr H) ''h_proto'' = 12"
  "off (iphdr H) ''protocol'' = 9" "off (iphdr H) ''saddr'' = 12" "off (iphdr H) ''daddr'' = 16"
  "off (ipv6hdr H) ''nexthdr'' = 6" "off (ipv6hdr H) ''saddr'' = 8" "off (ipv6hdr H) ''daddr'' = 24"
  "off (udphdr H) ''source'' = 0" "off (udphdr H) ''dest'' = 2"
  "off (tcphdr H) ''source'' = 0" "off (tcphdr H) ''dest'' = 2" "off (tcphdr H) ''ack_seq'' = 8"
  "proto_num H ''IPPROTO_UDP'' = 17" "proto_num H ''IPPROTO_TCP'' = 6"
  by (simp_all add: off_def proto_num_def eth ip4 ip6 udp tcp protos)

end

interpretation amd64: net_headers amd64_headers
  by unfold_locales
    (simp_all add: amd64_headers_def offsetof_def ipproto_amd64_def layout_simps)

interpretation aarch64: net_headers aarch64_headers
  by unfold_locales
    (simp_all add: aarch64_headers_def offsetof_def ipproto_aarch64_def layout_simps)

section \<open>Reference parser\<close>

text \<open>
  The parser written over the packet bytes, with the wire offsets as numbers. \<^term>\<open>None\<close> is a
  packet too short for the loads of its protocol.
\<close>

definition wire_l4 :: "bytes \<Rightarrow> nat \<Rightarrow> u8 \<Rightarrow> skb_info_t \<Rightarrow> (u64 \<times> skb_info_t) option" where
  "wire_l4 pkt base p info =
     (if p = 17 then
        (if length pkt < base + 4 then None
         else Some (1, info\<lparr>tup := (tup info)\<lparr>ct_sport := be_word (slice base 2 pkt),
             ct_dport := be_word (slice (base + 2) 2 pkt)\<rparr>,
           data_off := of_nat (base + 8)\<rparr>))
      else if p = 6 then
        (if length pkt < base + 14 then None
         else Some (1, info\<lparr>tup := (tup info)\<lparr>ct_sport := be_word (slice base 2 pkt),
             ct_dport := be_word (slice (base + 2) 2 pkt),
             ct_metadata := ct_metadata (tup info) OR 1\<rparr>,
           tcp_flags := pkt ! (base + 13),
           data_off := of_nat (base + 4 * (unat (pkt ! (base + 12)) div 16))\<rparr>))
      else Some (0, info\<lparr>data_off := of_nat base\<rparr>))"

definition wire_conn_tuple :: "bytes \<Rightarrow> (u64 \<times> skb_info_t) option" where
  "wire_conn_tuple pkt =
     (if length pkt < 14 then None
      else if be_word (slice 12 2 pkt) = (0x0800 :: u16) then
        (if length pkt < 34 then None
         else wire_l4 pkt 34 (pkt ! 23) (skb_info_zero\<lparr>tup := (tup skb_info_zero)\<lparr>
           ct_saddr_l := le_word (slice 26 4 pkt), ct_daddr_l := le_word (slice 30 4 pkt)\<rparr>\<rparr>))
      else if be_word (slice 12 2 pkt) = (0x86DD :: u16) then
        (if length pkt < 54 then None
         else wire_l4 pkt 54 (pkt ! 20) (skb_info_zero\<lparr>tup := (tup skb_info_zero)\<lparr>
           ct_metadata := 2,
           ct_saddr_h := le_word (slice 22 8 pkt), ct_saddr_l := le_word (slice 30 8 pkt),
           ct_daddr_h := le_word (slice 38 8 pkt), ct_daddr_l := le_word (slice 46 8 pkt)\<rparr>\<rparr>))
      else Some (0, skb_info_zero\<lparr>data_off := 14\<rparr>))"

lemma slice_one: "i < length xs \<Longrightarrow> slice i 1 xs = [xs ! i]"
  by (simp add: slice_def take_Suc_conv_app_nth take_Suc hd_drop_conv_nth numeral_eq_Suc)

lemma slice_append: "slice o' n xs @ slice (o' + n) m xs = slice o' (n + m) xs"
  by (simp only: slice_def take_add drop_drop add.commute [of o' n])

lemma load_byte_eq:
  "load_byte skb o' = (if unat o' < length (skb_bytes skb)
     then Some (ucast (skb_bytes skb ! unat o')) else None)"
  by (simp add: load_byte_def load_bytes_def slice_one flip: One_nat_def)

lemma tcp_doff: "drop_bit 4 (ucast b :: u64) AND 15 = of_nat (unat (b :: u8) div 16)"
proof -
  have "drop_bit 4 (ucast b :: u64) AND mask 4 = ucast (drop_bit 4 b)"
  proof (rule bit_word_eqI)
    fix k
    have "bit b (4 + k) \<Longrightarrow> k < 4"
      using bit_imp_le_length [of b "4 + k"] by simp
    then show "bit (drop_bit 4 (ucast b :: u64) AND mask 4) k = bit (ucast (drop_bit 4 b) :: u64) k"
      by (auto simp: bit_simps)
  qed
  moreover have "(mask 4 :: u64) = 15" by (simp add: mask_eq_exp_minus_1)
  ultimately have "drop_bit 4 (ucast b :: u64) AND 15 = of_nat (unat (drop_bit 4 b))" by simp
  also have "unat (drop_bit 4 b) = unat b div 16" by (simp add: drop_bit_eq_div unat_div)
  finally show ?thesis .
qed

lemma tcp_data_off:
  "ucast (numeral n + (drop_bit 4 (ucast b :: u64) AND 15) * 4 :: u64) =
     (numeral n + 4 * of_nat (unat (b :: u8) div 16) :: u32)"
  using ucast_of_nat_down [where 'a = 64 and 'b = 32, of "numeral n + 4 * (unat b div 16)"]
  by (simp add: tcp_doff mult.commute)

lemma load_half_eq:
  "load_half skb o' = (if unat o' + 2 \<le> length (skb_bytes skb)
     then Some (be_word (slice (unat o') 2 (skb_bytes skb))) else None)"
  by (simp add: load_half_def load_bytes_def)

lemma load_word_eq:
  "load_word skb o' = (if unat o' + 4 \<le> length (skb_bytes skb)
     then Some (be_word (slice (unat o') 4 (skb_bytes skb))) else None)"
  by (simp add: load_word_def load_bytes_def)

lemmas load_simps = load_byte_eq load_half_eq load_word_eq

text \<open>On a little-endian host the address read is the one whose representation is the wire bytes.\<close>

lemma ntohll_be_word:
  assumes "length bs = 8"
  shows "bpf_ntohll ORDER_LITTLE_ENDIAN cp (be_word bs) = le_word bs"
  using swab64.swab_be_word [OF assms] by (simp add: bpf_ntohll_def builtin_eq_swab)

lemma read_ipv4_skb_eq:
  "read_ipv4_skb ORDER_LITTLE_ENDIAN skb o' =
     (if unat o' + 4 \<le> length (skb_bytes skb)
      then Some (le_word (slice (unat o') 4 (skb_bytes skb))) else None)"
proof (cases "unat o' + 4 \<le> length (skb_bytes skb)")
  case True
  define w where "w = slice (unat o') 4 (skb_bytes skb)"
  have w: "length w = 4" using True by (simp add: w_def)
  have "(be_word w :: u64) = be_word (replicate 4 0 @ w)"
    by (simp add: be_word_def)
  moreover have "length (replicate 4 0 @ w) = 8" using w by simp
  ultimately have "bpf_ntohll ORDER_LITTLE_ENDIAN False (be_word w) = le_word (replicate 4 0 @ w)"
    using ntohll_be_word by presburger
  moreover have "drop_bit 32 (le_word (replicate 4 0 @ w) :: u64) = le_word w"
    using drop_bit_le_word [of "replicate 4 0" w, where 'a = 64] w by simp
  ultimately show ?thesis
    using True by (simp add: read_ipv4_skb_def load_word_eq w_def)
qed (simp add: read_ipv4_skb_def load_word_eq)

lemma read_ipv6_skb_eq:
  assumes "unat o' + 16 < 2 ^ 64"
  shows "read_ipv6_skb ORDER_LITTLE_ENDIAN skb o' 0 0 =
     (if unat o' + 16 \<le> length (skb_bytes skb)
      then Some (le_word (slice (unat o' + 8) 8 (skb_bytes skb)),
                 le_word (slice (unat o') 8 (skb_bytes skb))) else None)"
proof -
  let ?pkt = "skb_bytes skb"
  have u: "unat (o' + 4) = unat o' + 4" "unat (o' + 8) = unat o' + 8" "unat (o' + 12) = unat o' + 12"
    using assms by (simp_all add: unat_word_ariths)
  have cat: "(push_bit 32 (be_word (slice i 4 ?pkt)) OR be_word (slice (i + 4) 4 ?pkt) :: u64) =
      be_word (slice i 8 ?pkt)" if "i + 8 \<le> length ?pkt" for i
    using that be_word_append [of "slice i 4 ?pkt" "slice (i + 4) 4 ?pkt", where 'a = 64]
    by (simp add: slice_append)
  have sw: "bpf_ntohll ORDER_LITTLE_ENDIAN False (be_word (slice i 8 ?pkt)) = le_word (slice i 8 ?pkt)"
    if "i + 8 \<le> length ?pkt" for i
    using that by (simp add: ntohll_be_word)
  show ?thesis
    using cat [of "unat o'"] cat [of "unat o' + 8"]
    by (auto simp: read_ipv6_skb_def load_word_eq u sw add.assoc)
qed

context net_headers
begin

lemma read_conn_tuple_l4_eq:
  assumes "data_off info = of_nat base" and "base = 34 \<or> base = 54"
  shows "read_conn_tuple_l4 H skb info p = wire_l4 (skb_bytes skb) base p info"
  using assms
  by (auto simp: read_conn_tuple_l4_def wire_l4_def offs udp load_simps tcp_data_off ucast_ucast_up
      TCP_FLAGS_OFFSET_def CONN_TYPE_UDP_def CONN_TYPE_TCP_def ucast_be_word)

lemma read_conn_tuple_skb_eq:
  "read_conn_tuple_skb H ORDER_LITTLE_ENDIAN skb = wire_conn_tuple (skb_bytes skb)"
proof -
  let ?pkt = "skb_bytes skb"
  have l4:
    "read_conn_tuple_l4 H skb \<lparr>tup = t, data_off = 34, tcp_flags = f\<rparr> p =
       wire_l4 ?pkt 34 p \<lparr>tup = t, data_off = 0, tcp_flags = f\<rparr>"
    "read_conn_tuple_l4 H skb \<lparr>tup = t, data_off = 54, tcp_flags = f\<rparr> p =
       wire_l4 ?pkt 54 p \<lparr>tup = t, data_off = 0, tcp_flags = f\<rparr>" for t f p
    using read_conn_tuple_l4_eq [of "\<lparr>tup = t, data_off = 34, tcp_flags = f\<rparr>" 34 skb p]
      read_conn_tuple_l4_eq [of "\<lparr>tup = t, data_off = 54, tcp_flags = f\<rparr>" 54 skb p]
    by (simp_all add: wire_l4_def)
  have v6: "read_ipv6_skb ORDER_LITTLE_ENDIAN skb 22 0 0 =
      (if 38 \<le> length ?pkt then Some (le_word (slice 30 8 ?pkt), le_word (slice 22 8 ?pkt)) else None)"
    "read_ipv6_skb ORDER_LITTLE_ENDIAN skb 38 0 0 =
      (if 54 \<le> length ?pkt then Some (le_word (slice 46 8 ?pkt), le_word (slice 38 8 ?pkt)) else None)"
    using read_ipv6_skb_eq [of 22 skb] read_ipv6_skb_eq [of 38 skb] by simp_all
  show ?thesis
    by (auto simp: read_conn_tuple_skb_def wire_conn_tuple_def offs ip4 ip6 load_simps
        read_ipv4_skb_eq v6 l4 skb_info_zero_def ucast_be_word ucast_ucast_up c_consts)
qed

end

text \<open>The two architectures the programs are built for.\<close>

definition supported_headers :: "headers list" where
  "supported_headers = [amd64_headers, aarch64_headers]"

lemma supported_net_headers: "H \<in> set supported_headers \<Longrightarrow> net_headers H"
  by (auto simp: supported_headers_def intro: amd64.net_headers_axioms aarch64.net_headers_axioms)

section \<open>Properties\<close>

text \<open>
  C9: \<open>read_conn_tuple_skb\<close>, built against the header structures of either architecture and run on
  a little-endian host, is the reference parser over the packet bytes: it reads the EtherType at
  byte 12, the transport protocol at byte 23 (IPv4) or 20 (IPv6), the addresses, ports, TCP flags
  and the payload offset (after a 20-byte IPv4 or 40-byte IPv6 header, then 8 bytes of UDP or the
  TCP data offset), ends the program exactly on packets too short for these loads, and answers 0
  for every other protocol.
\<close>

theorem read_conn_tuple_skb_wire:
  "read_conn_tuple_skb amd64_headers ORDER_LITTLE_ENDIAN skb = wire_conn_tuple (skb_bytes skb) \<and>
   read_conn_tuple_skb aarch64_headers ORDER_LITTLE_ENDIAN skb = wire_conn_tuple (skb_bytes skb)"
  by (simp add: amd64.read_conn_tuple_skb_eq aarch64.read_conn_tuple_skb_eq)

lemma wire_l4_success:
  "wire_l4 pkt base p info = Some (r, info') \<Longrightarrow> r \<noteq> 0 \<Longrightarrow> base \<le> 54 \<Longrightarrow>
     base \<le> unat (data_off info') \<and> unat (data_off info') \<le> base + 60 \<and> (p = 6 \<or> p = 17)"
proof -
  assume w: "wire_l4 pkt base p info = Some (r, info')" "r \<noteq> 0" "base \<le> 54"
  have d: "unat b div 16 \<le> 15" for b :: u8
  proof -
    have "unat b < 2 ^ LENGTH(8)" by (rule unsigned_less)
    then show ?thesis by simp
  qed
  have "unat (of_nat (base + 8) :: u32) = base + 8"
    "unat (of_nat (base + 4 * (unat b div 16)) :: u32) = base + 4 * (unat b div 16)" for b :: u8
    using w(3) d [of b] by (simp_all only: unat_of_nat) simp_all
  with w d show ?thesis by (auto simp: wire_l4_def split: if_splits)
qed

lemma wire_conn_tuple_success:
  assumes "wire_conn_tuple pkt = Some (r, info)" and "r \<noteq> 0"
  shows "34 \<le> unat (data_off info) \<and> unat (data_off info) \<le> 114"
  using assms by (auto simp: wire_conn_tuple_def split: if_splits dest: wire_l4_success)

lemma wire_conn_tuple_result: "wire_conn_tuple pkt = Some (r, info) \<Longrightarrow> r \<noteq> 0 \<Longrightarrow> r = 1"
  by (auto simp: wire_conn_tuple_def wire_l4_def split: if_splits)

text \<open>
  When \<open>read_conn_tuple_skb\<close> accepts a packet on a little-endian host, the payload offset it
  reports lies between 34 and 114 bytes, so every offset the classifiers derive from it stays far
  from the 32-bit wrap-around and from the negative offsets the packet loads reserve.
\<close>

theorem read_conn_tuple_skb_offset:
  assumes "H \<in> set supported_headers"
    and "read_conn_tuple_skb H ORDER_LITTLE_ENDIAN skb = Some (r, info)" and "r \<noteq> 0"
  shows "34 \<le> unat (data_off info) \<and> unat (data_off info) \<le> 114"
  using assms
  by (simp add: net_headers.read_conn_tuple_skb_eq [OF supported_net_headers] wire_conn_tuple_success)

text \<open>A TCP segment over IPv4 whose header says five words, with 34 bytes of headers before it.\<close>

definition sample_tcp_packet :: bytes where
  "sample_tcp_packet = replicate 12 0 @ [8, 0] @ replicate 9 0 @ [6] @ replicate 10 0 @
     [31, 144, 0, 80] @ replicate 8 0 @ [0x50, 2]"
lemma sample_tcp_packet_parts:
  "length sample_tcp_packet = 48" "slice 12 2 sample_tcp_packet = [8, 0]"
  "sample_tcp_packet ! 23 = 6"
  by (simp_all add: sample_tcp_packet_def slice_def nth_append)

theorem read_conn_tuple_skb_offset_witness:
  "\<exists>r info. read_conn_tuple_skb amd64_headers ORDER_LITTLE_ENDIAN
       \<lparr>skb_len = 48, skb_bytes = sample_tcp_packet\<rparr> = Some (r, info) \<and> r \<noteq> 0 \<and>
     34 \<le> unat (data_off info) \<and> unat (data_off info) \<le> 114"
proof -
  let ?skb = "\<lparr>skb_len = 48, skb_bytes = sample_tcp_packet\<rparr>"
  have "be_word [8, 0] = (0x0800 :: u16)" by (simp add: be_word_def)
  then have "\<exists>info. wire_conn_tuple sample_tcp_packet = Some (1, info)"
    by (simp add: wire_conn_tuple_def wire_l4_def sample_tcp_packet_parts)
  then obtain info where "read_conn_tuple_skb amd64_headers ORDER_LITTLE_ENDIAN ?skb = Some (1, info)"
    by (auto simp: amd64.read_conn_tuple_skb_eq)
  then show ?thesis
    using read_conn_tuple_skb_offset [of amd64_headers ?skb 1 info] by (auto simp: supported_headers_def)
qed

text \<open>The methods in the order \<open>get_method\<close> tries them.\<close>

definition http_methods :: "string list" where
  "http_methods = [''GET'', ''POST'', ''PUT'', ''DELETE'', ''HEAD'', ''OPTIONS'', ''PATCH'',
     ''CONNECT'', ''TRACE'']"

definition known_method :: "bytes \<Rightarrow> string" where
  "known_method p = (case find (\<lambda>m. prefix (ascii m) p) http_methods of Some m \<Rightarrow> m | None \<Rightarrow> ''UNKNOWN'')"

text \<open>The comparisons with the characters of a method decide whether the buffer starts with it.\<close>

lemma all_of_chars:
  "k + length cs \<le> length p \<Longrightarrow>
     all_of (map (\<lambda>i. char_at p (k + i) (cs ! i)) [0..<length cs]) = Some (prefix (ascii cs) (drop k p))"
proof (induction cs arbitrary: k)
  case (Cons c cs)
  have "map (\<lambda>i. char_at p (k + i) ((c # cs) ! i)) [0..<length (c # cs)] =
      char_at p k c # map (\<lambda>i. char_at p (Suc k + i) (cs ! i)) [0..<length cs]"
    by (simp add: upt_conv_Cons map_Suc_upt [symmetric] del: upt_Suc)
  moreover have "drop k p = p ! k # drop (Suc k) p" using Cons.prems by (simp add: Cons_nth_drop_Suc)
  ultimately show ?case
    using Cons.IH [of "Suc k"] Cons.prems by (auto simp: char_at_def)
qed simp

lemma get_method_find:
  assumes "length p = DEFAULT_HTTP_BUFFER_SIZE"
  shows "get_method p = Some (Lit ''get_method'' (known_method p))"
proof -
  have c: "all_of (map (\<lambda>i. char_at p i (cs ! i)) [0..<length cs]) = Some (prefix (ascii cs) p)"
    if "length cs \<le> 7" for cs
    using all_of_chars [of 0 cs p] assms that by (simp add: DEFAULT_HTTP_BUFFER_SIZE_def)
  show ?thesis
    using c [of "''GET''"] c [of "''POST''"] c [of "''PUT''"] c [of "''DELETE''"] c [of "''HEAD''"]
      c [of "''OPTIONS''"] c [of "''PATCH''"] c [of "''CONNECT''"] c [of "''TRACE''"]
    by (simp add: get_method_def known_method_def http_methods_def upt_rec [of _ "Suc _"] eval_nat_numeral del: ascii_Cons ascii_Nil)
qed

lemma http_methods_prefix_free:
  "\<forall>m \<in> set http_methods. \<forall>m' \<in> set http_methods. prefix (ascii m) (ascii m') \<longrightarrow> m = m'"
  by (simp add: http_methods_def)

lemma find_unique:
  assumes "x \<in> set xs" and "P x" and "\<And>y. y \<in> set xs \<Longrightarrow> P y \<Longrightarrow> y = x"
  shows "find P xs = Some x"
proof -
  obtain y where "find P xs = Some y"
    using assms(1,2) by (cases "find P xs") (auto simp: find_None_iff)
  moreover from this have "y \<in> set xs" "P y"
    by (auto simp: find_Some_iff)
  ultimately show ?thesis using assms(3) by simp
qed

lemma get_method_known:
  assumes "m \<in> set http_methods"
  shows "known_method p = m \<longleftrightarrow> prefix (ascii m) p"
proof -
  let ?P = "\<lambda>m. prefix (ascii m) p"
  have uniq: "find ?P http_methods = Some m'" if "m' \<in> set http_methods" "?P m'" for m'
  proof (rule find_unique [of m' _ ?P, OF that])
    fix y
    assume "y \<in> set http_methods" "?P y"
    with that show "y = m'"
      using http_methods_prefix_free prefix_same_cases [of "ascii m'" p "ascii y"] by metis
  qed
  have "?P m" if "find ?P http_methods = Some m"
    using that by (auto simp: find_Some_iff)
  moreover have "m \<noteq> ''UNKNOWN''" using assms by (auto simp: http_methods_def)
  ultimately show ?thesis
    using uniq [OF assms] by (auto simp: known_method_def split: option.splits)
qed

lemma get_method_unknown:
  "known_method p = ''UNKNOWN'' \<longleftrightarrow> (\<forall>m \<in> set http_methods. \<not> prefix (ascii m) p)"
proof -
  have "''UNKNOWN'' \<notin> set http_methods" by (simp add: http_methods_def)
  then show ?thesis
    by (auto simp: known_method_def find_None_iff find_Some_iff split: option.splits
        dest: nth_mem)
qed

lemma get_method_cases: "known_method p \<in> set http_methods \<union> {''UNKNOWN''}"
  by (auto simp: known_method_def find_Some_iff split: option.splits)

text \<open>
  \<open>get_method\<close> returns the HTTP method the captured payload starts with, and \<open>UNKNOWN\<close>
  exactly when it starts with none of the nine; the order of the tests does not matter, since no
  method is a prefix of another.
\<close>

theorem get_method_prefix:
  assumes "length p = DEFAULT_HTTP_BUFFER_SIZE"
  shows "\<exists>l. get_method p = Some l \<and>
    (\<forall>m \<in> set http_methods. lit_chars l = m \<longleftrightarrow> prefix (ascii m) p) \<and>
    (lit_chars l = ''UNKNOWN'' \<longleftrightarrow> (\<forall>m \<in> set http_methods. \<not> prefix (ascii m) p))"
  using get_method_known get_method_unknown by (simp add: get_method_find [OF assms])

theorem get_method_prefix_witness:
  "\<exists>l. get_method (ascii ''POST /a HTTP/1.1'' @ replicate 9 0) = Some l \<and> lit_chars l = ''POST''"
proof -
  let ?p = "ascii ''POST /a HTTP/1.1'' @ replicate 9 0 :: bytes"
  have "''POST'' \<in> set http_methods" by (simp add: http_methods_def)
  moreover have "prefix (ascii ''POST'') ?p" by simp
  ultimately show ?thesis
    using get_method_prefix [of ?p] by (auto simp: DEFAULT_HTTP_BUFFER_SIZE_def)
qed

text \<open>
  \<open>skb_revalidate_data\<close> answers true exactly when the packet pointers it leaves behind
  cover the requested offset, whatever the kernel's pull helper does.
\<close>

theorem skb_revalidate_data_covers:
  "fst (skb_revalidate_data pull s offset) \<longleftrightarrow>
     skb_head (snd (skb_revalidate_data pull s offset)) + ucast offset
       \<le> skb_tail (snd (skb_revalidate_data pull s offset))"
  by (auto simp: skb_revalidate_data_def Let_def split: prod.splits)

text \<open>
  On a big-endian host \<open>read_ipv4_skb\<close> loses the address: the conversion to network order is
  the identity there, and the shift by 32 bits then clears the 32-bit value that was loaded. (Both
  supported architectures are little-endian.)
\<close>

theorem read_ipv4_skb_big_endian:
  assumes "unat o' + 4 \<le> length (skb_bytes skb)"
  shows "read_ipv4_skb ORDER_BIG_ENDIAN skb o' = Some 0"
proof -
  define w where "w = slice (unat o') 4 (skb_bytes skb)"
  have "length w = 4" using assms by (simp add: w_def)
  then have "drop_bit 32 (be_word w :: u64) = 0"
  proof (intro bit_word_eqI)
    fix k :: nat
    have "\<not> (32 + k) div 8 < 4" by presburger
    then show "bit (drop_bit 32 (be_word w :: u64)) k = bit 0 k"
      using \<open>length w = 4\<close> by (simp add: bit_drop_bit_eq be_word_def bit_le_word)
  qed
  then show ?thesis
    using assms by (simp add: read_ipv4_skb_def load_word_eq bpf_ntohll_def w_def)
qed
theorem read_ipv4_skb_big_endian_witness:
  "read_ipv4_skb ORDER_BIG_ENDIAN \<lparr>skb_len = 4, skb_bytes = [10, 0, 0, 1]\<rparr> 0 = Some 0"
  by (rule read_ipv4_skb_big_endian) simp

end
