(* ===== verification/Tc_Filter.thy ===== *)
theory Tc_Filter
  imports Http
begin

text \<open>
  \<open>src/ebpf/network-tc-filter/injection.bpf.c\<close>: the two tc classifiers that select HTTP requests by
  method and by path. A classifier parses the packet, captures the head of the payload, and compares
  it with the filters user space stored in the array maps \<open>filter_methods\<close> and \<open>filter_paths\<close>.

  The kernel's helper functions are the fields of the record \<open>helpers\<close>. A read outside an array of
  the program is \<^term>\<open>None\<close> in the loops and \<open>Bad_access\<close> in the classifiers, and a packet load
  outside the packet ends the program (\<open>Aborted\<close>). The locale \<open>prefix_scan\<close> is the contract the two
  validation loops share.
\<close>

section \<open>Constants, maps and helpers\<close>

definition MAX_PATH_LEN :: nat where [c_consts]: "MAX_PATH_LEN = 90"
definition MAX_METHOD_LEN :: nat where [c_consts]: "MAX_METHOD_LEN = 8"
definition MAX_PATHS_ENTRIES :: nat where [c_consts]: "MAX_PATHS_ENTRIES = 20"
definition MAX_METHODS_ENTRIES :: nat where [c_consts]: "MAX_METHODS_ENTRIES = 9"

text \<open>The declaration of a map: its name, type, number of entries and the size of a value.\<close>

record bpf_map_def =
  map_name :: string
  map_type :: string
  max_entries :: nat
  value_size :: nat

definition filter_methods :: bpf_map_def where
  "filter_methods = \<lparr>map_name = ''filter_methods'', map_type = ''BPF_MAP_TYPE_ARRAY'',
     max_entries = MAX_METHODS_ENTRIES, value_size = MAX_METHOD_LEN\<rparr>"

definition filter_paths :: bpf_map_def where
  "filter_paths = \<lparr>map_name = ''filter_paths'', map_type = ''BPF_MAP_TYPE_ARRAY'',
     max_entries = MAX_PATHS_ENTRIES, value_size = MAX_PATH_LEN\<rparr>"

text \<open>
  \<open>bpf_map_lookup_elem\<close> gives the address of an element (0 for a missing one); the two probe reads
  give the return code and the contents of the destination buffer afterwards. The source of the
  string read is an object of the program, given by its bytes.
\<close>

record helpers =
  bpf_map_lookup_elem :: "bpf_map_def \<Rightarrow> u32 \<Rightarrow> u64"
  bpf_probe_read_kernel :: "nat \<Rightarrow> u64 \<Rightarrow> int \<times> bytes"
  bpf_probe_read_kernel_str :: "nat \<Rightarrow> bytes \<Rightarrow> int \<times> bytes"

section \<open>Validating a path\<close>

text \<open>The inner loop, from index \<open>j\<close>: does the expected path end before it differs?\<close>

function path_prefix_loop :: "bytes \<Rightarrow> bytes \<Rightarrow> nat \<Rightarrow> bool option" where
  "path_prefix_loop request_path expected_path j =
     (if j < MAX_PATH_LEN then do {
        c \<leftarrow> nth_opt expected_path j;
        if c = 0 then Some True
        else do {
          d \<leftarrow> nth_opt request_path j;
          if c \<noteq> d then Some False else path_prefix_loop request_path expected_path (Suc j)
        }
      } else Some False)"
  by pat_completeness auto
termination by (relation "measure (\<lambda>(_, _, j). MAX_PATH_LEN - j)") auto

declare path_prefix_loop.simps [simp del]

definition path_entry :: "helpers \<Rightarrow> nat \<Rightarrow> int \<times> bytes" where
  "path_entry K i =
     bpf_probe_read_kernel K MAX_PATH_LEN (bpf_map_lookup_elem K filter_paths (of_nat i))"

definition request_path_of :: "helpers \<Rightarrow> bytes \<Rightarrow> bytes" where
  "request_path_of K path = snd (bpf_probe_read_kernel_str K MAX_PATH_LEN path)"

function validate_path_from :: "helpers \<Rightarrow> bytes \<Rightarrow> nat \<Rightarrow> bool option" where
  "validate_path_from K path i =
     (if i < MAX_PATHS_ENTRIES then
        (case path_entry K i of (err, expected_path) \<Rightarrow>
           if err \<noteq> 0 then Some False
           else do {
             c \<leftarrow> nth_opt expected_path 0;
             if i = 0 \<and> c = 0 then Some True
             else if c = 0 then Some False
             else do {
               m \<leftarrow> path_prefix_loop (request_path_of K path) expected_path 0;
               if m then Some True else validate_path_from K path (Suc i)
             }
           })
      else Some False)"
  by pat_completeness auto
termination by (relation "measure (\<lambda>(_, _, i). MAX_PATHS_ENTRIES - i)") auto

declare validate_path_from.simps [simp del]

definition validate_path :: "helpers \<Rightarrow> bytes \<Rightarrow> bool option" where
  "validate_path K path = validate_path_from K path 0"

section \<open>Validating a method\<close>

function method_prefix_loop :: "bytes \<Rightarrow> bytes \<Rightarrow> nat \<Rightarrow> bool option" where
  "method_prefix_loop meth expected_method j =
     (if j < MAX_METHOD_LEN then do {
        c \<leftarrow> nth_opt expected_method j;
        if c = 0 then Some True
        else do {
          d \<leftarrow> nth_opt meth j;
          if c \<noteq> d then Some False else method_prefix_loop meth expected_method (Suc j)
        }
      } else Some False)"
  by pat_completeness auto
termination by (relation "measure (\<lambda>(_, _, j). MAX_METHOD_LEN - j)") auto

declare method_prefix_loop.simps [simp del]

definition method_entry :: "helpers \<Rightarrow> nat \<Rightarrow> int \<times> bytes" where
  "method_entry K i =
     bpf_probe_read_kernel K MAX_METHOD_LEN (bpf_map_lookup_elem K filter_methods (of_nat i))"

function validate_method_from :: "helpers \<Rightarrow> bytes \<Rightarrow> nat \<Rightarrow> bool option" where
  "validate_method_from K meth i =
     (if i < MAX_METHODS_ENTRIES then
        (case method_entry K i of (err, expected_method) \<Rightarrow>
           if err \<noteq> 0 then Some False
           else do {
             c \<leftarrow> nth_opt expected_method 0;
             if i = 0 \<and> c = 0 then Some True
             else if c = 0 then Some False
             else do {
               m \<leftarrow> method_prefix_loop meth expected_method 0;
               if m then Some True else validate_method_from K meth (Suc i)
             }
           })
      else Some False)"
  by pat_completeness auto
termination by (relation "measure (\<lambda>(_, _, i). MAX_METHODS_ENTRIES - i)") auto

declare validate_method_from.simps [simp del]

definition validate_method :: "helpers \<Rightarrow> bytes \<Rightarrow> bool option" where
  "validate_method K meth = validate_method_from K meth 0"

section \<open>The classifiers\<close>

datatype verdict = Returned int | Aborted | Bad_access

text \<open>What tc sees: a program ended by a packet load returns 0.\<close>

fun verdict_code :: "verdict \<Rightarrow> int" where
  "verdict_code (Returned r) = r"
| "verdict_code Aborted = 0"
| "verdict_code Bad_access = 0"

text \<open>
  The loop that captures the first \<open>n\<close> bytes of the payload in the buffer \<open>p\<close>, from index \<open>i\<close>: a load
  outside the packet ends the program, a store outside the buffer is an access out of bounds.
\<close>

definition set_opt :: "'a list \<Rightarrow> nat \<Rightarrow> 'a \<Rightarrow> 'a list option" where
  "set_opt xs i x = (if i < length xs then Some (xs[i := x]) else None)"

function capture :: "us_sk_buff \<Rightarrow> u32 \<Rightarrow> nat \<Rightarrow> bytes \<Rightarrow> nat \<Rightarrow> verdict + bytes" where
  "capture skb doff n p i =
     (if i < n then
        (case load_byte skb (ucast (doff + of_nat i)) of
           None \<Rightarrow> Inl Aborted
         | Some b \<Rightarrow>
             (case set_opt p i (ucast b) of
                None \<Rightarrow> Inl Bad_access
              | Some p \<Rightarrow> capture skb doff n p (Suc i)))
      else Inr p)"
  by pat_completeness auto
termination by (relation "measure (\<lambda>(_, _, n, _, i). n - i)") auto

declare capture.simps [simp del]

text \<open>The buffers are not initialised; their first contents, here zeros, are overwritten before any is read.\<close>

definition cls_classifier_methods ::
  "headers \<Rightarrow> byte_order \<Rightarrow> bool \<Rightarrow> helpers \<Rightarrow> us_sk_buff \<Rightarrow> verdict" where
  "cls_classifier_methods H bo merged K skb =
     (case read_conn_tuple_skb H bo skb of
        None \<Rightarrow> Aborted
      | Some (r, skb_info) \<Rightarrow>
          if r = 0 then Returned 0
          else if skb_len skb - data_off skb_info < of_nat DEFAULT_HTTP_BUFFER_SIZE then Returned 0
          else (case capture skb (data_off skb_info) DEFAULT_HTTP_BUFFER_SIZE (replicate DEFAULT_HTTP_BUFFER_SIZE 0) 0 of
             Inl v \<Rightarrow> v
           | Inr p \<Rightarrow>
               (case get_method p of
                  None \<Rightarrow> Bad_access
                | Some meth \<Rightarrow>
                    if ptr_eq merged meth (Lit ''cls_classifier_methods'' ''UNKNOWN'') then Returned 0
                    else (case validate_method K (lit_bytes meth) of
                       None \<Rightarrow> Bad_access
                     | Some True \<Rightarrow> Returned (-1)
                     | Some False \<Rightarrow> Returned 0))))"

text \<open>
  Extracting the path: the loop that looks for the first space, and the loop that copies up to the
  next one. Array accesses are bounds-checked.
\<close>

function copy_path :: "bytes \<Rightarrow> nat \<Rightarrow> bytes \<Rightarrow> nat \<Rightarrow> (bytes \<times> nat) option" where
  "copy_path p i path path_length =
     (if i < LARGE_HTTP_BUFFER_SIZE then do {
        c \<leftarrow> nth_opt p i;
        if c \<noteq> of_char CHR '' '' \<and> path_length < MAX_PATH_LEN - 1 then do {
          path \<leftarrow> set_opt path path_length c;
          copy_path p (Suc i) path (Suc path_length)
        } else Some (path, path_length)
      } else Some (path, path_length))"
  by pat_completeness auto
termination by (relation "measure (\<lambda>(_, i, _, _). LARGE_HTTP_BUFFER_SIZE - i)") auto

declare copy_path.simps [simp del]

function extract_path_from :: "bytes \<Rightarrow> nat \<Rightarrow> bytes \<Rightarrow> bytes option" where
  "extract_path_from p i path =
     (if i < LARGE_HTTP_BUFFER_SIZE then do {
        c \<leftarrow> nth_opt p i;
        if c = of_char CHR '' '' then do {
          (path, path_length) \<leftarrow> copy_path p (Suc i) path 0;
          set_opt path path_length 0
        } else extract_path_from p (Suc i) path
      } else Some path)"
  by pat_completeness auto
termination by (relation "measure (\<lambda>(_, i, _). LARGE_HTTP_BUFFER_SIZE - i)") auto

declare extract_path_from.simps [simp del]

definition extract_path :: "bytes \<Rightarrow> bytes option" where
  "extract_path p = extract_path_from p 0 (replicate MAX_PATH_LEN 0)"

definition cls_classifier_paths ::
  "headers \<Rightarrow> byte_order \<Rightarrow> helpers \<Rightarrow> us_sk_buff \<Rightarrow> verdict" where
  "cls_classifier_paths H bo K skb =
     (case read_conn_tuple_skb H bo skb of
        None \<Rightarrow> Aborted
      | Some (r, skb_info) \<Rightarrow>
          if r = 0 then Returned 0
          else if skb_len skb - data_off skb_info < of_nat LARGE_HTTP_BUFFER_SIZE then Returned 0
          else (case capture skb (data_off skb_info) LARGE_HTTP_BUFFER_SIZE (replicate LARGE_HTTP_BUFFER_SIZE 0) 0 of
             Inl v \<Rightarrow> v
           | Inr p \<Rightarrow>
               (case extract_path p of
                  None \<Rightarrow> Bad_access
                | Some path \<Rightarrow>
                    (case validate_path K path of
                       None \<Rightarrow> Bad_access
                     | Some True \<Rightarrow> Returned (-1)
                     | Some False \<Rightarrow> Returned 0))))"

section \<open>What the filters mean\<close>

text \<open>
  The value of a map entry is a C string in a buffer of fixed size. The filters in force are the
  entries before the first empty one; when the first entry is empty everything passes. A filter with
  no terminating NUL never matches.
\<close>

definition active_filters :: "bytes list \<Rightarrow> bytes list" where
  "active_filters vs = takeWhile (\<lambda>v. c_str v \<noteq> []) vs"

definition filter_allows :: "bytes list \<Rightarrow> bytes \<Rightarrow> bool" where
  "filter_allows vs s \<longleftrightarrow>
     (vs \<noteq> [] \<and> c_str (hd vs) = []) \<or>
     (\<exists>v \<in> set (active_filters vs). 0 \<in> set v \<and> prefix (c_str v) s)"

text \<open>The entries a scan gets to see: those before the first one that cannot be read.\<close>

definition readable :: "nat \<Rightarrow> (nat \<Rightarrow> int \<times> bytes) \<Rightarrow> bytes list" where
  "readable n entry = map snd (takeWhile (\<lambda>r. fst r = 0) (map entry [0..<n]))"

section \<open>The contract of the two scans\<close>

locale prefix_scan =
  fixes max_len max_n :: nat
    and entry :: "nat \<Rightarrow> int \<times> bytes"
    and subject :: bytes
    and inner :: "bytes \<Rightarrow> nat \<Rightarrow> bool option"
    and scan :: "nat \<Rightarrow> bool option"
  assumes max_len: "0 < max_len"
    and inner_unfold: "inner e j =
      (if j < max_len then do {
         c \<leftarrow> nth_opt e j;
         if c = 0 then Some True
         else do { d \<leftarrow> nth_opt subject j; if c \<noteq> d then Some False else inner e (Suc j) }
       } else Some False)"
    and scan_unfold: "scan i =
      (if i < max_n then
         (case entry i of (err, e) \<Rightarrow>
            if err \<noteq> 0 then Some False
            else do {
              c \<leftarrow> nth_opt e 0;
              if i = 0 \<and> c = 0 then Some True
              else if c = 0 then Some False
              else do { m \<leftarrow> inner e 0; if m then Some True else scan (Suc i) }
            })
       else Some False)"
begin

text \<open>The inner loop decides the prefix relation and stays inside a terminated subject.\<close>

lemma inner_spec:
  assumes "length e = j + length f" and "e = take j e @ f" and "length e = max_len"
    and "drop j subject = s" and "j \<le> length subject" and "0 \<in> set s"
  shows "inner e j = Some (0 \<in> set f \<and> prefix (c_str f) (c_str s))"
  using assms
proof (induction f arbitrary: j s)
  case Nil
  then show ?case by (subst inner_unfold) simp
next
  case (Cons c f)
  from Cons.prems obtain d s' where s: "s = d # s'" by (cases s) auto
  have j: "j < max_len" "j < length subject" "e ! j = c" "subject ! j = d"
  proof -
    show "j < max_len" using Cons.prems by simp
    show "j < length subject" using Cons.prems s by (cases "j < length subject") auto
    then show "subject ! j = d" using Cons.prems(4) s by (simp add: Cons_nth_drop_Suc [symmetric])
    have "e ! j = (take j e @ c # f) ! j" using Cons.prems(2) by simp
    also have "\<dots> = c" using Cons.prems(1) by (simp add: nth_append)
    finally show "e ! j = c" .
  qed
  have tk: "take (Suc j) e = take j e @ [c]"
    using j Cons.prems(3) by (simp add: take_Suc_conv_app_nth)
  have IH: "inner e (Suc j) = Some (0 \<in> set f \<and> prefix (c_str f) (c_str s'))"
    if "0 \<in> set s'"
  proof (rule Cons.IH)
    show "e = take (Suc j) e @ f" using Cons.prems(2) tk by simp
    show "drop (Suc j) subject = s'" using Cons.prems(4) s by (metis drop_Suc list.sel(3) tl_drop)
  qed (use Cons.prems j that in auto)
  show ?case
    by (subst inner_unfold) (use IH Cons.prems(3,6) j s in \<open>auto simp: c_str_Cons\<close>)
qed

lemma inner_prefix:
  assumes "length e = max_len" and "0 \<in> set subject"
  shows "inner e 0 = Some (0 \<in> set e \<and> prefix (c_str e) (c_str subject))"
  using assms inner_spec [of e 0 e subject] by simp

lemma scan_tail:
  assumes "\<And>k. k < max_n \<Longrightarrow> length (snd (entry k)) = max_len" and "0 \<in> set subject" and "0 < i"
  shows "scan i = Some (\<exists>v \<in> set (active_filters (map snd
           (takeWhile (\<lambda>r. fst r = 0) (map entry [i..<max_n])))). 0 \<in> set v \<and> prefix (c_str v) (c_str subject))"
  using assms(3)
proof (induction "max_n - i" arbitrary: i)
  case 0
  then show ?case by (subst scan_unfold) (simp add: active_filters_def)
next
  case (Suc n)
  then have i: "i < max_n" by simp
  obtain err e where e: "entry i = (err, e)" by fastforce
  from assms(1) [OF i] e max_len have l: "length e = max_len" "e \<noteq> []" by auto
  then have hd: "c_str e = [] \<longleftrightarrow> e ! 0 = 0" by (cases e) (auto simp: c_str_Cons)
  have IH: "scan (Suc i) = Some (\<exists>v \<in> set (active_filters (map snd
      (takeWhile (\<lambda>r. fst r = 0) (map entry [Suc i..<max_n])))). 0 \<in> set v \<and> prefix (c_str v) (c_str subject))"
    using Suc by simp
  have up: "[i..<max_n] = i # [Suc i..<max_n]" using i by (rule upt_conv_Cons)
  show ?case
    by (subst scan_unfold)
      (use Suc.prems i l hd in \<open>auto simp: e up IH inner_prefix assms(2) active_filters_def nth_opt_def\<close>)
qed

lemma scan_allows:
  assumes "\<And>k. k < max_n \<Longrightarrow> length (snd (entry k)) = max_len" and "0 \<in> set subject"
  shows "scan 0 = Some (filter_allows (readable max_n entry) (c_str subject))"
proof (cases "0 < max_n")
  case False
  then show ?thesis
    by (subst scan_unfold) (simp add: filter_allows_def readable_def active_filters_def)
next
  case True
  obtain err e where e: "entry 0 = (err, e)" by fastforce
  from assms(1) [OF True] e max_len have l: "length e = max_len" "e \<noteq> []" by auto
  then have hd: "c_str e = [] \<longleftrightarrow> e ! 0 = 0" by (cases e) (auto simp: c_str_Cons)
  have up: "[0..<max_n] = 0 # [1..<max_n]" using True by (simp add: upt_conv_Cons)
  show ?thesis
    by (subst scan_unfold)
      (use True l hd scan_tail [OF assms, of 1] in
        \<open>auto simp: e up inner_prefix assms(2) filter_allows_def readable_def active_filters_def nth_opt_def\<close>)
qed

end

interpretation path_scan: prefix_scan MAX_PATH_LEN MAX_PATHS_ENTRIES "path_entry K"
  "request_path_of K path" "path_prefix_loop (request_path_of K path)" "validate_path_from K path"
  for K path
  by unfold_locales
    (simp add: MAX_PATH_LEN_def, subst path_prefix_loop.simps, simp,
     subst validate_path_from.simps, simp)

interpretation method_scan: prefix_scan MAX_METHOD_LEN MAX_METHODS_ENTRIES "method_entry K"
  meth "method_prefix_loop meth" "validate_method_from K meth"
  for K meth
  by unfold_locales
    (simp add: MAX_METHOD_LEN_def, subst method_prefix_loop.simps, simp,
     subst validate_method_from.simps, simp)

section \<open>Behaviour of the helpers the program relies on\<close>

text \<open>
  A probe read fills its buffer (with zeros when it fails); the string read copies a C string,
  shortened to the buffer, and terminates it; an array map hands out every one of its entries.
\<close>

definition probe_reads_fill :: "helpers \<Rightarrow> bool" where
  "probe_reads_fill K \<longleftrightarrow> (\<forall>n a. length (snd (bpf_probe_read_kernel K n a)) = n)"

definition str_reads_copy :: "helpers \<Rightarrow> bool" where
  "str_reads_copy K \<longleftrightarrow> (\<forall>n s. 0 < n \<longrightarrow> 0 \<in> set s \<longrightarrow>
     0 \<in> set (snd (bpf_probe_read_kernel_str K n s)) \<and>
     c_str (snd (bpf_probe_read_kernel_str K n s)) = take (n - 1) (c_str s))"

definition array_holds :: "helpers \<Rightarrow> bpf_map_def \<Rightarrow> bytes list \<Rightarrow> bool" where
  "array_holds K m vs \<longleftrightarrow> length vs = max_entries m \<and>
     (\<forall>i < max_entries m. bpf_probe_read_kernel K (value_size m) (bpf_map_lookup_elem K m (of_nat i))
        = (0, vs ! i))"

lemma readable_all:
  assumes "length vs = n" and "\<And>i. i < n \<Longrightarrow> entry i = (0, vs ! i)"
  shows "readable n entry = vs"
proof -
  have "map entry [0..<n] = map (Pair 0) vs"
    using assms by (intro nth_equalityI) auto
  then show ?thesis by (simp add: readable_def takeWhile_map comp_def)
qed

lemma readable_array:
  "array_holds K filter_paths vs \<Longrightarrow> readable MAX_PATHS_ENTRIES (path_entry K) = vs"
  "array_holds K filter_methods vs \<Longrightarrow> readable MAX_METHODS_ENTRIES (method_entry K) = vs"
  by (auto simp: array_holds_def filter_paths_def filter_methods_def path_entry_def method_entry_def
      intro!: readable_all)

lemma validate_path_eq:
  assumes "probe_reads_fill K" and "str_reads_copy K" and "0 \<in> set path"
  shows "validate_path K path =
    Some (filter_allows (readable MAX_PATHS_ENTRIES (path_entry K)) (take (MAX_PATH_LEN - 1) (c_str path)))"
  using assms path_scan.scan_allows [of K path]
  by (simp add: validate_path_def probe_reads_fill_def str_reads_copy_def path_entry_def
      request_path_of_def MAX_PATH_LEN_def)

lemma validate_method_eq:
  assumes "probe_reads_fill K" and "0 \<in> set meth"
  shows "validate_method K meth =
    Some (filter_allows (readable MAX_METHODS_ENTRIES (method_entry K)) (c_str meth))"
  using assms method_scan.scan_allows [of K meth]
  by (simp add: validate_method_def probe_reads_fill_def method_entry_def)

section \<open>The payload capture and the request target\<close>

lemma capture_from:
  assumes "unat doff + n < 2 ^ 32" and "i \<le> n" and "length p = n"
  shows "capture skb doff n p i =
    (if i = n \<or> unat doff + n \<le> length (skb_bytes skb)
     then Inr (take i p @ slice (unat doff + i) (n - i) (skb_bytes skb)) else Inl Aborted)"
  using assms(2,3)
proof (induction "n - i" arbitrary: i p)
  case 0
  then show ?case by (subst capture.simps) (simp add: slice_def)
next
  case (Suc k)
  let ?bs = "skb_bytes skb"
  have i: "i < n" using Suc.hyps(2) by simp
  have u: "unat (ucast (doff + of_nat i) :: u64) = unat doff + i"
    using Suc.hyps(2) assms(1) by (simp add: unat_ucast_up unat_word_ariths unat_of_nat)
  show ?case
  proof (cases "unat doff + i < length ?bs")
    case True
    let ?p = "p[i := ?bs ! (unat doff + i)]"
    have "capture skb doff n p i = capture skb doff n ?p (Suc i)"
      using i Suc.prems True u by (subst capture.simps) (simp add: load_byte_eq ucast_ucast_up set_opt_def)
    also have "\<dots> = (if Suc i = n \<or> unat doff + n \<le> length ?bs
        then Inr (take (Suc i) ?p @ slice (unat doff + Suc i) (n - Suc i) ?bs) else Inl Aborted)"
      using Suc.hyps(2) Suc.prems by (intro Suc.hyps(1)) auto
    also have "take (Suc i) ?p = take i p @ [?bs ! (unat doff + i)]"
      using Suc.hyps(2) Suc.prems by (simp add: take_Suc_conv_app_nth)
    finally show ?thesis
      using Suc.hyps(2) True by (cases "Suc i = n") (auto simp: slice_def Cons_nth_drop_Suc [symmetric] Suc_diff_Suc [symmetric])
  next
    case False
    then show ?thesis
      using i u by (subst capture.simps) (simp add: load_byte_eq)
  qed
qed

lemma capture_eq:
  assumes "unat doff + n < 2 ^ 32" and "0 < n"
  shows "capture skb doff n (replicate n 0) 0 =
    (if unat doff + n \<le> length (skb_bytes skb) then Inr (slice (unat doff) n (skb_bytes skb)) else Inl Aborted)"
  using capture_from [OF assms(1), of 0 "replicate n 0" skb] assms(2) by simp

text \<open>What lies between the first and the second space, cut to 89 bytes.\<close>

definition request_target :: "bytes \<Rightarrow> bytes" where
  "request_target p = take 89 (takeWhile (\<lambda>c. c \<noteq> 32) (drop 1 (dropWhile (\<lambda>c. c \<noteq> 32) p)))"

lemma copy_path_eq:
  assumes "length p = 100" and "i \<le> 100" and "l \<le> 89" and "length path = 90"
  shows "copy_path p i path l =
    (let r = take (89 - l) (takeWhile (\<lambda>c. c \<noteq> 32) (drop i p)) in Some (overwrite l r path, l + length r))"
  using assms(2-)
proof (induction "100 - i" arbitrary: i l path)
  case 0
  then show ?case
    by (subst copy_path.simps) (simp add: assms(1) LARGE_HTTP_BUFFER_SIZE_def overwrite_Nil)
next
  case (Suc n)
  then have i: "i < 100" by simp
  then have d: "drop i p = p ! i # drop (Suc i) p"
    using assms(1) by (simp add: Cons_nth_drop_Suc)
  show ?case
  proof (cases "p ! i \<noteq> 32 \<and> l < 89")
    case True
    have "copy_path p i path l = copy_path p (Suc i) (path[l := p ! i]) (Suc l)"
      by (subst copy_path.simps)
        (use True i assms(1) Suc.prems in \<open>simp add: c_consts set_opt_def\<close>)
    also have "\<dots> = (let r = take (89 - Suc l) (takeWhile (\<lambda>c. c \<noteq> 32) (drop (Suc i) p)) in
        Some (overwrite (Suc l) r (path[l := p ! i]), Suc l + length r))"
      using Suc True i by (intro Suc.hyps) auto
    finally have step: "copy_path p i path l =
        (let r = take (89 - Suc l) (takeWhile (\<lambda>c. c \<noteq> 32) (drop (Suc i) p)) in
          Some (overwrite (Suc l) r (path[l := p ! i]), Suc l + length r))" .
    have "89 - l = Suc (89 - Suc l)" using True by arith
    then have "take (89 - l) (takeWhile (\<lambda>c. c \<noteq> 32) (drop i p)) =
        p ! i # take (89 - Suc l) (takeWhile (\<lambda>c. c \<noteq> 32) (drop (Suc i) p))"
      using True by (simp add: d)
    with step show ?thesis
      using True Suc.prems by (simp add: overwrite_Cons Let_def)
  next
    case False
    then show ?thesis
      by (subst copy_path.simps)
        (use i assms(1) Suc.prems in \<open>auto simp: c_consts d overwrite_Nil\<close>)
  qed
qed

lemma extract_path_from_eq:
  assumes "length p = 100" and "i \<le> 100"
  shows "extract_path_from p i (replicate 90 0) =
    Some (let t = request_target (drop i p) in t @ replicate (90 - length t) 0)"
  using assms(2)
proof (induction "100 - i" arbitrary: i)
  case 0
  then show ?case
    by (subst extract_path_from.simps) (simp add: assms(1) c_consts request_target_def)
next
  case (Suc n)
  then have i: "i < 100" by simp
  then have d: "drop i p = p ! i # drop (Suc i) p"
    using assms(1) by (simp add: Cons_nth_drop_Suc)
  show ?case
  proof (cases "p ! i = 32")
    case False
    then have "extract_path_from p i (replicate 90 0) = extract_path_from p (Suc i) (replicate 90 0)"
      by (subst extract_path_from.simps) (use i assms(1) in \<open>simp add: c_consts\<close>)
    with Suc i False show ?thesis by (simp add: d request_target_def)
  next
    case True
    define t where "t = take 89 (takeWhile (\<lambda>c. c \<noteq> 32) (drop (Suc i) p))"
    have t: "length t \<le> 89" "request_target (drop i p) = t"
      using True by (simp_all add: t_def d request_target_def)
    have "extract_path_from p i (replicate 90 0) =
        set_opt (overwrite 0 t (replicate 90 0)) (length t) 0"
      by (subst extract_path_from.simps)
        (use True i assms(1) copy_path_eq [of p "Suc i" 0 "replicate 90 0"] in
          \<open>simp add: c_consts t_def Let_def\<close>)
    also have "overwrite 0 t (replicate 90 0) = t @ replicate (90 - length t) 0"
      by (simp add: overwrite_def)
    also have "set_opt \<dots> (length t) 0 = Some (t @ replicate (90 - length t) 0)"
      using t(1) update_padding [of t 90 0] by (simp add: set_opt_def)
    finally show ?thesis using t by (simp add: Let_def)
  qed
qed

lemma extract_path_eq:
  assumes "length p = LARGE_HTTP_BUFFER_SIZE"
  shows "extract_path p = Some (request_target p @ replicate (90 - length (request_target p)) 0)"
  using assms extract_path_from_eq [of p 0]
  by (simp add: extract_path_def c_consts Let_def)

section \<open>The verdicts\<close>

text \<open>
  The length test subtracts in 32 bits: it wraps for a packet that ends inside its headers, and the
  packet loads then end the program.
\<close>

lemma payload_guard:
  fixes doff :: u32
  assumes "len < 2 ^ 32" and "unat doff \<le> 114" and "n \<le> 100"
  shows "(of_nat len - doff :: u32) < of_nat n \<longleftrightarrow> unat doff \<le> len \<and> len < unat doff + n"
proof -
  have u: "unat (of_nat len :: u32) = len" "unat (of_nat n :: u32) = n"
    using assms by (simp_all add: unat_of_nat)
  show ?thesis
    using assms by (auto simp: word_less_nat_alt unat_sub_if' u)
qed

text \<open>The kernel's view of the packet: \<open>len\<close> is the number of bytes it holds.\<close>

definition skb_wf :: "us_sk_buff \<Rightarrow> bool" where
  "skb_wf skb \<longleftrightarrow> length (skb_bytes skb) < 2 ^ 32 \<and> skb_len skb = of_nat (length (skb_bytes skb))"

text \<open>The offset of the payload when the packet is a TCP or UDP packet with \<open>n\<close> bytes of payload.\<close>

definition payload_at :: "nat \<Rightarrow> bytes \<Rightarrow> nat option" where
  "payload_at n pkt =
     (case wire_conn_tuple pkt of
        None \<Rightarrow> None
      | Some (r, info) \<Rightarrow>
          if r \<noteq> 0 \<and> unat (data_off info) + n \<le> length pkt then Some (unat (data_off info)) else None)"

lemma c_str_lit_bytes [simp]: "c_str (lit_bytes (Lit f (known_method p))) = ascii (known_method p)"
proof -
  have "0 \<notin> set (ascii (known_method p))"
    using get_method_cases [of p] by (auto simp: http_methods_def)
  then show ?thesis by (simp add: lit_bytes_def c_str_terminated)
qed

lemma nul_in_lit_bytes [simp]: "0 \<in> set (lit_bytes l)"
  by (simp add: lit_bytes_def)

lemma length_request_target: "length (request_target p) \<le> 89"
  by (simp add: request_target_def)

lemma validate_extracted_path:
  assumes "probe_reads_fill K" and "str_reads_copy K" and "length p = LARGE_HTTP_BUFFER_SIZE"
  shows "(case extract_path p of None \<Rightarrow> None | Some path \<Rightarrow> validate_path K path) =
    Some (filter_allows (readable MAX_PATHS_ENTRIES (path_entry K)) (c_str (request_target p)))"
proof -
  let ?t = "request_target p"
  have "0 \<in> set (?t @ replicate (90 - length ?t) 0)"
    using length_request_target [of p] by simp
  moreover have "take 89 (c_str ?t) = c_str ?t"
    using length_request_target [of p] length_c_str_le [of ?t] by simp
  ultimately show ?thesis
    using assms by (simp add: extract_path_eq validate_path_eq MAX_PATH_LEN_def)
qed

context net_headers
begin

lemma classifier_paths_verdict:
  assumes "probe_reads_fill K" and "str_reads_copy K" and "skb_wf skb"
  shows "cls_classifier_paths H ORDER_LITTLE_ENDIAN K skb =
    (case wire_conn_tuple (skb_bytes skb) of
       None \<Rightarrow> Aborted
     | Some (r, info) \<Rightarrow>
         if r = 0 then Returned 0
         else if length (skb_bytes skb) < unat (data_off info) then Aborted
         else if length (skb_bytes skb) < unat (data_off info) + 100 then Returned 0
         else if filter_allows (readable MAX_PATHS_ENTRIES (path_entry K))
                (c_str (request_target (slice (unat (data_off info)) 100 (skb_bytes skb))))
              then Returned (-1) else Returned 0)"
proof (cases "wire_conn_tuple (skb_bytes skb)")
  case None
  then show ?thesis by (simp add: cls_classifier_paths_def read_conn_tuple_skb_eq)
next
  case (Some x)
  obtain r info where x: "x = (r, info)" by fastforce
  let ?o = "data_off info" and ?pkt = "skb_bytes skb"
  show ?thesis
  proof (cases "r = 0")
    case True
    then show ?thesis by (simp add: cls_classifier_paths_def read_conn_tuple_skb_eq Some x)
  next
    case False
    then have o: "unat ?o \<le> 114" using wire_conn_tuple_success Some x by blast
    have g: "(skb_len skb - ?o < of_nat LARGE_HTTP_BUFFER_SIZE) \<longleftrightarrow>
        unat ?o \<le> length ?pkt \<and> length ?pkt < unat ?o + 100"
      using payload_guard [of "length ?pkt" ?o 100] o assms(3) by (simp add: skb_wf_def LARGE_HTTP_BUFFER_SIZE_def)
    have c: "capture skb ?o LARGE_HTTP_BUFFER_SIZE (replicate LARGE_HTTP_BUFFER_SIZE 0) 0 =
        (if unat ?o + 100 \<le> length ?pkt then Inr (slice (unat ?o) 100 ?pkt) else Inl Aborted)"
      using capture_eq [of ?o 100 skb] o by (simp add: LARGE_HTTP_BUFFER_SIZE_def)
    have v: "(case extract_path p of None \<Rightarrow> Bad_access
        | Some path \<Rightarrow> (case validate_path K path of None \<Rightarrow> Bad_access
            | Some True \<Rightarrow> Returned (-1) | Some False \<Rightarrow> Returned 0)) =
        (if filter_allows (readable MAX_PATHS_ENTRIES (path_entry K)) (c_str (request_target p))
         then Returned (-1) else Returned 0)" if "length p = LARGE_HTTP_BUFFER_SIZE" for p
      using validate_extracted_path [OF assms(1,2) that]
      by (cases "extract_path p") (simp_all split: bool.splits)
    have "length (slice (unat ?o) 100 ?pkt) = LARGE_HTTP_BUFFER_SIZE"
      if "unat ?o + 100 \<le> length ?pkt"
      using that by (simp add: LARGE_HTTP_BUFFER_SIZE_def)
    then show ?thesis
      using False v [of "slice (unat ?o) 100 ?pkt"]
      by (simp add: cls_classifier_paths_def read_conn_tuple_skb_eq Some x g c)
  qed
qed

lemma classifier_methods_verdict:
  assumes "probe_reads_fill K" and "skb_wf skb"
  shows "cls_classifier_methods H ORDER_LITTLE_ENDIAN merged K skb =
    (case wire_conn_tuple (skb_bytes skb) of
       None \<Rightarrow> Aborted
     | Some (r, info) \<Rightarrow>
         if r = 0 then Returned 0
         else if length (skb_bytes skb) < unat (data_off info) then Aborted
         else if length (skb_bytes skb) < unat (data_off info) + 25 then Returned 0
         else (let m = known_method (slice (unat (data_off info)) 25 (skb_bytes skb)) in
           if merged \<and> m = ''UNKNOWN'' then Returned 0
           else if filter_allows (readable MAX_METHODS_ENTRIES (method_entry K)) (ascii m)
              then Returned (-1) else Returned 0))"
proof (cases "wire_conn_tuple (skb_bytes skb)")
  case None
  then show ?thesis by (simp add: cls_classifier_methods_def read_conn_tuple_skb_eq)
next
  case (Some x)
  obtain r info where x: "x = (r, info)" by fastforce
  let ?o = "data_off info" and ?pkt = "skb_bytes skb"
  show ?thesis
  proof (cases "r = 0")
    case True
    then show ?thesis by (simp add: cls_classifier_methods_def read_conn_tuple_skb_eq Some x)
  next
    case False
    then have o: "unat ?o \<le> 114" using wire_conn_tuple_success Some x by blast
    have g: "(skb_len skb - ?o < of_nat DEFAULT_HTTP_BUFFER_SIZE) \<longleftrightarrow>
        unat ?o \<le> length ?pkt \<and> length ?pkt < unat ?o + 25"
      using payload_guard [of "length ?pkt" ?o 25] o assms(2) by (simp add: skb_wf_def DEFAULT_HTTP_BUFFER_SIZE_def)
    have c: "capture skb ?o DEFAULT_HTTP_BUFFER_SIZE (replicate DEFAULT_HTTP_BUFFER_SIZE 0) 0 =
        (if unat ?o + 25 \<le> length ?pkt then Inr (slice (unat ?o) 25 ?pkt) else Inl Aborted)"
      using capture_eq [of ?o 25 skb] o by (simp add: DEFAULT_HTTP_BUFFER_SIZE_def)
    have e: "ptr_eq merged (Lit ''get_method'' m) (Lit ''cls_classifier_methods'' ''UNKNOWN'') \<longleftrightarrow> merged \<and> m = ''UNKNOWN''" for m
      by (auto simp: ptr_eq_def)
    have "get_method (slice (unat ?o) 25 ?pkt) = Some (Lit ''get_method'' (known_method (slice (unat ?o) 25 ?pkt)))"
      if "unat ?o + 25 \<le> length ?pkt"
      using that by (intro get_method_find) (simp add: DEFAULT_HTTP_BUFFER_SIZE_def)
    then show ?thesis
      using False
      by (simp add: cls_classifier_methods_def read_conn_tuple_skb_eq Some x g c e Let_def
          validate_method_eq [OF assms(1)])
  qed
qed

end

lemma methods_verdict_allows:
  assumes "H \<in> set supported_headers" and "probe_reads_fill K"
    and "array_holds K filter_methods vs" and "skb_wf skb"
  shows "cls_classifier_methods H ORDER_LITTLE_ENDIAN merged K skb = Returned (-1) \<longleftrightarrow>
    (case payload_at 25 (skb_bytes skb) of
       None \<Rightarrow> False
     | Some o' \<Rightarrow>
         (\<exists>m \<in> set http_methods. prefix (ascii m) (slice o' 25 (skb_bytes skb)) \<and> filter_allows vs (ascii m))
         \<or> (\<not> merged \<and> (\<forall>m \<in> set http_methods. \<not> prefix (ascii m) (slice o' 25 (skb_bytes skb)))
            \<and> filter_allows vs (ascii ''UNKNOWN'')))"
proof (cases "payload_at 25 (skb_bytes skb)")
  case None
  then show ?thesis
    using net_headers.classifier_methods_verdict [OF supported_net_headers assms(2,4), OF assms(1)]
    by (auto simp: payload_at_def split: option.splits prod.splits if_splits)
next
  case (Some o')
  define p where "p = slice o' 25 (skb_bytes skb)"
  obtain r info where w: "wire_conn_tuple (skb_bytes skb) = Some (r, info)" "r \<noteq> 0"
    "unat (data_off info) = o'" "o' + 25 \<le> length (skb_bytes skb)"
    using Some by (auto simp: payload_at_def split: option.splits prod.splits if_splits)
  then have "cls_classifier_methods H ORDER_LITTLE_ENDIAN merged K skb = Returned (-1) \<longleftrightarrow>
      \<not> (merged \<and> known_method p = ''UNKNOWN'') \<and> filter_allows vs (ascii (known_method p))"
    using net_headers.classifier_methods_verdict [OF supported_net_headers assms(2,4), OF assms(1)]
    by (simp add: p_def Let_def readable_array(2) [OF assms(3)])
  also have "\<dots> \<longleftrightarrow> (\<exists>m \<in> set http_methods. prefix (ascii m) p \<and> filter_allows vs (ascii m))
      \<or> (\<not> merged \<and> (\<forall>m \<in> set http_methods. \<not> prefix (ascii m) p) \<and> filter_allows vs (ascii ''UNKNOWN''))"
    using get_method_known [of _ p] get_method_unknown [of p] get_method_cases [of p]
    by (metis UnE singletonD)
  finally show ?thesis by (simp add: Some p_def)
qed

section \<open>A concrete kernel and packet\<close>

text \<open>
  Helpers over two lists of map values, as the kernel implements them for array maps: addresses of
  existing elements are distinct and not null, and a read from any other address fails.
\<close>

definition list_helpers :: "bytes list \<Rightarrow> bytes list \<Rightarrow> helpers" where
  "list_helpers ms ps =
     \<lparr>bpf_map_lookup_elem = (\<lambda>m k. if unat k < max_entries m
        then (if m = filter_paths then 0x1000 + ucast k else 0x2000 + ucast k) else 0),
      bpf_probe_read_kernel = (\<lambda>n a.
        if 0x1000 \<le> a \<and> unat (a - 0x1000) < length ps then (0, pad_to n (ps ! unat (a - 0x1000)))
        else if 0x2000 \<le> a \<and> unat (a - 0x2000) < length ms then (0, pad_to n (ms ! unat (a - 0x2000)))
        else (-14, replicate n 0)),
      bpf_probe_read_kernel_str = (\<lambda>n s.
        (int (min n (length (c_str s) + 1)), pad_to n (take (n - 1) (c_str s))))\<rparr>"

lemma list_helpers_reads:
  "probe_reads_fill (list_helpers ms ps)" "str_reads_copy (list_helpers ms ps)"
proof -
  show "probe_reads_fill (list_helpers ms ps)"
    by (simp add: probe_reads_fill_def list_helpers_def)
  have nz: "0 \<notin> set (take k (c_str s))" for k and s :: bytes
    by (auto dest!: in_set_takeD c_str_nonzero)
  have "pad_to n (take (n - 1) (c_str s)) =
      take (n - 1) (c_str s) @ replicate (n - length (take (n - 1) (c_str s))) 0" for n and s :: bytes
    by (rule pad_to_short) simp
  then show "str_reads_copy (list_helpers ms ps)"
    by (simp add: str_reads_copy_def list_helpers_def c_str_id [OF nz]) linarith
qed

lemma list_helpers_paths:
  assumes "length ps = MAX_PATHS_ENTRIES" and "\<forall>v \<in> set ps. length v = MAX_PATH_LEN"
  shows "array_holds (list_helpers ms ps) filter_paths ps"
proof -
  have "unat (of_nat i :: u32) = i" "unat (of_nat i :: u64) = i"
    "ucast (of_nat i :: u32) = (of_nat i :: u64)" if "i < 20" for i
    using that by (simp_all add: unat_of_nat unsigned_of_nat take_bit_nat_eq_self)
  moreover have "(0x1000 :: u64) \<le> 0x1000 + of_nat i" if "i < 20" for i
    using that by (simp add: word_le_nat_alt unat_word_ariths unat_of_nat)
  ultimately show ?thesis
    using assms
    by (auto simp: array_holds_def list_helpers_def filter_paths_def c_consts pad_to_id)
qed

lemma list_helpers_methods:
  assumes "length ms = MAX_METHODS_ENTRIES" and "\<forall>v \<in> set ms. length v = MAX_METHOD_LEN"
    and "length ps \<le> 20"
  shows "array_holds (list_helpers ms ps) filter_methods ms"
proof -
  have "unat (of_nat i :: u32) = i" "unat (of_nat i :: u64) = i"
    "ucast (of_nat i :: u32) = (of_nat i :: u64)" if "i < 9" for i
    using that by (simp_all add: unat_of_nat unsigned_of_nat take_bit_nat_eq_self)
  moreover have "(0x2000 :: u64) \<le> 0x2000 + of_nat i" "unat (0x1000 + of_nat i :: u64) = 0x1000 + i"
    if "i < 9" for i
    using that by (simp_all add: word_le_nat_alt unat_word_ariths unat_of_nat)
  ultimately show ?thesis
    using assms
    by (auto simp: array_holds_def list_helpers_def filter_paths_def filter_methods_def c_consts pad_to_id)
qed

text \<open>A TCP packet over IPv4 with 54 bytes of headers and a given payload.\<close>

definition tcp_packet :: "bytes \<Rightarrow> bytes" where
  "tcp_packet payload = sample_tcp_packet @ replicate 6 0 @ payload"

definition tcp_skb :: "bytes \<Rightarrow> us_sk_buff" where
  "tcp_skb payload = \<lparr>skb_len = of_nat (length (tcp_packet payload)), skb_bytes = tcp_packet payload\<rparr>"

lemma payload_at_tcp_packet:
  "payload_at n (tcp_packet payload) = (if n \<le> length payload then Some 54 else None)"
proof -
  have parts: "length (tcp_packet payload) = 54 + length payload" "slice 12 2 (tcp_packet payload) = [8, 0]"
    "tcp_packet payload ! 23 = 6" "tcp_packet payload ! 46 = 0x50"
    by (simp_all add: tcp_packet_def sample_tcp_packet_def slice_def nth_append)
  have "be_word [8, 0] = (0x0800 :: u16)" by (simp add: be_word_def)
  then show ?thesis
    by (simp add: payload_at_def wire_conn_tuple_def wire_l4_def parts)
qed

lemma slice_tcp_packet: "slice 54 n (tcp_packet payload) = take n payload"
  by (simp add: slice_def tcp_packet_def sample_tcp_packet_def)

lemma tcp_skb_wf: "length payload < 1000 \<Longrightarrow> skb_wf (tcp_skb payload)"
  by (simp add: skb_wf_def tcp_skb_def tcp_packet_def sample_tcp_packet_def)

lemma skb_bytes_tcp_skb [simp]: "skb_bytes (tcp_skb payload) = tcp_packet payload"
  by (simp add: tcp_skb_def)

section \<open>Properties\<close>

text \<open>
  C5: the path classifier matches a packet, on either architecture, exactly when it is a TCP or UDP
  packet with at least 100 bytes of payload whose request target (the bytes between the first two
  spaces, at most 89) has one of the configured paths as a prefix, or when no path is configured.
  Short packets, other protocols and requests with another target are left alone.
\<close>

theorem classifier_paths_matches:
  assumes "H \<in> set supported_headers" and "probe_reads_fill K" and "str_reads_copy K"
    and "array_holds K filter_paths vs" and "skb_wf skb"
  shows "cls_classifier_paths H ORDER_LITTLE_ENDIAN K skb = Returned (-1) \<longleftrightarrow>
    (case payload_at 100 (skb_bytes skb) of
       None \<Rightarrow> False
     | Some o' \<Rightarrow> filter_allows vs (c_str (request_target (slice o' 100 (skb_bytes skb)))))"
  using net_headers.classifier_paths_verdict [OF supported_net_headers assms(2,3,5), OF assms(1)]
  by (auto simp: readable_array(1) [OF assms(4)] payload_at_def split: option.splits prod.splits)

definition sample_request :: bytes where
  "sample_request = ascii ''GET /api/v1/users HTTP/1.1'' @ replicate 80 65"

definition sample_paths :: "bytes list" where
  "sample_paths = pad_to 90 (ascii ''/health'') # pad_to 90 (ascii ''/api'') # replicate 18 (replicate 90 0)"

lemma request_target_sample: "request_target (take 100 sample_request) = ascii ''/api/v1/users''"
  by (simp add: request_target_def sample_request_def)

lemma sample_paths_allow: "filter_allows sample_paths (ascii (''/api'' @ s))"
  by (simp add: filter_allows_def sample_paths_def active_filters_def pad_to_short c_str_Cons)

theorem classifier_paths_matches_witness:
  "cls_classifier_paths aarch64_headers ORDER_LITTLE_ENDIAN (list_helpers [] sample_paths)
     (tcp_skb sample_request) = Returned (-1)"
proof -
  have "array_holds (list_helpers [] sample_paths) filter_paths sample_paths"
    by (rule list_helpers_paths) (simp_all add: sample_paths_def c_consts)
  moreover have "skb_wf (tcp_skb sample_request)"
    by (rule tcp_skb_wf) (simp add: sample_request_def)
  moreover have "c_str (ascii ''/api/v1/users'') = ascii ''/api/v1/users''" by (simp add: c_str_Cons)
  moreover have "length sample_request = 106" by (simp add: sample_request_def)
  ultimately show ?thesis
    using classifier_paths_matches [of aarch64_headers "list_helpers [] sample_paths" sample_paths
        "tcp_skb sample_request"] sample_paths_allow [of "''/v1/users''"]
    by (simp add: supported_headers_def list_helpers_reads payload_at_tcp_packet slice_tcp_packet
        request_target_sample)
qed

text \<open>
  C6: the method classifier matches a packet, on either architecture, exactly when it is a TCP or
  UDP packet with at least 25 bytes of payload that starts with an HTTP method the filters allow.
  This rests on the two \<open>"UNKNOWN"\<close> literals of \<open>get_method\<close> and of the classifier being one object:
  if the compiler keeps them apart, a payload that is no HTTP request passes the test on the pointer
  and is matched whenever the filters allow the string \<open>UNKNOWN\<close>, in particular when no method is
  configured.
\<close>

theorem classifier_methods_matches:
  assumes "H \<in> set supported_headers" and "probe_reads_fill K"
    and "array_holds K filter_methods vs" and "skb_wf skb"
  shows "cls_classifier_methods H ORDER_LITTLE_ENDIAN merged K skb = Returned (-1) \<longleftrightarrow>
    (case payload_at 25 (skb_bytes skb) of
       None \<Rightarrow> False
     | Some o' \<Rightarrow>
         (\<exists>m \<in> set http_methods. prefix (ascii m) (slice o' 25 (skb_bytes skb)) \<and> filter_allows vs (ascii m))
         \<or> (\<not> merged \<and> (\<forall>m \<in> set http_methods. \<not> prefix (ascii m) (slice o' 25 (skb_bytes skb)))
            \<and> filter_allows vs (ascii ''UNKNOWN'')))"
  by (rule methods_verdict_allows [OF assms])

definition sample_methods :: "bytes list" where
  "sample_methods = pad_to 8 (ascii ''GET'') # replicate 8 (replicate 8 0)"

lemma sample_methods_holds: "array_holds (list_helpers sample_methods []) filter_methods sample_methods"
  by (rule list_helpers_methods) (simp_all add: sample_methods_def c_consts)

theorem classifier_methods_matches_witness:
  "cls_classifier_methods amd64_headers ORDER_LITTLE_ENDIAN True (list_helpers sample_methods [])
     (tcp_skb sample_request) = Returned (-1)"
proof -
  have "skb_wf (tcp_skb sample_request)"
    by (rule tcp_skb_wf) (simp add: sample_request_def)
  moreover have "length sample_request = 106" by (simp add: sample_request_def)
  moreover have "filter_allows sample_methods (ascii ''GET'')"
    by (simp add: filter_allows_def sample_methods_def active_filters_def pad_to_short c_str_Cons)
  moreover have "prefix (ascii ''GET'') (take 25 sample_request)" "''GET'' \<in> set http_methods"
    by (simp_all add: sample_request_def http_methods_def)
  ultimately have "\<exists>m \<in> set http_methods. prefix (ascii m) (take 25 sample_request) \<and>
      filter_allows sample_methods (ascii m)" "skb_wf (tcp_skb sample_request)" "length sample_request = 106"
    by blast+
  then show ?thesis
    using classifier_methods_matches [of amd64_headers "list_helpers sample_methods []" sample_methods
        "tcp_skb sample_request" True] sample_methods_holds
    by (simp add: list_helpers_reads payload_at_tcp_packet slice_tcp_packet supported_headers_def)
qed

text \<open>
  C10: on every packet and whatever the maps hold, the classifiers stay inside their arrays: the stores to the
  capture buffer, the reads of \<open>get_method\<close>, of the search for the path and of the two prefix loops, the
  stores to the path and the reads of the string literals all lie within the bounds. The classifiers end with no
  match, a match, or an abort at a packet load, and every loop ends.
\<close>

theorem classifiers_memory_safe:
  assumes "H \<in> set supported_headers" and "probe_reads_fill K" and "str_reads_copy K" and "skb_wf skb"
  shows "cls_classifier_paths H ORDER_LITTLE_ENDIAN K skb \<in> {Returned 0, Returned (-1), Aborted} \<and>
    cls_classifier_methods H ORDER_LITTLE_ENDIAN merged K skb \<in> {Returned 0, Returned (-1), Aborted}"
  using net_headers.classifier_paths_verdict [OF supported_net_headers assms(2,3,4), OF assms(1)]
    net_headers.classifier_methods_verdict [OF supported_net_headers assms(2,4), OF assms(1)]
  by (auto simp: Let_def split: option.splits prod.splits)

theorem classifiers_memory_safe_witness:
  "cls_classifier_paths amd64_headers ORDER_LITTLE_ENDIAN (list_helpers sample_methods sample_paths) (tcp_skb sample_request)
     \<in> {Returned 0, Returned (-1), Aborted} \<and>
   cls_classifier_methods amd64_headers ORDER_LITTLE_ENDIAN True (list_helpers sample_methods sample_paths) (tcp_skb sample_request)
     \<in> {Returned 0, Returned (-1), Aborted} \<and> payload_at 100 (skb_bytes (tcp_skb sample_request)) \<noteq> None"
proof -
  have "amd64_headers \<in> set supported_headers" "skb_wf (tcp_skb sample_request)" "length sample_request = 106"
    by (simp_all add: supported_headers_def sample_request_def tcp_skb_wf)
  with list_helpers_reads show ?thesis
    using classifiers_memory_safe [of amd64_headers "list_helpers sample_methods sample_paths" "tcp_skb sample_request" True]
    by (simp add: payload_at_tcp_packet)
qed

text \<open>
  From a captured payload of 100 bytes the path classifier extracts exactly the bytes between
  the first and the second space, at most 89 of them, padded with NULs to the 90-byte buffer; a
  payload without a space gives the empty path.
\<close>

theorem extract_path_request_target:
  assumes "length p = LARGE_HTTP_BUFFER_SIZE"
  shows "extract_path p = Some (pad_to MAX_PATH_LEN
    (take 89 (takeWhile (\<lambda>c. c \<noteq> of_char CHR '' '') (drop 1 (dropWhile (\<lambda>c. c \<noteq> of_char CHR '' '') p)))))"
  using extract_path_eq [OF assms]
  by (simp add: pad_to_short MAX_PATH_LEN_def request_target_def)

theorem extract_path_request_target_witness:
  "extract_path (take 100 sample_request) = Some (pad_to 90 (ascii ''/api/v1/users''))"
  using extract_path_request_target [of "take 100 sample_request"]
  by (simp add: sample_request_def c_consts)

end
