(* ===== verification/Filter_Driver.thy ===== *)
theory Filter_Driver
  imports Tc_Filter
begin

text \<open>
  The Go side of the HTTP filters: the validation of the resource and its arguments
  (\<open>src/api/v1beta1/network_disruption.go\<close>), the arguments of the injector
  (\<open>src/injector/network_disruption.go\<close>), the program that fills the maps
  (\<open>src/ebpf/network-tc-filter/main.go\<close>) and the search for maps by name in libbpfgo
  (\<open>src/vendor/github.com/aquasecurity/libbpfgo/map-low.go\<close>).

  The kernel's map calls are the record \<open>map_env\<close>; the contents of the maps are a store from map ids to
  the values of the array. The search loop need not end for an arbitrary kernel: it is a partial
  function, and \<^term>\<open>None\<close> is a search that does not return.
\<close>

section \<open>The resource\<close>

definition MaxNetworkPathCharacters :: nat where "MaxNetworkPathCharacters = 90"
definition MaxNetworkPaths :: nat where "MaxNetworkPaths = 20"
definition MaxNetworkMethods :: nat where "MaxNetworkMethods = 9"
definition DefaultHTTPPathFilter :: string where "DefaultHTTPPathFilter = ''/''"

definition allowedHTTPMethods :: "string list" where
  "allowedHTTPMethods = [''POST'', ''GET'', ''TRACE'', ''OPTIONS'', ''PUT'', ''PATCH'', ''CONNECT'',
     ''HEAD'', ''DELETE'']"

record NetworkHTTPFilters =
  Methods :: "string list"
  HTTP_Paths :: "string list"

datatype http_error = Too_many_paths | Path_length | Path_spaces | Path_no_slash | Root_not_alone
  | Duplicate_path string | Too_many_methods | Unknown_method string | Duplicate_method string

text \<open>The white space of the regular expression.\<close>

definition is_blank :: "char \<Rightarrow> bool" where
  "is_blank c \<longleftrightarrow> (of_char c :: nat) \<in> {9, 10, 12, 13, 32}"

text \<open>\<open>HTTPPath.validate\<close>; \<^term>\<open>None\<close> is the panic of \<open>p[0]\<close> on the empty path.\<close>

definition validate_http_path :: "string \<Rightarrow> http_error list option" where
  "validate_http_path p =
     (if length p > MaxNetworkPathCharacters then Some [Path_length]
      else if \<exists>c \<in> set p. is_blank c then Some [Path_spaces]
      else (case p of
          [] \<Rightarrow> None
        | c # _ \<Rightarrow> if [c] \<noteq> DefaultHTTPPathFilter then Some [Path_no_slash] else Some []))"

text \<open>The loop over the paths, with the paths visited before.\<close>

fun check_paths :: "bool \<Rightarrow> string list \<Rightarrow> string list \<Rightarrow> http_error list option" where
  "check_paths multiple visited [] = Some []"
| "check_paths multiple visited (p # ps) =
     (if p \<in> set visited then check_paths multiple visited ps
      else (case validate_http_path p of
          None \<Rightarrow> None
        | Some es \<Rightarrow> map_option
            (\<lambda>rest. (if multiple \<and> p = DefaultHTTPPathFilter then [Root_not_alone] else []) @ es @ rest)
            (check_paths multiple (p # visited) ps)))"

text \<open>The visited values with a count above one (a Go map is ranged over in no fixed order).\<close>

definition duplicates :: "string list \<Rightarrow> string list" where
  "duplicates xs = filter (\<lambda>x. count_list xs x > 1) (remdups xs)"

definition validate_paths :: "string list \<Rightarrow> http_error list option" where
  "validate_paths ps =
     (if length ps > MaxNetworkPaths then Some [Too_many_paths]
      else if length ps = 0 then Some []
      else map_option (\<lambda>es. es @ map Duplicate_path (duplicates ps)) (check_paths (length ps > 1) [] ps))"

definition validate_methods :: "string list \<Rightarrow> http_error list" where
  "validate_methods ms =
     (if length ms > MaxNetworkMethods then [Too_many_methods]
      else if length ms = 0 then []
      else map Unknown_method (filter (\<lambda>m. m \<notin> set allowedHTTPMethods) ms) @
        map Duplicate_method (duplicates (filter (\<lambda>m. m \<in> set allowedHTTPMethods) ms)))"

definition validate_http :: "NetworkHTTPFilters \<Rightarrow> http_error list option" where
  "validate_http s = map_option (\<lambda>es. es @ validate_methods (Methods s)) (validate_paths (HTTP_Paths s))"

definition isNotDefault :: "string list \<Rightarrow> bool" where
  "isNotDefault ps =
     (if length ps = 0 \<or> length ps > 1 then False else ps ! 0 \<noteq> DefaultHTTPPathFilter)"

definition HasHTTPFilters :: "NetworkHTTPFilters option \<Rightarrow> bool" where
  "HasHTTPFilters h = (case h of None \<Rightarrow> False | Some s \<Rightarrow> length (Methods s) \<ge> 1 \<or> isNotDefault (HTTP_Paths s))"

section \<open>Arguments\<close>

text \<open>\<open>strings.ToUpper\<close> on ASCII letters.\<close>

definition to_upper :: "char \<Rightarrow> char" where
  "to_upper c = (if 97 \<le> (of_char c :: nat) \<and> (of_char c :: nat) \<le> 122 then char_of ((of_char c :: nat) - 32) else c)"

definition configBPFFilterArgs :: "NetworkHTTPFilters \<Rightarrow> string list" where
  "configBPFFilterArgs s = concat (map (\<lambda>p. [''--path'', p]) (HTTP_Paths s)) @
     concat (map (\<lambda>m. [''--method'', map to_upper m]) (Methods s))"

text \<open>The flags of the program: the collected values, or the default when a flag is absent.\<close>

fun collect_flags :: "string list \<Rightarrow> (string list \<times> string list) \<Rightarrow> (string list \<times> string list) option" where
  "collect_flags [] acc = Some acc"
| "collect_flags [x] acc = None"
| "collect_flags (x # v # rest) (ms, ps) =
     (if x = ''--path'' then collect_flags rest (ms, ps @ [v])
      else if x = ''--method'' then collect_flags rest (ms @ [v], ps) else None)"

definition filter_flags :: "string list \<Rightarrow> (string list \<times> string list) option" where
  "filter_flags args =
     map_option (\<lambda>(ms, ps). (ms, if ps = [] then [''/''] else ps)) (collect_flags args ([], []))"

section \<open>Maps by name\<close>

datatype map_error = Next_id int | Get_map | Close_map | Update_map | Panic_slice | Bad_flags

text \<open>
  \<open>next_id\<close> is \<open>bpf_map_get_next_id\<close> (the next id or an error number), \<open>map_by_id\<close> the name behind
  an id (\<^term>\<open>None\<close> when it cannot be opened), \<open>close_ok\<close> whether its descriptor closes, \<open>elem_update\<close> the
  update of one element (\<^term>\<open>None\<close> when the kernel refuses it).
\<close>

record map_env =
  next_id :: "nat \<Rightarrow> int + nat"
  map_by_id :: "nat \<Rightarrow> string option"
  close_ok :: "nat \<Rightarrow> bool"
  elem_update :: "bytes list \<Rightarrow> nat \<Rightarrow> bytes \<Rightarrow> bytes list option"

definition ENOENT_errno :: int where "ENOENT_errno = 2"

partial_function (option) maps_from ::
  "map_env \<Rightarrow> string \<Rightarrow> nat \<Rightarrow> nat list \<Rightarrow> (map_error + nat list) option" where
  "maps_from E name startId ids =
     (case next_id E startId of
        Inl errno \<Rightarrow> Some (if errno = ENOENT_errno then Inr ids else Inl (Next_id errno))
      | Inr nextId \<Rightarrow>
          (case map_by_id E nextId of
             None \<Rightarrow> Some (Inl Get_map)
           | Some nm \<Rightarrow>
               if \<not> close_ok E nextId then Some (Inl Close_map)
               else maps_from E name ((nextId + 1) mod 2 ^ 32) (if nm \<noteq> name then ids else ids @ [nextId])))"

definition GetMapsIDsByName :: "map_env \<Rightarrow> string \<Rightarrow> (map_error + nat list) option" where
  "GetMapsIDsByName E name = maps_from E name 0 []"

section \<open>Filling the maps\<close>

definition MaxPathLen :: nat where "MaxPathLen = 90"
definition MaxMethodLen :: nat where "MaxMethodLen = 8"

text \<open>\<open>updateMap\<close>: the slice expression panics when the value is longer than the buffer.\<close>

definition updateMap :: "map_env \<Rightarrow> nat \<Rightarrow> bytes \<Rightarrow> nat \<Rightarrow> bytes list \<Rightarrow> map_error + bytes list" where
  "updateMap E key value valueSize vals =
     (if length value > valueSize then Inl Panic_slice
      else (let valueBytes = overwrite 0 value (replicate valueSize 0)
        in case elem_update E vals key valueBytes of None \<Rightarrow> Inl Update_map | Some vals \<Rightarrow> Inr vals))"

text \<open>The loop over the fields, from key \<open>i\<close>: the values afterwards and the error, if any.\<close>

fun update_fields ::
  "map_env \<Rightarrow> nat \<Rightarrow> nat \<Rightarrow> string list \<Rightarrow> bytes list \<Rightarrow> map_error option \<times> bytes list" where
  "update_fields E fieldSize i [] vals = (None, vals)"
| "update_fields E fieldSize i (f # fs) vals =
     (case updateMap E i (ascii f) fieldSize vals of
        Inl e \<Rightarrow> (Some e, vals)
      | Inr vals \<Rightarrow> update_fields E fieldSize (i + 1) fs vals)"

type_synonym map_store = "nat \<Rightarrow> bytes list"

text \<open>
  The loop over the ids; a descriptor that does not close is remembered and the loop goes on.
  The first component is the error that ends the loop, the second whether every descriptor closed.
\<close>

fun populate_ids ::
  "map_env \<Rightarrow> string list \<Rightarrow> nat \<Rightarrow> nat list \<Rightarrow> map_store \<Rightarrow> map_error option \<times> bool \<times> map_store" where
  "populate_ids E flds fieldSize [] st = (None, True, st)"
| "populate_ids E flds fieldSize (k # ks) st =
     (case map_by_id E k of
        None \<Rightarrow> (Some Get_map, True, st)
      | Some _ \<Rightarrow>
          (case update_fields E fieldSize 0 flds (st k) of
             (Some e, vals) \<Rightarrow> (Some e, True, st(k := vals))
           | (None, vals) \<Rightarrow>
               (case populate_ids E flds fieldSize ks (st(k := vals)) of
                  (e, closed, st) \<Rightarrow> (e, close_ok E k \<and> closed, st))))"

definition populateBPFMap ::
  "map_env \<Rightarrow> string \<Rightarrow> string list \<Rightarrow> nat \<Rightarrow> map_store \<Rightarrow> (map_error option \<times> map_store) option" where
  "populateBPFMap E mapName flds fieldSize st =
     (case GetMapsIDsByName E mapName of
        None \<Rightarrow> None
      | Some (Inl e) \<Rightarrow> Some (Some e, st)
      | Some (Inr ids) \<Rightarrow>
          (case populate_ids E flds fieldSize ids st of
             (Some e, _, st) \<Rightarrow> Some (Some e, st)
           | (None, closed, st) \<Rightarrow> Some (if closed then None else Some Close_map, st)))"

text \<open>\<open>main\<close>: the methods, then the paths; the first error ends the program.\<close>

definition filter_main ::
  "map_env \<Rightarrow> string list \<Rightarrow> map_store \<Rightarrow> (map_error option \<times> map_store) option" where
  "filter_main E args st =
     (case filter_flags args of
        None \<Rightarrow> Some (Some Bad_flags, st)
      | Some (nMethods, nPaths) \<Rightarrow>
          (case populateBPFMap E ''filter_methods'' nMethods MaxMethodLen st of
             None \<Rightarrow> None
           | Some (Some e, st) \<Rightarrow> Some (Some e, st)
           | Some (None, st) \<Rightarrow> populateBPFMap E ''filter_paths'' nPaths MaxPathLen st))"

section \<open>Validation\<close>

definition good_path :: "string \<Rightarrow> bool" where
  "good_path p \<longleftrightarrow> p \<noteq> [] \<and> length p \<le> 90 \<and> (\<forall>c \<in> set p. \<not> is_blank c) \<and> hd p = CHR ''/''"

lemma validate_http_path_good: "validate_http_path p = Some [] \<longleftrightarrow> good_path p"
  by (cases p) (auto simp: validate_http_path_def good_path_def MaxNetworkPathCharacters_def
      DefaultHTTPPathFilter_def)

lemma validate_http_path_panic: "validate_http_path p = None \<longleftrightarrow> p = []"
  by (cases p) (auto simp: validate_http_path_def)

lemma check_paths_panic: "check_paths mult vis ps = None \<longleftrightarrow> [] \<in> set ps - set vis"
proof (induction ps arbitrary: vis)
  case (Cons p ps)
  show ?case
  proof (cases "p \<in> set vis")
    case True
    then show ?thesis using Cons.IH [of vis] by auto
  next
    case False
    have "check_paths mult vis (p # ps) = None \<longleftrightarrow> p = [] \<or> check_paths mult (p # vis) ps = None"
      using False validate_http_path_panic [of p] by (cases "validate_http_path p") simp_all
    also have "\<dots> \<longleftrightarrow> [] \<in> set (p # ps) - set vis" unfolding Cons.IH using False by auto
    finally show ?thesis .
  qed
qed simp

lemma check_paths_good:
  "check_paths mult vis ps = Some [] \<longleftrightarrow>
     (\<forall>p \<in> set ps - set vis. good_path p \<and> (mult \<longrightarrow> p \<noteq> ''/''))"
proof (induction ps arbitrary: vis)
  case (Cons p ps)
  let ?Q = "\<lambda>p. good_path p \<and> (mult \<longrightarrow> p \<noteq> ''/'')"
  show ?case
  proof (cases "p \<in> set vis")
    case True
    then have "set (p # ps) - set vis = set ps - set vis" by auto
    with True Cons.IH [of vis] show ?thesis by simp
  next
    case False
    have "check_paths mult vis (p # ps) = Some [] \<longleftrightarrow>
        ?Q p \<and> check_paths mult (p # vis) ps = Some []"
    proof (cases "validate_http_path p")
      case None
      then show ?thesis using False validate_http_path_good [of p] by simp
    next
      case (Some es)
      then have "good_path p \<longleftrightarrow> es = []" using validate_http_path_good [of p] by simp
      with Some False show ?thesis
        by (cases "check_paths mult (p # vis) ps") (simp_all add: DefaultHTTPPathFilter_def)
    qed
    also have "\<dots> \<longleftrightarrow> ?Q p \<and> (\<forall>q \<in> set ps - set (p # vis). ?Q q)" by (simp only: Cons.IH)
    also have "\<dots> \<longleftrightarrow> (\<forall>q \<in> set (p # ps) - set vis. ?Q q)" using False by auto
    finally show ?thesis .
  qed
qed simp

lemma distinct_count_list: "distinct xs \<longleftrightarrow> (\<forall>x \<in> set xs. count_list xs x \<le> 1)"
proof (induction xs)
  case (Cons x xs)
  have "count_list xs x = 0 \<longleftrightarrow> x \<notin> set xs" by (rule count_list_0_iff)
  with Cons show ?case by auto
qed simp

lemma duplicates_Nil: "duplicates xs = [] \<longleftrightarrow> distinct xs"
  by (auto simp: duplicates_def filter_empty_conv distinct_count_list not_less)

lemma validate_methods_good:
  "validate_methods ms = [] \<longleftrightarrow> length ms \<le> 9 \<and> distinct ms \<and> set ms \<subseteq> set allowedHTTPMethods"
proof -
  have "filter (\<lambda>m. m \<notin> set allowedHTTPMethods) ms = [] \<longleftrightarrow> set ms \<subseteq> set allowedHTTPMethods"
    by (auto simp: filter_empty_conv)
  moreover have "filter (\<lambda>m. m \<in> set allowedHTTPMethods) ms = ms" if "set ms \<subseteq> set allowedHTTPMethods"
    using that by (auto simp: filter_id_conv)
  ultimately show ?thesis
    by (auto simp: validate_methods_def MaxNetworkMethods_def duplicates_Nil)
qed

lemma validate_paths_good:
  "validate_paths ps = Some [] \<longleftrightarrow> length ps \<le> 20 \<and> distinct ps \<and> (\<forall>p \<in> set ps. good_path p) \<and>
     (length ps > 1 \<longrightarrow> ''/'' \<notin> set ps)"
proof (cases "length ps > 20 \<or> ps = []")
  case True
  then show ?thesis by (auto simp: validate_paths_def MaxNetworkPaths_def)
next
  case False
  have "map_option (\<lambda>es. es @ ds) r = Some [] \<longleftrightarrow> r = Some [] \<and> ds = []" for r and ds :: "http_error list"
    by (cases r) auto
  with False show ?thesis
    by (auto simp: validate_paths_def MaxNetworkPaths_def check_paths_good duplicates_Nil)
qed

section \<open>Flags\<close>

lemma collect_flags_paths:
  "collect_flags (concat (map (\<lambda>p. [''--path'', p]) xs) @ rest) (ms, ps) = collect_flags rest (ms, ps @ xs)"
  by (induction xs arbitrary: ps) auto

lemma collect_flags_methods:
  "collect_flags (concat (map (\<lambda>m. [''--method'', g m]) xs)) (ms, ps) = Some (ms @ map g xs, ps)"
  by (induction xs arbitrary: ms) auto

lemma filter_flags_eq:
  "filter_flags (configBPFFilterArgs s) =
     Some (map (map to_upper) (Methods s), if HTTP_Paths s = [] then [''/''] else HTTP_Paths s)"
  by (simp add: filter_flags_def configBPFFilterArgs_def collect_flags_paths collect_flags_methods)

lemma to_upper_allowed: "m \<in> set allowedHTTPMethods \<Longrightarrow> map to_upper m = m"
  by (auto simp: allowedHTTPMethods_def to_upper_def)

section \<open>The search for maps\<close>

text \<open>
  The documented \<open>BPF_MAP_GET_NEXT_ID\<close>: the least loaded id above the given one, or \<open>ENOENT\<close>. The
  kernel hands out ids below \<open>INT_MAX\<close>.
\<close>

definition next_id_ok :: "map_env \<Rightarrow> nat list \<Rightarrow> bool" where
  "next_id_ok E ids \<longleftrightarrow> sorted_wrt (<) ids \<and> (\<forall>i \<in> set ids. i < 2 ^ 31) \<and>
     (\<forall>k. next_id E k = (case find (\<lambda>i. k < i) ids of Some i \<Rightarrow> Inr i | None \<Rightarrow> Inl ENOENT_errno))"

definition openable :: "map_env \<Rightarrow> nat list \<Rightarrow> bool" where
  "openable E ids \<longleftrightarrow> (\<forall>i \<in> set ids. map_by_id E i \<noteq> None \<and> close_ok E i)"

text \<open>The ids the loop gets to see: after an id \<open>i\<close> it asks for one above \<open>i + 1\<close>.\<close>

fun seen_from :: "nat \<Rightarrow> nat list \<Rightarrow> nat list" where
  "seen_from k [] = []"
| "seen_from k (i # is) = (if k < i then i # seen_from (i + 1) is else seen_from k is)"

lemma seen_from_find:
  "seen_from k ids = (case find (\<lambda>i. k < i) ids of None \<Rightarrow> [] | Some i \<Rightarrow> i # seen_from (i + 1) ids)"
proof (induction ids)
  case (Cons a ids)
  show ?case
  proof (cases "k < a")
    case False
    then have "seen_from (i + 1) (a # ids) = seen_from (i + 1) ids" if "find (\<lambda>i. k < i) ids = Some i" for i
      using that by (auto simp: find_Some_iff)
    with Cons False show ?thesis by (simp split: option.splits)
  qed simp
qed simp

lemma seen_from_subset: "set (seen_from k is) \<subseteq> set is"
  by (induction k "is" rule: seen_from.induct) auto

lemma seen_from_above: "j \<in> set (seen_from k is) \<Longrightarrow> k < j"
  by (induction k "is" rule: seen_from.induct) (auto split: if_splits)

lemma distinct_seen_from: "distinct (seen_from k is)"
  by (induction k "is" rule: seen_from.induct) (auto dest: seen_from_above)

text \<open>An id is seen exactly when the number before it is not.\<close>

lemma seen_from_iff:
  assumes "sorted_wrt (<) ids" and "i \<in> set ids" and "k < i"
  shows "i \<in> set (seen_from k ids) \<longleftrightarrow> i - 1 \<notin> set (seen_from k ids)"
  using assms
proof (induction k ids rule: seen_from.induct)
  case (2 k a as)
  show ?case
  proof (cases "k < a \<and> i \<noteq> a")
    case True
    then have "a < i" using 2(3,4) by auto
    then show ?thesis using True 2 by (cases "i = a + 1") (auto dest: seen_from_above)
  next
    case False
    then show ?thesis using 2 by (auto dest: seen_from_above)
  qed
qed simp

lemma maps_from_eq:
  assumes "next_id_ok E ids" and "openable E ids"
  shows "maps_from E name k acc = Some (Inr (acc @ filter (\<lambda>i. map_by_id E i = Some name) (seen_from k ids)))"
proof (induction "length (filter (\<lambda>i. k < i) ids)" arbitrary: k acc rule: less_induct)
  case less
  show ?case
  proof (cases "find (\<lambda>i. k < i) ids")
    case None
    then show ?thesis
      using assms(1) by (subst maps_from.simps, subst seen_from_find) (simp add: next_id_ok_def)
  next
    case (Some i)
    then have i: "i \<in> set ids" "k < i" by (auto simp: find_Some_iff)
    then obtain nm where nm: "map_by_id E i = Some nm" "close_ok E i"
      using assms(2) by (auto simp: openable_def)
    have w: "Suc i mod 4294967296 = Suc i" using assms(1) i(1) by (auto simp: next_id_ok_def)
    have "filter (\<lambda>j. i + 1 < j) ids = filter (\<lambda>j. i + 1 < j) (filter (\<lambda>j. k < j) ids)"
      using i(2) by (auto intro!: filter_cong)
    moreover have "i \<in> set (filter (\<lambda>j. k < j) ids)" "\<not> i + 1 < i" using i by auto
    ultimately have "length (filter (\<lambda>j. i + 1 < j) ids) < length (filter (\<lambda>j. k < j) ids)"
      by (metis length_filter_less)
    from less [OF this] show ?thesis
      using assms(1) nm Some by (subst maps_from.simps, subst seen_from_find) (auto simp: next_id_ok_def w)
  qed
qed

lemma seen_from_spaced:
  assumes "sorted_wrt (<) ids" and "\<forall>i \<in> set ids. k < i \<and> Suc i \<notin> set ids"
  shows "seen_from k ids = ids"
  using assms
proof (induction ids arbitrary: k)
  case (Cons a ids)
  have "a + 1 < j" if "j \<in> set ids" for j
  proof -
    have "a < j" "j \<noteq> Suc a" using Cons.prems that by auto
    then show ?thesis by simp
  qed
  then show ?case using Cons by auto
qed simp

section \<open>The contents of the maps\<close>

text \<open>The documented update of an array map: an element inside the array is replaced.\<close>

definition array_update_ok :: "map_env \<Rightarrow> bool" where
  "array_update_ok E \<longleftrightarrow> (\<forall>vals k v. elem_update E vals k v =
     (if k < length vals then Some (vals[k := v]) else None))"

definition field_value :: "nat \<Rightarrow> string \<Rightarrow> bytes" where
  "field_value n f = pad_to n (ascii f)"

lemma overwrite_zeros: "length v \<le> n \<Longrightarrow> overwrite 0 v (replicate n 0) = pad_to n v"
  by (simp add: overwrite_def pad_to_short)

lemma update_fields_eq:
  assumes "array_update_ok E" and "\<forall>f \<in> set fs. length f \<le> n" and "i + length fs \<le> length vals"
  shows "update_fields E n i fs vals = (None, overwrite i (map (field_value n) fs) vals)"
  using assms(2,3)
proof (induction fs arbitrary: i vals)
  case (Cons f fs)
  have "updateMap E i (ascii f) n vals = Inr (vals[i := field_value n f])"
    using Cons.prems assms(1) by (simp add: updateMap_def array_update_ok_def overwrite_zeros field_value_def)
  moreover have "update_fields E n (Suc i) fs (vals[i := field_value n f]) =
      (None, overwrite (Suc i) (map (field_value n) fs) (vals[i := field_value n f]))"
    using Cons by simp
  ultimately show ?case using Cons.prems by (simp add: overwrite_Cons)
qed simp

lemma populate_ids_eq:
  assumes "array_update_ok E" and "\<forall>f \<in> set fs. length f \<le> n" and "openable E ids" and "distinct ids"
    and "\<forall>k \<in> set ids. length fs \<le> length (st k)"
  shows "populate_ids E fs n ids st =
    (None, True, \<lambda>k. if k \<in> set ids then overwrite 0 (map (field_value n) fs) (st k) else st k)"
  using assms(3-5)
proof (induction ids arbitrary: st)
  case (Cons k ks)
  let ?v = "overwrite 0 (map (field_value n) fs) (st k)"
  obtain nm where nm: "map_by_id E k = Some nm" "close_ok E k" "openable E ks"
    using Cons.prems(1) by (auto simp: openable_def)
  have u: "update_fields E n 0 fs (st k) = (None, ?v)"
    using update_fields_eq [OF assms(1,2), of 0 "st k"] Cons.prems(3) by simp
  have "populate_ids E fs n ks (st(k := ?v)) = (None, True,
      \<lambda>j. if j \<in> set ks then overwrite 0 (map (field_value n) fs) ((st(k := ?v)) j) else (st(k := ?v)) j)"
    using Cons nm by (intro Cons.IH) auto
  with u nm Cons.prems(2) show ?case by (auto simp: fun_eq_iff)
qed simp

lemma populateBPFMap_eq:
  assumes "next_id_ok E ids" and "openable E ids" and "array_update_ok E"
    and "\<forall>f \<in> set fs. length f \<le> n"
    and "\<forall>k \<in> set ids. map_by_id E k = Some name \<longrightarrow> length fs \<le> length (st k)"
  shows "populateBPFMap E name fs n st = Some (None, \<lambda>k.
    if k \<in> set (seen_from 0 ids) \<and> map_by_id E k = Some name
    then overwrite 0 (map (field_value n) fs) (st k) else st k)"
proof -
  let ?ids = "filter (\<lambda>i. map_by_id E i = Some name) (seen_from 0 ids)"
  have "populate_ids E fs n ?ids st = (None, True,
      \<lambda>k. if k \<in> set ?ids then overwrite 0 (map (field_value n) fs) (st k) else st k)"
    using assms seen_from_subset [of 0 ids] distinct_seen_from [of 0 ids] by (intro populate_ids_eq) (auto simp: openable_def)
  then show ?thesis
    by (simp add: populateBPFMap_def GetMapsIDsByName_def maps_from_eq [OF assms(1,2)])
qed

text \<open>What a fresh map of \<open>n\<close> entries of \<open>sz\<close> bytes holds after the fields were written.\<close>

definition filled :: "nat \<Rightarrow> nat \<Rightarrow> string list \<Rightarrow> bytes list" where
  "filled sz n fs = map (field_value sz) fs @ replicate (n - length fs) (replicate sz 0)"

lemma overwrite_fresh: "length fs \<le> n \<Longrightarrow> overwrite 0 (map (field_value sz) fs) (replicate n (replicate sz 0)) = filled sz n fs"
  by (simp add: overwrite_def filled_def)

text \<open>The filters such a map stands for.\<close>

lemma filter_allows_filled:
  assumes "length fs < n \<or> fs \<noteq> []" and "length fs \<le> n"
    and "\<forall>f \<in> set fs. f \<noteq> [] \<and> length f \<le> sz \<and> 0 \<notin> set (ascii f)"
  shows "filter_allows (filled sz n fs) s \<longleftrightarrow> fs = [] \<or> (\<exists>f \<in> set fs. length f < sz \<and> prefix (ascii f) s)"
proof -
  have c: "c_str (field_value sz f) = ascii f" "0 \<in> set (field_value sz f) \<longleftrightarrow> length f < sz" if "f \<in> set fs" for f
    using assms(3) that by (auto simp: field_value_def pad_to_short c_str_id)
  have "\<forall>v \<in> set (map (field_value sz) fs). c_str v \<noteq> []"
    using c(1) assms(3) by (auto simp: ascii_def)
  then have "active_filters (filled sz n fs) = map (field_value sz) fs"
    by (simp add: active_filters_def filled_def takeWhile_append takeWhile_replicate)
  moreover have "filled sz n fs \<noteq> [] \<and> c_str (hd (filled sz n fs)) = [] \<longleftrightarrow> fs = []"
    using assms c(1) by (cases fs) (auto simp: filled_def ascii_def)
  ultimately show ?thesis using c by (auto simp: filter_allows_def)
qed

text \<open>The maps of a freshly loaded object: their entries are all zero.\<close>

definition fresh_maps :: "map_env \<Rightarrow> nat list \<Rightarrow> map_store \<Rightarrow> bool" where
  "fresh_maps E ids st \<longleftrightarrow> (\<forall>k \<in> set ids.
     (map_by_id E k = Some ''filter_methods'' \<longrightarrow> st k = replicate 9 (replicate 8 0)) \<and>
     (map_by_id E k = Some ''filter_paths'' \<longrightarrow> st k = replicate 20 (replicate 90 0)))"

text \<open>
  The program fills the maps the search gets to see; the others keep what they hold, and no error is
  reported.
\<close>

lemma filter_main_fills:
  assumes "next_id_ok E ids" and "openable E ids" and "array_update_ok E" and "fresh_maps E ids st"
    and "filter_flags args = Some (ms, ps)"
    and "length ms \<le> 9" and "\<forall>m \<in> set ms. length m \<le> 8"
    and "length ps \<le> 20" and "\<forall>p \<in> set ps. length p \<le> 90"
  shows "filter_main E args st = Some (None, \<lambda>k.
    if k \<in> set (seen_from 0 ids) \<and> map_by_id E k = Some ''filter_methods'' then filled 8 9 ms
    else if k \<in> set (seen_from 0 ids) \<and> map_by_id E k = Some ''filter_paths'' then filled 90 20 ps else st k)"
proof -
  let ?seen = "set (seen_from 0 ids)"
  have seen: "k \<in> ?seen \<Longrightarrow> k \<in> set ids" for k using seen_from_subset by blast
  define st1 where "st1 = (\<lambda>k. if k \<in> ?seen \<and> map_by_id E k = Some ''filter_methods''
    then filled 8 9 ms else st k)"
  have 1: "populateBPFMap E ''filter_methods'' ms 8 st = Some (None, st1)"
    using assms(4,6) populateBPFMap_eq [OF assms(1,2,3,7), of "''filter_methods''" st]
    by (auto simp: seen fresh_maps_def overwrite_fresh st1_def cong: if_cong)
  have 2: "populateBPFMap E ''filter_paths'' ps 90 st1 = Some (None, \<lambda>k.
      if k \<in> ?seen \<and> map_by_id E k = Some ''filter_paths'' then filled 90 20 ps else st1 k)"
    using assms(4,8) populateBPFMap_eq [OF assms(1,2,3,9), of "''filter_paths''" st1]
    by (auto simp: seen fresh_maps_def overwrite_fresh st1_def cong: if_cong)
  have "filter_main E args st = Some (None, \<lambda>k.
      if k \<in> ?seen \<and> map_by_id E k = Some ''filter_paths'' then filled 90 20 ps else st1 k)"
    by (simp add: filter_main_def assms(5) MaxMethodLen_def MaxPathLen_def 1 2)
  then show ?thesis by (auto simp: st1_def fun_eq_iff)
qed

section \<open>A concrete kernel\<close>

text \<open>The map calls over a list of loaded maps (ids ascending, with their names).\<close>

definition list_env :: "(nat \<times> string) list \<Rightarrow> map_env" where
  "list_env ms = \<lparr>next_id = (\<lambda>k. case find (\<lambda>i. k < i) (map fst ms) of Some i \<Rightarrow> Inr i
       | None \<Rightarrow> Inl ENOENT_errno),
     map_by_id = map_of ms, close_ok = (\<lambda>i. True),
     elem_update = (\<lambda>vals k v. if k < length vals then Some (vals[k := v]) else None)\<rparr>"

lemma list_env_ok:
  "sorted_wrt (<) (map fst ms) \<Longrightarrow> list_all (\<lambda>i. i < 2 ^ 31) (map fst ms) \<Longrightarrow> next_id_ok (list_env ms) (map fst ms)"
  "openable (list_env ms) (map fst ms)" "array_update_ok (list_env ms)"
  by (auto simp: next_id_ok_def list_env_def openable_def array_update_ok_def
      map_of_eq_None_iff list_all_iff)

section \<open>Properties\<close>

text \<open>
  C33: the HTTP part of a network disruption is accepted exactly when it has at most 20 distinct paths,
  each of 1 to 90 characters, without white space, starting with a slash (and not the lone slash when
  there are several), and at most 9 distinct methods out of the nine known ones. On a list of at most
  20 paths that contains the empty path the validation does not return an error but panics.
\<close>

theorem validate_http_iff:
  "(validate_http s = Some [] \<longleftrightarrow>
      length (HTTP_Paths s) \<le> 20 \<and> distinct (HTTP_Paths s) \<and> (\<forall>p \<in> set (HTTP_Paths s). good_path p) \<and>
      (length (HTTP_Paths s) > 1 \<longrightarrow> ''/'' \<notin> set (HTTP_Paths s)) \<and>
      length (Methods s) \<le> 9 \<and> distinct (Methods s) \<and> set (Methods s) \<subseteq> set allowedHTTPMethods) \<and>
   (validate_http s = None \<longleftrightarrow> length (HTTP_Paths s) \<le> 20 \<and> [] \<in> set (HTTP_Paths s))"
proof -
  have "validate_http s = Some [] \<longleftrightarrow> validate_paths (HTTP_Paths s) = Some [] \<and> validate_methods (Methods s) = []"
    by (cases "validate_paths (HTTP_Paths s)") (auto simp: validate_http_def)
  moreover have "validate_http s = None \<longleftrightarrow> length (HTTP_Paths s) \<le> 20 \<and> [] \<in> set (HTTP_Paths s)"
    by (auto simp: validate_http_def validate_paths_def MaxNetworkPaths_def check_paths_panic)
  ultimately show ?thesis unfolding validate_paths_good validate_methods_good by blast
qed

definition sample_http :: NetworkHTTPFilters where
  "sample_http = \<lparr>Methods = [''GET''], HTTP_Paths = [''/a'', ''/b'']\<rparr>"

theorem validate_http_iff_witness:
  "validate_http sample_http = Some [] \<and> validate_http (sample_http\<lparr>HTTP_Paths := [[]]\<rparr>) = None"
  using validate_http_iff [of sample_http] validate_http_iff [of "sample_http\<lparr>HTTP_Paths := [[]]\<rparr>"]
  by (simp add: sample_http_def good_path_def is_blank_def allowedHTTPMethods_def)

text \<open>
  A valid resource with several paths and no method does not count as having HTTP filters:
  \<open>isNotDefault\<close> answers false as soon as there is more than one path. The injector then disrupts
  all the traffic of the pod instead of the chosen paths.
\<close>

theorem several_paths_ignored:
  assumes "validate_http s = Some []" and "Methods s = []" and "length (HTTP_Paths s) > 1"
  shows "\<not> HasHTTPFilters (Some s) \<and> (\<forall>p \<in> set (HTTP_Paths s). p \<noteq> ''/'')"
proof -
  have "validate_paths (HTTP_Paths s) = Some []"
    using assms(1,2) by (cases "validate_paths (HTTP_Paths s)") (auto simp: validate_http_def validate_methods_def)
  then show ?thesis
    using assms(2,3) by (auto simp: HasHTTPFilters_def isNotDefault_def validate_paths_good)
qed

theorem several_paths_ignored_witness:
  "\<not> HasHTTPFilters (Some (sample_http\<lparr>Methods := []\<rparr>))"
proof -
  have "validate_paths [''/a'', ''/b''] = Some []"
    unfolding validate_paths_good by (simp add: good_path_def is_blank_def)
  then have "validate_http (sample_http\<lparr>Methods := []\<rparr>) = Some []"
    by (simp add: sample_http_def validate_http_def validate_methods_def)
  then show ?thesis
    using several_paths_ignored [of "sample_http\<lparr>Methods := []\<rparr>"] by (simp add: sample_http_def)
qed

text \<open>
  The injector's arguments carry a valid resource to the program that fills the maps: its flags
  are the methods and the paths, in order, or the default path \<open>/\<close> when there is none.
\<close>

theorem filter_args_roundtrip:
  assumes "set (Methods s) \<subseteq> set allowedHTTPMethods"
  shows "filter_flags (configBPFFilterArgs s) =
    Some (Methods s, if HTTP_Paths s = [] then [''/''] else HTTP_Paths s)"
proof -
  have "map (map to_upper) (Methods s) = Methods s"
    by (rule map_idI) (rule to_upper_allowed, rule subsetD [OF assms])
  then show ?thesis by (simp add: filter_flags_eq)
qed

theorem filter_args_roundtrip_witness:
  "filter_flags (configBPFFilterArgs sample_http) = Some ([''GET''], [''/a'', ''/b''])"
  using filter_args_roundtrip [of sample_http] by (simp add: sample_http_def allowedHTTPMethods_def)

text \<open>
  C23: the search for maps by name returns on every kernel that lists its maps as documented and lets them be
  opened and closed. It returns the
  maps of that name among the ids it sees, and it sees a loaded id exactly when it does not see the number
  before it: of two maps with consecutive ids one is missed. When no two loaded maps have consecutive ids the
  result is complete.
\<close>

theorem GetMapsIDsByName_complete:
  assumes "next_id_ok E ids" and "openable E ids"
  shows "GetMapsIDsByName E name = Some (Inr (filter (\<lambda>i. map_by_id E i = Some name) (seen_from 0 ids))) \<and>
    set (seen_from 0 ids) \<subseteq> set ids \<and>
    (\<forall>i \<in> set ids. 0 < i \<longrightarrow> (i \<in> set (seen_from 0 ids) \<longleftrightarrow> i - 1 \<notin> set (seen_from 0 ids))) \<and>
    ((\<forall>i \<in> set ids. 0 < i \<and> Suc i \<notin> set ids) \<longrightarrow>
       GetMapsIDsByName E name = Some (Inr (filter (\<lambda>i. map_by_id E i = Some name) ids)))"
proof -
  have sorted: "sorted_wrt (<) ids" using assms(1) by (simp add: next_id_ok_def)
  have "GetMapsIDsByName E name = Some (Inr (filter (\<lambda>i. map_by_id E i = Some name) (seen_from 0 ids)))"
    by (simp add: GetMapsIDsByName_def maps_from_eq [OF assms])
  then show ?thesis
    using seen_from_subset [of 0 ids] seen_from_iff [OF sorted] seen_from_spaced [OF sorted, of 0] by simp
qed

theorem GetMapsIDsByName_complete_witness:
  "GetMapsIDsByName (list_env [(4, ''filter_methods''), (6, ''filter_paths''), (9, ''filter_paths'')])
     ''filter_paths'' = Some (Inr [6, 9]) \<and>
   GetMapsIDsByName (list_env [(4, ''filter_methods''), (5, ''filter_paths''), (9, ''filter_paths'')])
     ''filter_paths'' = Some (Inr [9])"
  using GetMapsIDsByName_complete [OF list_env_ok(1,2),
      of "[(4, ''filter_methods''), (6, ''filter_paths''), (9, ''filter_paths'')]" "''filter_paths''"]
    GetMapsIDsByName_complete [OF list_env_ok(1,2),
      of "[(4, ''filter_methods''), (5, ''filter_paths''), (9, ''filter_paths'')]" "''filter_paths''"]
  by (simp add: list_env_def)

text \<open>
  Consecutive ids are missed. After a map the loop asks for an id above the next number, so of two
  maps with consecutive ids (as an object that declares both gets them) the second is not found:
  populating it changes nothing and reports no error.
\<close>

theorem consecutive_map_missed:
  assumes "next_id_ok E [k, Suc k]" and "openable E [k, Suc k]" and "0 < k"
    and "map_by_id E k \<noteq> Some name"
  shows "GetMapsIDsByName E name = Some (Inr []) \<and> populateBPFMap E name fs n st = Some (None, st)"
proof -
  have "GetMapsIDsByName E name = Some (Inr [])"
    using assms(3,4) by (simp add: GetMapsIDsByName_def maps_from_eq [OF assms(1,2)])
  then show ?thesis by (simp add: populateBPFMap_def)
qed

theorem consecutive_map_missed_witness:
  "populateBPFMap (list_env [(5, ''filter_methods''), (6, ''filter_paths'')]) ''filter_paths'' [''/a''] 90 (\<lambda>k. []) =
     Some (None, \<lambda>k. [])"
  using consecutive_map_missed [of "list_env [(5, ''filter_methods''), (6, ''filter_paths'')]" 5 "''filter_paths''" "[''/a'']" 90 "\<lambda>k. []"]
    list_env_ok(1,2) [of "[(5, ''filter_methods''), (6, ''filter_paths'')]"]
  by (simp add: list_env_def)

text \<open>
  Populating writes the fields, each padded with NULs, to the first entries of every map of the
  given name the search finds, and leaves the other entries and the other maps as they were.
\<close>

theorem populateBPFMap_writes:
  assumes "next_id_ok E ids" and "openable E ids" and "array_update_ok E"
    and "\<forall>f \<in> set fs. length f \<le> n"
    and "\<forall>k \<in> set ids. map_by_id E k = Some name \<longrightarrow> length fs \<le> length (st k)"
  shows "\<exists>st'. populateBPFMap E name fs n st = Some (None, st') \<and>
    (\<forall>k. st' k = (if k \<in> set (seen_from 0 ids) \<and> map_by_id E k = Some name
       then map (\<lambda>f. pad_to n (ascii f)) fs @ drop (length fs) (st k) else st k))"
  using populateBPFMap_eq [OF assms] by (auto simp: overwrite_def field_value_def [abs_def])

theorem populateBPFMap_writes_witness:
  "\<exists>st'. populateBPFMap (list_env [(4, ''filter_paths'')]) ''filter_paths'' [''/a''] 4 (\<lambda>k. replicate 2 (replicate 4 0)) =
     Some (None, st') \<and> st' 4 = [pad_to 4 (ascii ''/a''), replicate 4 0]"
  using populateBPFMap_writes [OF list_env_ok, of "[(4, ''filter_paths'')]" "[''/a'']" 4
      "''filter_paths''" "\<lambda>k. replicate 2 (replicate 4 0)"]
  by (auto simp: list_env_def)

text \<open>
  \<open>updateMap\<close> on every branch: a value longer than the entry makes the slice expression panic, a
  key outside the array is an error, and any other update stores the padded value.
\<close>

theorem updateMap_branches:
  assumes "array_update_ok E"
  shows "updateMap E key v n vals =
    (if n < length v then Inl Panic_slice
     else if length vals \<le> key then Inl Update_map
     else Inr (vals[key := pad_to n v]))"
  using assms by (auto simp: updateMap_def array_update_ok_def overwrite_zeros)

theorem updateMap_branches_witness:
  "updateMap (list_env []) 20 [47] 90 (replicate 20 (replicate 90 0)) = Inl Update_map"
  using updateMap_branches [OF list_env_ok(3), of "[]" 20 "[47]" 90 "replicate 20 (replicate 90 0)"] by simp

end
