(* ===== verification/Disk_Failure.thy ===== *)
theory Disk_Failure
  imports Vmlinux_Amd64 Vmlinux_Aarch64
begin

text \<open>
  \<open>src/ebpf/disk-failure/injection.bpf.c\<close>: the kprobe on \<open>openat\<close> that makes a share of the calls of
  a process and its children fail. The read-only globals are the record \<open>rodata\<close>, the two counters
  are the state, and one run of the program gives the effects it has on the kernel (the event sent to
  user space, the overridden return value) and the counters afterwards.

  What the kernel's helpers answer during one run is the record \<open>kprobe_env\<close>. The \<open>vmlinux.h\<close>
  structures carry \<open>preserve_access_index\<close>: the loader resolves \<open>real_parent\<close> and \<open>tgid\<close> in the
  running kernel's \<open>task_struct\<close>, which is therefore an argument. A read outside a local array is
  \<^term>\<open>None\<close>. The program is the one built for a supported architecture (\<open>__TARGET_ARCH_x86\<close> or
  \<open>__TARGET_ARCH_arm64\<close> defined).
\<close>

section \<open>Globals, environment and effects\<close>

text \<open>\<open>pid_t\<close> and \<open>int\<close> are 32-bit integers; the comparisons with \<open>u32\<close> values are unsigned.\<close>

record rodata =
  target_pid :: u32
  exclude_pid :: u32
  filter_path :: bytes
  exit_code :: u32
  probability :: u32

definition FILTER_PATH_SIZE :: nat where [c_consts]: "FILTER_PATH_SIZE = 61"
definition ENOENT :: u32 where [c_consts]: "ENOENT = 2"

definition rodata_init :: rodata where
  "rodata_init = \<lparr>target_pid = 0, exclude_pid = 0, filter_path = replicate FILTER_PATH_SIZE 0,
     exit_code = ENOENT, probability = 100\<rparr>"

record counters =
  hits :: u32
  disruptedHits :: u32

definition counters_init :: counters where
  "counters_init = \<lparr>hits = 0, disruptedHits = 0\<rparr>"

record data_t =
  ev_ppid :: u32
  ev_pid :: u32
  ev_tid :: u32
  ev_id :: u32
  ev_comm :: bytes

text \<open>The C type of the event and its representation in memory (the BPF target is little-endian).\<close>

definition data_t_type :: ctype where
  "data_t_type = CStruct [Field ''ppid'' (CBase CUInt), Field ''pid'' (CBase CUInt),
     Field ''tid'' (CBase CUInt), Field ''id'' (CBase CUInt), Field ''comm'' (CArr (CBase CChar) 100)]"

definition data_bytes :: "data_t \<Rightarrow> bytes" where
  "data_bytes d = le_bytes 4 (ev_ppid d) @ le_bytes 4 (ev_pid d) @ le_bytes 4 (ev_tid d) @
     le_bytes 4 (ev_id d) @ ev_comm d"

text \<open>
  The probe read and \<open>bpf_get_current_comm\<close> give the contents of the destination buffer afterwards.
  \<open>parm1\<close> and \<open>parm2_core\<close> are \<open>PT_REGS_PARM1\<close> of the context and \<open>PT_REGS_PARM2_CORE\<close>.
\<close>

record kprobe_env =
  current_pid_tgid :: u64
  current_uid_gid :: u64
  current_task :: u64
  probe_read :: "nat \<Rightarrow> u64 \<Rightarrow> bytes"
  current_comm :: "nat \<Rightarrow> bytes"
  parm1 :: u64
  parm2_core :: "u64 \<Rightarrow> u64"
  filter_path_addr :: u64

datatype kernel_effect = Perf_output bytes | Override_return u64

section \<open>The program\<close>

definition task_off :: "ctype \<Rightarrow> string \<Rightarrow> u64" where
  "task_off task_struct f = of_nat (case offsetof task_struct f of Some k \<Rightarrow> k | None \<Rightarrow> 0)"

text \<open>The two probe reads that fetch the thread group id of the parent.\<close>

definition parent_tgid :: "ctype \<Rightarrow> kprobe_env \<Rightarrow> u32" where
  "parent_tgid task_struct K =
     (let real_parent = le_word (probe_read K 8 (current_task K + task_off task_struct ''real_parent''))
      in le_word (probe_read K 4 (real_parent + task_off task_struct ''tgid'')))"

definition filter_len :: int where [c_consts]: "filter_len = int (FILTER_PATH_SIZE div 1) - 1"

function cmp_path_loop :: "bytes \<Rightarrow> bytes \<Rightarrow> nat \<Rightarrow> bool option" where
  "cmp_path_loop cmp_path_name cmp_expected_path i =
     (if int i < filter_len then do {
        c \<leftarrow> nth_opt cmp_expected_path i;
        if c = 0 then Some True
        else do {
          d \<leftarrow> nth_opt cmp_path_name i;
          if d \<noteq> c then Some False else cmp_path_loop cmp_path_name cmp_expected_path (Suc i)
        }
      } else Some True)"
  by pat_completeness auto
termination by (relation "measure (\<lambda>(_, _, i). nat filter_len - i)") auto

declare cmp_path_loop.simps [simp del]

text \<open>\<^term>\<open>True\<close> when the opened path has the configured prefix.\<close>

definition path_check :: "kprobe_env \<Rightarrow> bool option" where
  "path_check K =
     (let real_regs = parm1 K;
          path = parm2_core K real_regs;
          cmp_path_name = probe_read K 62 path;
          cmp_expected_path = probe_read K 62 (filter_path_addr K)
      in if filter_len > 62 then Some False else cmp_path_loop cmp_path_name cmp_expected_path 0)"

text \<open>
  The rate limiter. \<open>disruptedHits * 100\<close> is a product of 32-bit integers, widened afterwards; the
  quotient is compared with the sign-extended \<open>probability\<close>.
\<close>

definition rate_gate :: "u32 \<Rightarrow> counters \<Rightarrow> bool \<times> counters" where
  "rate_gate p s =
     (if hits s \<noteq> 0 \<and> (scast p :: u64) < ucast (disruptedHits s * 100) div ucast (hits s)
      then (False, s\<lparr>hits := hits s + 1\<rparr>)
      else (True, s\<lparr>hits := hits s + 1, disruptedHits := disruptedHits s + 1\<rparr>))"

definition emit :: "rodata \<Rightarrow> kprobe_env \<Rightarrow> u32 \<Rightarrow> kernel_effect list" where
  "emit G K ppid =
     (let d = \<lparr>ev_ppid = ppid, ev_pid = ucast (current_pid_tgid K),
            ev_tid = ucast (drop_bit 32 (current_pid_tgid K)), ev_id = ucast (current_uid_gid K),
            ev_comm = current_comm K 100\<rparr>
      in [Perf_output (take 100 (data_bytes d)), Override_return (scast (- exit_code G))])"

definition injection_disk_failure ::
  "ctype \<Rightarrow> rodata \<Rightarrow> kprobe_env \<Rightarrow> counters \<Rightarrow> (kernel_effect list \<times> counters) option" where
  "injection_disk_failure task_struct G K s =
     (let pid = (ucast (current_pid_tgid K) :: u32);
          tid = (ucast (drop_bit 32 (current_pid_tgid K)) :: u32);
          ppid = (if pid \<noteq> 1 then parent_tgid task_struct K else 0)
      in if pid = exclude_pid G then Some ([], s)
         else if pid \<noteq> 1 \<and> target_pid G \<noteq> 0 \<and> ppid \<noteq> target_pid G \<and> pid \<noteq> target_pid G
         then Some ([], s)
         else if ppid = exclude_pid G \<or> tid = exclude_pid G then Some ([], s)
         else do {
           ok \<leftarrow> path_check K;
           if \<not> ok then Some ([], s)
           else if probability G \<noteq> 100 then
             (case rate_gate (probability G) s of (go, s) \<Rightarrow>
                Some (if go then emit G K ppid else [], s))
           else Some (emit G K ppid, s)
         })"

text \<open>A sequence of runs, on the counters the previous ones left.\<close>

fun run_disk ::
  "ctype \<Rightarrow> rodata \<Rightarrow> kprobe_env list \<Rightarrow> counters \<Rightarrow> (kernel_effect list \<times> counters) option" where
  "run_disk task_struct G [] s = Some ([], s)"
| "run_disk task_struct G (K # Ks) s = do {
     (es, s) \<leftarrow> injection_disk_failure task_struct G K s;
     (es', s) \<leftarrow> run_disk task_struct G Ks s;
     Some (es @ es', s)
   }"

section \<open>Which calls are selected\<close>

text \<open>
  The read-only data as the program sees it: the probe read of 62 bytes at \<open>filter_path\<close> gives its 61
  bytes and the byte that follows it, and every probe read fills its buffer.
\<close>

definition env_ok :: "rodata \<Rightarrow> kprobe_env \<Rightarrow> bool" where
  "env_ok G K \<longleftrightarrow> length (filter_path G) = FILTER_PATH_SIZE \<and>
     (\<forall>n a. length (probe_read K n a) = n) \<and> length (current_comm K 100) = 100 \<and>
     take FILTER_PATH_SIZE (probe_read K 62 (filter_path_addr K)) = filter_path G"

definition the_pid :: "kprobe_env \<Rightarrow> u32" where
  "the_pid K = ucast (current_pid_tgid K)"

definition the_tgid :: "kprobe_env \<Rightarrow> u32" where
  "the_tgid K = ucast (drop_bit 32 (current_pid_tgid K))"

definition the_ppid :: "ctype \<Rightarrow> kprobe_env \<Rightarrow> u32" where
  "the_ppid task_struct K = (if the_pid K \<noteq> 1 then parent_tgid task_struct K else 0)"

definition opened_path :: "kprobe_env \<Rightarrow> bytes" where
  "opened_path K = probe_read K 62 (parm2_core K (parm1 K))"

definition selected :: "ctype \<Rightarrow> rodata \<Rightarrow> kprobe_env \<Rightarrow> bool" where
  "selected task_struct G K \<longleftrightarrow>
     exclude_pid G \<notin> {the_pid K, the_tgid K, the_ppid task_struct K} \<and>
     (the_pid K = 1 \<or> target_pid G = 0 \<or> target_pid G \<in> {the_pid K, the_ppid task_struct K}) \<and>
     prefix (take 60 (c_str (filter_path G))) (opened_path K)"

lemma take_c_str: "n \<le> k \<Longrightarrow> take n (c_str (take k xs)) = take n (c_str xs)"
proof (induction xs arbitrary: n k)
  case (Cons x xs)
  then show ?case by (cases n; cases k) (auto simp: c_str_Cons)
qed simp

lemma cmp_path_loop_eq:
  assumes "length e = 62" and "length nm = 62" and "i \<le> 60"
  shows "cmp_path_loop nm e i = Some (prefix (take (60 - i) (c_str (drop i e))) (drop i nm))"
  using assms(3)
proof (induction "60 - i" arbitrary: i)
  case 0
  then show ?case by (subst cmp_path_loop.simps) (simp add: c_consts)
next
  case (Suc n)
  then have i: "i < 60" by simp
  then have d: "drop i e = e ! i # drop (Suc i) e" "drop i nm = nm ! i # drop (Suc i) nm"
    using assms by (simp_all add: Cons_nth_drop_Suc)
  have "60 - i = Suc (60 - Suc i)" using i by arith
  moreover have "cmp_path_loop nm e (Suc i) =
      Some (prefix (take (60 - Suc i) (c_str (drop (Suc i) e))) (drop (Suc i) nm))"
    using Suc i by simp
  ultimately show ?case
    by (subst cmp_path_loop.simps) (use i assms in \<open>auto simp: c_consts d c_str_Cons\<close>)
qed

lemma path_check_eq:
  assumes "env_ok G K"
  shows "path_check K = Some (prefix (take 60 (c_str (filter_path G))) (opened_path K))"
proof -
  let ?e = "probe_read K 62 (filter_path_addr K)"
  have "filter_path G = take 61 ?e" using assms by (simp add: env_ok_def c_consts)
  then have "take 60 (c_str (filter_path G)) = take 60 (c_str ?e)" by (simp add: take_c_str)
  then show ?thesis
    using assms cmp_path_loop_eq [of ?e "opened_path K" 0]
    by (simp add: path_check_def Let_def opened_path_def env_ok_def filter_len_def FILTER_PATH_SIZE_def)
qed

lemma injection_disk_failure_eq:
  assumes "env_ok G K"
  shows "injection_disk_failure T G K s =
    Some (if \<not> selected T G K then ([], s)
          else if probability G = 100 then (emit G K (the_ppid T K), s)
          else (if fst (rate_gate (probability G) s) then emit G K (the_ppid T K) else [],
                snd (rate_gate (probability G) s)))"
  using assms
  by (auto simp: injection_disk_failure_def Let_def path_check_eq selected_def the_pid_def
      the_tgid_def the_ppid_def split: prod.splits)

section \<open>The rate limiter\<close>

lemma scast_small: "(p :: u32) < 2 ^ 31 \<Longrightarrow> (scast p :: u64) = ucast p"
proof (rule bit_word_eqI)
  fix k
  assume "p < 2 ^ 31" and k: "k < LENGTH(64)"
  then have "drop_bit 31 p = 0" by (simp add: drop_bit_eq_div div_word_less)
  then have nb: "\<not> bit (drop_bit 31 p) (j - 31)" for j by simp
  have "\<not> bit p j" if "31 \<le> j" for j
    using nb [of j] that by (simp add: bit_drop_bit_eq)
  with k show "bit (scast p :: u64) k = bit (ucast p :: u64) k"
    by (auto simp: bit_signed_iff bit_ucast_iff min_def)
qed

lemma rate_gate_nat:
  assumes "unat p < 2 ^ 31" and "100 * unat (disruptedHits s) < 2 ^ 32"
  shows "fst (rate_gate p s) \<longleftrightarrow>
    hits s = 0 \<or> 100 * unat (disruptedHits s) div unat (hits s) \<le> unat p"
proof -
  have "p < 2 ^ 31" using assms(1) by (simp add: word_less_nat_alt)
  moreover have "unat (disruptedHits s * 100) = 100 * unat (disruptedHits s)"
    using assms(2) by (simp add: unat_word_ariths)
  ultimately have "(scast p :: u64) < ucast (disruptedHits s * 100) div ucast (hits s) \<longleftrightarrow>
      unat p < 100 * unat (disruptedHits s) div unat (hits s)"
    by (simp add: word_less_nat_alt scast_small unat_div unat_ucast_up)
  then show ?thesis by (auto simp: rate_gate_def)
qed

lemma rate_gate_counters:
  "snd (rate_gate p s) = s\<lparr>hits := hits s + 1,
     disruptedHits := disruptedHits s + (if fst (rate_gate p s) then 1 else 0)\<rparr>"
  by (simp add: rate_gate_def)

text \<open>
  The invariant: the disrupted calls are \<open>(p + 1)\<close> percent of the selected ones, up to one call.
\<close>

definition rate_inv :: "nat \<Rightarrow> nat \<Rightarrow> nat \<Rightarrow> bool" where
  "rate_inv p h d \<longleftrightarrow> d \<le> h \<and> (p + 1) * h \<le> 100 * d + (p + 1) \<and> 100 * d < (p + 1) * h + 100"

lemma rate_inv_step:
  assumes "rate_inv p h d" and "p < 100"
  shows "h = 0 \<or> 100 * d div h \<le> p \<Longrightarrow> rate_inv p (h + 1) (d + 1)"
    and "h \<noteq> 0 \<Longrightarrow> p < 100 * d div h \<Longrightarrow> rate_inv p (h + 1) d"
proof -
  assume go: "h = 0 \<or> 100 * d div h \<le> p"
  have "100 * d < (p + 1) * h + (if h = 0 then 1 else 0)"
  proof (cases "h = 0")
    case False
    then have "100 * d div h < p + 1" using go by simp
    then show ?thesis using False by (simp add: div_less_iff_less_mult)
  qed (use assms(1) in \<open>simp add: rate_inv_def\<close>)
  with assms show "rate_inv p (h + 1) (d + 1)"
    by (cases "h = 0") (auto simp: rate_inv_def)
next
  assume "h \<noteq> 0" and "p < 100 * d div h"
  then have "(p + 1) * h \<le> 100 * d"
    by (metis Suc_eq_plus1 Suc_leI div_times_less_eq_dividend dual_order.trans mult_le_mono1)
  with assms show "rate_inv p (h + 1) d" by (auto simp: rate_inv_def)
qed

definition overrides :: "kernel_effect list \<Rightarrow> u64 list" where
  "overrides es = concat (map (\<lambda>e. case e of Override_return r \<Rightarrow> [r] | _ \<Rightarrow> []) es)"

lemma overrides_simps [simp]:
  "overrides [] = []" "overrides (es @ es') = overrides es @ overrides es'"
  "overrides (emit G K q) = [scast (- exit_code G)]"
  by (simp_all add: overrides_def emit_def Let_def)

lemma run_disk_inv:
  assumes "\<forall>K \<in> set Ks. env_ok G K" and "unat (probability G) < 100"
    and "rate_inv (unat (probability G)) (unat (hits s)) (unat (disruptedHits s))"
    and "100 * (unat (hits s) + length (filter (selected T G) Ks)) < 2 ^ 32"
  shows "\<exists>es s'. run_disk T G Ks s = Some (es, s') \<and>
    unat (hits s') = unat (hits s) + length (filter (selected T G) Ks) \<and>
    unat (disruptedHits s') = unat (disruptedHits s) + length (overrides es) \<and>
    rate_inv (unat (probability G)) (unat (hits s')) (unat (disruptedHits s'))"
  using assms(1,3,4)
proof (induction Ks arbitrary: s)
  case (Cons K Ks)
  let ?p = "unat (probability G)" and ?g = "rate_gate (probability G) s"
  have ok: "env_ok G K" using Cons.prems by simp
  have p: "probability G \<noteq> 100" using assms(2) by auto
  show ?case
  proof (cases "selected T G K")
    case False
    then show ?thesis
      using Cons.IH [of s] Cons.prems by (auto simp: injection_disk_failure_eq [OF ok])
  next
    case True
    let ?s = "snd ?g" and ?d = "if fst ?g then 1 else 0"
    have small: "100 * (unat (hits s) + 1 + length (filter (selected T G) Ks)) < 2 ^ 32"
      using Cons.prems(3) True by simp
    have dh: "unat (disruptedHits s) \<le> unat (hits s)" using Cons.prems(2) by (simp add: rate_inv_def)
    have u: "unat (hits ?s) = unat (hits s) + 1"
      "unat (disruptedHits ?s) = unat (disruptedHits s) + ?d"
      using small dh by (simp_all add: rate_gate_counters unat_word_ariths)
    have g: "fst ?g \<longleftrightarrow> unat (hits s) = 0 \<or> 100 * unat (disruptedHits s) div unat (hits s) \<le> ?p"
      using rate_gate_nat [of "probability G" s] small dh assms(2) by (simp add: unat_eq_zero)
    have "rate_inv ?p (unat (hits s) + 1) (unat (disruptedHits s) + ?d)"
      using rate_inv_step [OF Cons.prems(2) assms(2)] g by (auto simp: not_le)
    then obtain es s' where "run_disk T G Ks ?s = Some (es, s')"
      "unat (hits s') = unat (hits ?s) + length (filter (selected T G) Ks)"
      "unat (disruptedHits s') = unat (disruptedHits ?s) + length (overrides es)"
      "rate_inv ?p (unat (hits s')) (unat (disruptedHits s'))"
      using Cons.IH [of ?s] Cons.prems(1) small u by auto
    then show ?thesis
      using True p u by (simp add: injection_disk_failure_eq [OF ok])
  qed
qed simp

lemma run_disk_always:
  assumes "\<forall>K \<in> set Ks. env_ok G K" and "probability G = 100"
  shows "\<exists>es. run_disk T G Ks s = Some (es, s) \<and>
    overrides es = replicate (length (filter (selected T G) Ks)) (scast (- exit_code G))"
  using assms(1)
proof (induction Ks)
  case (Cons K Ks)
  then obtain es where "run_disk T G Ks s = Some (es, s)"
    "overrides es = replicate (length (filter (selected T G) Ks)) (scast (- exit_code G))" by auto
  then show ?case
    using Cons.prems assms(2) by (auto simp: injection_disk_failure_eq [of G K])
qed simp

lemma run_disk_bounds:
  assumes "\<forall>K \<in> set Ks. env_ok G K" and "100 * length (filter (selected T G) Ks) < 2 ^ 32"
    and "unat (probability G) \<le> 100"
  shows "\<exists>es c. run_disk T G Ks counters_init = Some (es, c) \<and>
    (let h = length (filter (selected T G) Ks); d = length (overrides es); p = unat (probability G)
     in if p = 100 then d = h else (p + 1) * h \<le> 100 * d + (p + 1) \<and> 100 * d < (p + 1) * h + 100)"
proof (cases "unat (probability G) = 100")
  case True
  then have "probability G = 100" by (simp add: word_unat_eq_iff)
  then show ?thesis
    using run_disk_always [OF assms(1), of T counters_init] True by (auto simp: Let_def)
next
  case False
  have "rate_inv (unat (probability G)) 0 0" by (simp add: rate_inv_def)
  then show ?thesis
    using run_disk_inv [OF assms(1), of counters_init T] assms(2,3) False
    by (auto simp: counters_init_def rate_inv_def Let_def)
qed

section \<open>Reachable states\<close>

text \<open>
  The states of the counters and the effects so far, over any sequence of calls; unlike the bounds on
  the rate this needs no limit on the number of calls.
\<close>

inductive disk_reach :: "ctype \<Rightarrow> rodata \<Rightarrow> counters \<Rightarrow> kernel_effect list \<Rightarrow> bool" for T G where
  init: "disk_reach T G counters_init []"
| call: "disk_reach T G s es \<Longrightarrow> env_ok G K \<Longrightarrow> injection_disk_failure T G K s = Some (es', s') \<Longrightarrow>
    disk_reach T G s' (es @ es')"

inductive_cases disk_reach_NilE: "disk_reach T G s []"

definition outputs :: "kernel_effect list \<Rightarrow> bytes list" where
  "outputs es = concat (map (\<lambda>e. case e of Perf_output b \<Rightarrow> [b] | _ \<Rightarrow> []) es)"

lemma outputs_simps [simp]:
  "outputs [] = []" "outputs (es @ es') = outputs es @ outputs es'" "length (outputs (emit G K q)) = 1"
  by (simp_all add: outputs_def emit_def Let_def)

lemma outputs_emit_length:
  assumes "env_ok G K"
  shows "\<forall>b \<in> set (outputs (emit G K q)). length b = 100"
  using assms by (simp add: outputs_def emit_def Let_def data_bytes_def env_ok_def)

lemma step_cases:
  assumes "env_ok G K" and "injection_disk_failure T G K s = Some (es, s')"
  obtains "es = []" "disruptedHits s' = disruptedHits s"
  | "es = emit G K (the_ppid T K)" "disruptedHits s' = disruptedHits s + (if probability G = 100 then 0 else 1)"
  using assms that
  by (auto simp: injection_disk_failure_eq [OF assms(1)] rate_gate_counters split: if_splits)

section \<open>Reading the parent through \<open>task_struct\<close>\<close>

text \<open>Kernel memory as bytes by address, and an object stored in it.\<close>

definition read_mem :: "(u64 \<Rightarrow> u8) \<Rightarrow> nat \<Rightarrow> u64 \<Rightarrow> bytes" where
  "read_mem mem n a = map (\<lambda>i. mem (a + of_nat i)) [0..<n]"

definition stored :: "(u64 \<Rightarrow> u8) \<Rightarrow> u64 \<Rightarrow> bytes \<Rightarrow> bool" where
  "stored mem a obj \<longleftrightarrow> read_mem mem (length obj) a = obj"

lemma read_mem_stored:
  assumes "stored mem a obj" and "k + n \<le> length obj"
  shows "read_mem mem n (a + of_nat k) = slice k n obj"
proof (rule nth_equalityI)
  show "length (read_mem mem n (a + of_nat k)) = length (slice k n obj)"
    using assms(2) by (simp add: read_mem_def)
next
  fix i
  assume "i < length (read_mem mem n (a + of_nat k))"
  then have i: "i < n" by (simp add: read_mem_def)
  have "obj ! (k + i) = read_mem mem (length obj) a ! (k + i)"
    using assms(1) by (simp add: stored_def)
  then show "read_mem mem n (a + of_nat k) ! i = slice k n obj ! i"
    using i assms(2) by (simp add: read_mem_def add.assoc)
qed

text \<open>What the program needs of the running kernel's \<open>task_struct\<close>.\<close>

locale task_layout =
  fixes T :: ctype and rp tg :: nat
  assumes real_parent: "offsetof T ''real_parent'' = Some rp" and tgid: "offsetof T ''tgid'' = Some tg"
    and inside: "rp + 8 \<le> sizeof T" "tg + 4 \<le> sizeof T"
begin

lemma parent_tgid_stored:
  assumes "probe_read K = read_mem mem"
    and "stored mem (current_task K) self" and "length self = sizeof T"
    and "stored mem (le_word (slice rp 8 self)) par" and "length par = sizeof T"
  shows "parent_tgid T K = le_word (slice tg 4 par)"
  using read_mem_stored [OF assms(2), of rp 8] read_mem_stored [OF assms(4), of tg 4] assms(1,3,5) inside
  by (simp add: parent_tgid_def task_off_def real_parent tgid)

end

interpretation amd64_task: task_layout task_struct_amd64 2512 2500
  by unfold_locales (simp_all add: offsetof_def layout_simps)

interpretation aarch64_task: task_layout task_struct_aarch64 1408 1396
  by unfold_locales (simp_all add: offsetof_def layout_simps)

text \<open>The \<open>task_struct\<close> of the two headers with the offsets of \<open>real_parent\<close> and \<open>tgid\<close>.\<close>

definition task_structs :: "(ctype \<times> nat \<times> nat) list" where
  "task_structs = [(task_struct_amd64, 2512, 2500), (task_struct_aarch64, 1408, 1396)]"

lemma task_structs_layout: "(T, rp, tg) \<in> set task_structs \<Longrightarrow> task_layout T rp tg"
  by (auto simp: task_structs_def intro: amd64_task.task_layout_axioms aarch64_task.task_layout_axioms)

section \<open>A concrete environment\<close>

text \<open>A process that opens \<open>path\<close>, with \<open>filter_path\<close> at 0x2000 and tasks at 0x10000 and 0x20000.\<close>

definition sample_env :: "bytes \<Rightarrow> bytes \<Rightarrow> u32 \<Rightarrow> u64 \<Rightarrow> kprobe_env" where
  "sample_env path fp ppid pidtgid =
     \<lparr>current_pid_tgid = pidtgid, current_uid_gid = 0, current_task = 0x10000,
      probe_read = (\<lambda>n a. if a = 0x1000 then pad_to n path else if a = 0x2000 then pad_to n fp
        else if n = 8 then le_bytes 8 (0x20000 :: u64) else pad_to n (le_bytes 4 ppid)),
      current_comm = (\<lambda>n. pad_to n (ascii ''cat'')), parm1 = 0x30000, parm2_core = (\<lambda>r. 0x1000),
      filter_path_addr = 0x2000\<rparr>"

definition sample_rodata :: rodata where
  "sample_rodata = \<lparr>target_pid = 42, exclude_pid = 7, filter_path = pad_to 61 (ascii ''/etc''),
     exit_code = 2, probability = 50\<rparr>"

lemma sample_env_ok: "env_ok sample_rodata (sample_env path (pad_to 61 (ascii ''/etc'')) ppid pidtgid)"
proof -
  have "length (probe_read (sample_env path fp ppid pidtgid) n a) = n" for fp n a
    by (simp add: sample_env_def)
  then show ?thesis
    by (simp add: env_ok_def sample_rodata_def c_consts)
      (simp add: sample_env_def pad_to_def)
qed

lemma sample_parent: "parent_tgid T (sample_env path fp ppid pidtgid) = ppid"
  if "task_off T ''tgid'' + 0x20000 \<notin> {0x1000, 0x2000}" "0x10000 + task_off T ''real_parent'' \<notin> {0x1000, 0x2000}"
proof -
  have "le_word (le_bytes 8 (0x20000 :: u64)) = (0x20000 :: u64)"
    by (rule le_word_le_bytes) simp
  moreover have "le_word (le_bytes 4 ppid) = ppid" by (rule le_word_le_bytes) simp
  ultimately show ?thesis
    using that by (simp add: parent_tgid_def sample_env_def pad_to_id add.commute)
qed

lemma sample_parent_amd64 [simp]: "parent_tgid task_struct_amd64 (sample_env path fp ppid pidtgid) = ppid"
  by (rule sample_parent) (simp_all add: task_off_def amd64_task.real_parent amd64_task.tgid)

lemma sample_env_simps [simp]:
  "the_pid (sample_env path fp ppid pidtgid) = ucast pidtgid"
  "the_tgid (sample_env path fp ppid pidtgid) = ucast (drop_bit 32 pidtgid)"
  "opened_path (sample_env path fp ppid pidtgid) = pad_to 62 path"
  by (simp_all add: the_pid_def the_tgid_def opened_path_def sample_env_def)

definition sample_call :: kprobe_env where
  "sample_call = sample_env (ascii ''/etc/passwd'') (pad_to 61 (ascii ''/etc'')) 1 0x2A0000002A"

lemma sample_call_ok: "env_ok sample_rodata sample_call"
  unfolding sample_call_def by (rule sample_env_ok)

lemma sample_call_pids:
  "the_pid sample_call = 42" "the_tgid sample_call = 42" "the_ppid task_struct_amd64 sample_call = 1"
  by (simp_all add: sample_call_def the_ppid_def drop_bit_eq_div)

lemma sample_call_selected: "selected task_struct_amd64 sample_rodata sample_call"
proof -
  have "prefix (take 60 (c_str (filter_path sample_rodata))) (opened_path sample_call)"
    by (simp add: sample_call_def sample_rodata_def pad_to_short c_str_Cons)
  then show ?thesis
    by (simp add: selected_def sample_call_pids) (simp add: sample_rodata_def)
qed

section \<open>Properties\<close>

text \<open>
  The bytes of the event of a call and the value its result is replaced by, both written out. The product of the
  counter is taken modulo \<open>2 ^ 32\<close>.
\<close>

definition call_event :: "ctype \<Rightarrow> kprobe_env \<Rightarrow> bytes" where
  "call_event T K = le_bytes 4 (the_ppid T K) @ le_bytes 4 (the_pid K) @ le_bytes 4 (the_tgid K) @
     le_bytes 4 (ucast (current_uid_gid K) :: u32) @ take 84 (current_comm K 100)"

definition spared :: "nat \<Rightarrow> counters \<Rightarrow> bool" where
  "spared p s \<longleftrightarrow> hits s \<noteq> 0 \<and> p < (100 * unat (disruptedHits s)) mod 2 ^ 32 div unat (hits s)"

lemma scast_minus_small: "unat (e :: u32) < 2 ^ 31 \<Longrightarrow> (scast (- e) :: u64) = - ucast e"
proof -
  assume "unat e < 2 ^ 31"
  then have "uint e < 2 ^ 31" using of_nat_less_iff [where 'a = int, of "unat e" "2 ^ 31"] by simp
  then have "signed_take_bit 31 (- uint e) = - uint e"
    using uint_ge_0 [of e] by (intro signed_take_bit_int_eq_self) linarith+
  moreover have "sint (- e) = signed_take_bit 31 (- uint e)"
    using signed_take_bit_take_bit [of 31 32 "- uint e"] by (simp add: sint_uint uint_word_ariths(4) take_bit_eq_mod)
  ultimately have "sint (- e) = - uint e" by simp
  then have "(word_of_int (sint (- e)) :: u64) = - word_of_int (uint e)" by simp
  then show ?thesis by simp
qed

lemma rate_gate_spared:
  assumes "unat p < 2 ^ 31"
  shows "rate_gate p s = (if spared (unat p) s then (False, s\<lparr>hits := hits s + 1\<rparr>)
    else (True, s\<lparr>hits := hits s + 1, disruptedHits := disruptedHits s + 1\<rparr>))"
proof -
  have "p < 2 ^ 31" using assms by (simp add: word_less_nat_alt)
  then have "(scast p :: u64) < ucast (disruptedHits s * 100) div ucast (hits s) \<longleftrightarrow>
      unat p < (100 * unat (disruptedHits s)) mod 2 ^ 32 div unat (hits s)"
    by (simp add: word_less_nat_alt scast_small unat_div unat_ucast_up unat_word_ariths mult.commute)
  then show ?thesis by (auto simp: rate_gate_def spared_def)
qed

lemma emit_event:
  assumes "unat (exit_code G) < 2 ^ 31" and "length (current_comm K 100) = 100"
  shows "emit G K (the_ppid T K) = [Perf_output (call_event T K), Override_return (- ucast (exit_code G))]"
  using assms by (simp add: emit_def call_event_def data_bytes_def the_pid_def the_tgid_def scast_minus_small)

text \<open>
  C7: one run of the program on every branch. A call is left alone, and the counters with it, unless it is
  selected: neither the thread, its process nor the parent process is the excluded one, the target is unset
  or is the thread or the parent process (or the thread is number 1), and the opened path starts with
  the first 60 bytes of the configured prefix. With a probability of 100 every selected call is disrupted and the
  counters stay. With another one a call is spared, and only \<open>hits\<close> grows, when the whole percentage of the
  calls disrupted before, with \<open>disruptedHits * 100\<close> taken modulo \<open>2 ^ 32\<close>, is above the probability; otherwise it is
  disrupted and both counters grow by one, modulo \<open>2 ^ 32\<close>. A disrupted call sends one event, with the parent,
  the thread, the process and the user id and the first 84 bytes of the command, and returns the negated exit
  code. The probability and the exit code are not negative.
\<close>

theorem injection_disk_failure_selects:
  assumes "env_ok G K" and "unat (probability G) < 2 ^ 31" and "unat (exit_code G) < 2 ^ 31"
  shows "injection_disk_failure T G K s =
    (let disrupted = [Perf_output (call_event T K), Override_return (- ucast (exit_code G))]
     in Some (if \<not> selected T G K then ([], s)
          else if probability G = 100 then (disrupted, s)
          else if hits s \<noteq> 0 \<and> unat (probability G) < (100 * unat (disruptedHits s)) mod 2 ^ 32 div unat (hits s)
          then ([], s\<lparr>hits := hits s + 1\<rparr>)
          else (disrupted, s\<lparr>hits := hits s + 1, disruptedHits := disruptedHits s + 1\<rparr>)))"
proof -
  have "emit G K (the_ppid T K) = [Perf_output (call_event T K), Override_return (- ucast (exit_code G))]"
    using assms(1,3) by (intro emit_event) (simp_all add: env_ok_def)
  then show ?thesis
    by (simp add: injection_disk_failure_eq [OF assms(1)] rate_gate_spared [OF assms(2)] spared_def Let_def)
qed

theorem injection_disk_failure_selects_witness:
  "injection_disk_failure task_struct_amd64 sample_rodata sample_call counters_init =
     Some ([Perf_output (call_event task_struct_amd64 sample_call), Override_return (- 2)], \<lparr>hits = 1, disruptedHits = 1\<rparr>) \<and>
   injection_disk_failure task_struct_amd64 sample_rodata sample_call \<lparr>hits = 1, disruptedHits = 1\<rparr> =
     Some ([], \<lparr>hits = 2, disruptedHits = 1\<rparr>)"
proof -
  have r: "unat (probability sample_rodata) = 50" "exit_code sample_rodata = 2" "probability sample_rodata \<noteq> 100"
    by (simp_all add: sample_rodata_def)
  show ?thesis
    using injection_disk_failure_selects [OF sample_call_ok, of task_struct_amd64 counters_init]
      injection_disk_failure_selects [OF sample_call_ok, of task_struct_amd64 "\<lparr>hits = 1, disruptedHits = 1\<rparr>"] r
    by (simp add: sample_call_selected Let_def counters_init_def)
qed

text \<open>
  C8: the rate of disruption over any sequence of calls. From fresh counters and with a probability
  \<open>p\<close> below 100, after \<open>n\<close> selected calls (fewer than 42,949,673, so that the products stay in
  32 bits) the counters hold exactly the selected and the disrupted calls, and the disrupted ones are
  \<open>(p + 1)\<close> percent of the selected ones up to one call; no call runs into an error.
\<close>

theorem run_disk_rate:
  assumes "\<forall>K \<in> set Ks. env_ok G K" and "unat (probability G) < 100"
    and "100 * length (filter (selected T G) Ks) < 2 ^ 32"
  shows "\<exists>es s'. run_disk T G Ks counters_init = Some (es, s') \<and>
    unat (hits s') = length (filter (selected T G) Ks) \<and>
    unat (disruptedHits s') = length (overrides es) \<and>
    (unat (probability G) + 1) * (unat (hits s') - 1) \<le> 100 * length (overrides es) \<and>
    100 * length (overrides es) < (unat (probability G) + 1) * unat (hits s') + 100"
proof -
  have "rate_inv (unat (probability G)) 0 0" by (simp add: rate_inv_def)
  then obtain es s' where r: "run_disk T G Ks counters_init = Some (es, s')"
    "unat (hits s') = length (filter (selected T G) Ks)"
    "unat (disruptedHits s') = length (overrides es)"
    "rate_inv (unat (probability G)) (unat (hits s')) (unat (disruptedHits s'))"
    using run_disk_inv [OF assms(1,2), of counters_init T] assms(3) by (auto simp: counters_init_def)
  then show ?thesis by (auto simp: rate_inv_def diff_mult_distrib2)
qed

theorem run_disk_rate_witness:
  "\<exists>es s'. run_disk task_struct_amd64 sample_rodata (replicate 4 sample_call) counters_init = Some (es, s') \<and>
     unat (hits s') = 4 \<and> 153 \<le> 100 * length (overrides es) \<and> 100 * length (overrides es) < 304"
proof -
  have "unat (probability sample_rodata) = 50" by (simp add: sample_rodata_def)
  then show ?thesis
    using run_disk_rate [of "replicate 4 sample_call" sample_rodata task_struct_amd64]
    by (auto simp: sample_call_ok sample_call_selected)
qed

text \<open>
  With a probability of 100 every selected call is disrupted, with the negated exit code
  as its result, and the counters are not used.
\<close>

theorem run_disk_full:
  assumes "\<forall>K \<in> set Ks. env_ok G K" and "probability G = 100"
  shows "\<exists>es. run_disk T G Ks s = Some (es, s) \<and>
    overrides es = replicate (length (filter (selected T G) Ks)) (scast (- exit_code G))"
  by (rule run_disk_always [OF assms])

theorem run_disk_full_witness:
  "\<exists>es. run_disk task_struct_amd64 (sample_rodata\<lparr>probability := 100\<rparr>) [sample_call] counters_init =
     Some (es, counters_init) \<and> overrides es = [- 2]"
proof -
  let ?G = "sample_rodata\<lparr>probability := 100\<rparr>"
  have "env_ok ?G sample_call" "selected task_struct_amd64 ?G sample_call"
    using sample_call_ok sample_call_selected by (simp_all add: env_ok_def selected_def)
  moreover have "exit_code ?G = 2" "probability ?G = 100" by (simp_all add: sample_rodata_def)
  ultimately show ?thesis
    using run_disk_full [of "[sample_call]" ?G task_struct_amd64 counters_init] by simp
qed

text \<open>
  The configured probability is exceeded. The limiter compares the rounded-down percentage with
  \<open>>\<close>, so from the \<open>(p + 2)\<close>-nd selected call on more than \<open>p\<close> percent of the calls have been
  disrupted; a probability of 0 still disrupts.
\<close>

theorem run_disk_exceeds:
  assumes "\<forall>K \<in> set Ks. env_ok G K" and "unat (probability G) < 100"
    and "100 * length (filter (selected T G) Ks) < 2 ^ 32"
    and "unat (probability G) + 1 < length (filter (selected T G) Ks)"
  shows "\<exists>es s'. run_disk T G Ks counters_init = Some (es, s') \<and>
    unat (probability G) * length (filter (selected T G) Ks) < 100 * length (overrides es)"
proof -
  have "rate_inv (unat (probability G)) 0 0" by (simp add: rate_inv_def)
  then obtain es s' where "run_disk T G Ks counters_init = Some (es, s')"
    "rate_inv (unat (probability G)) (length (filter (selected T G) Ks)) (length (overrides es))"
    using run_disk_inv [OF assms(1,2), of counters_init T] assms(3) by (auto simp: counters_init_def)
  then show ?thesis using assms(4) by (auto simp: rate_inv_def)
qed

theorem run_disk_exceeds_witness:
  "\<exists>es s'. run_disk task_struct_amd64 (sample_rodata\<lparr>probability := 0\<rparr>) [sample_call, sample_call]
     counters_init = Some (es, s') \<and> 0 < length (overrides es)"
proof -
  let ?G = "sample_rodata\<lparr>probability := 0\<rparr>"
  have "env_ok ?G sample_call" "selected task_struct_amd64 ?G sample_call"
    using sample_call_ok sample_call_selected by (simp_all add: env_ok_def selected_def)
  then show ?thesis
    using run_disk_exceeds [of "[sample_call, sample_call]" ?G task_struct_amd64] by auto
qed

text \<open>
  \<open>disruptedHits * 100\<close> is computed in 32 bits although it is stored in an \<open>unsigned long long\<close>:
  after 42,949,673 disrupted calls the product wraps, and a call that should be spared (50 percent
  disrupted so far, 49 allowed) is disrupted.
\<close>

theorem rate_gate_wraps:
  "fst (rate_gate 49 \<lparr>hits = 85899346, disruptedHits = 42949673\<rparr>) \<and>
   49 < 100 * unat (42949673 :: u32) div unat (85899346 :: u32)"
  by (simp add: rate_gate_def)

text \<open>
  The program never disrupts the process that loaded it: when the excluded id is the thread, its
  process, or (for a thread other than number 1) the parent process, the run has no effect at all.
\<close>

theorem excluded_never_disrupted:
  assumes "env_ok G K"
    and "exclude_pid G \<in> {the_pid K, the_tgid K} \<or> the_pid K \<noteq> 1 \<and> exclude_pid G = parent_tgid T K"
  shows "injection_disk_failure T G K s = Some ([], s)"
  using assms(2) by (auto simp: injection_disk_failure_eq [OF assms(1)] selected_def the_ppid_def)

theorem excluded_never_disrupted_witness:
  "injection_disk_failure task_struct_amd64 sample_rodata
     (sample_env (ascii ''/etc/passwd'') (pad_to 61 (ascii ''/etc'')) 7 0x2A0000002A) counters_init =
   Some ([], counters_init)"
  by (rule excluded_never_disrupted) (rule sample_env_ok, simp add: sample_rodata_def)

text \<open>
  With a target set, only the thread whose id is the target, the threads of its child processes
  and thread 1 can be disrupted. The value called \<open>pid\<close> is the thread id, so a further thread of
  the target process itself is left alone.
\<close>

theorem other_threads_not_disrupted:
  assumes "env_ok G K" and "target_pid G \<noteq> 0" and "the_pid K \<notin> {1, target_pid G}"
    and "parent_tgid T K \<noteq> target_pid G"
  shows "injection_disk_failure T G K s = Some ([], s)"
  using assms(2-) by (auto simp: injection_disk_failure_eq [OF assms(1)] selected_def the_ppid_def)

theorem other_threads_not_disrupted_witness:
  "the_tgid (sample_env (ascii ''/etc/passwd'') (pad_to 61 (ascii ''/etc'')) 1 0x2A0000002B) =
     target_pid sample_rodata \<and>
   injection_disk_failure task_struct_amd64 sample_rodata
     (sample_env (ascii ''/etc/passwd'') (pad_to 61 (ascii ''/etc'')) 1 0x2A0000002B) counters_init =
   Some ([], counters_init)"
proof
  let ?K = "sample_env (ascii ''/etc/passwd'') (pad_to 61 (ascii ''/etc'')) 1 0x2A0000002B"
  show "the_tgid ?K = target_pid sample_rodata"
    by (simp add: drop_bit_eq_div sample_rodata_def)
  show "injection_disk_failure task_struct_amd64 sample_rodata ?K counters_init = Some ([], counters_init)"
    by (rule other_threads_not_disrupted) (rule sample_env_ok, simp_all add: sample_rodata_def)
qed

text \<open>
  Thread number 1 is not held to the target: whatever the target is, its calls on a matching path
  are treated as selected (unless they are excluded).
\<close>

theorem init_bypasses_target:
  assumes "env_ok G K" and "the_pid K = 1" and "exclude_pid G \<notin> {0, 1, the_tgid K}"
    and "prefix (take 60 (c_str (filter_path G))) (opened_path K)" and "probability G = 100"
  shows "injection_disk_failure T G K s = Some (emit G K 0, s)"
  using assms(2-) by (auto simp: injection_disk_failure_eq [OF assms(1)] selected_def the_ppid_def)

theorem init_bypasses_target_witness:
  "injection_disk_failure task_struct_amd64 (sample_rodata\<lparr>probability := 100\<rparr>)
     (sample_env (ascii ''/etc/passwd'') (pad_to 61 (ascii ''/etc'')) 0 0x100000001) counters_init =
   Some (emit (sample_rodata\<lparr>probability := 100\<rparr>)
     (sample_env (ascii ''/etc/passwd'') (pad_to 61 (ascii ''/etc'')) 0 0x100000001) 0, counters_init)"
proof (rule init_bypasses_target)
  let ?G = "sample_rodata\<lparr>probability := 100\<rparr>"
  let ?K = "sample_env (ascii ''/etc/passwd'') (pad_to 61 (ascii ''/etc'')) 0 0x100000001"
  show "env_ok ?G ?K"
    using sample_env_ok [where path = "ascii ''/etc/passwd''" and ppid = 0 and pidtgid = "0x100000001"]
    by (simp add: env_ok_def)
  show "exclude_pid ?G \<notin> {0, 1, the_tgid ?K}" by (simp add: sample_rodata_def drop_bit_eq_div)
  show "prefix (take 60 (c_str (filter_path ?G))) (opened_path ?K)"
    by (simp add: sample_rodata_def pad_to_short c_str_Cons)
qed simp_all

text \<open>
  A path the program cannot read is not disrupted. The program reads 62 bytes whatever the length
  of the path; when that read faults the buffer is all zeros and matches only an empty prefix, so a
  call whose short path lies at the end of a mapped page escapes.
\<close>

theorem unreadable_path_not_disrupted:
  assumes "env_ok G K" and "opened_path K = replicate 62 0" and "c_str (filter_path G) \<noteq> []"
  shows "injection_disk_failure T G K s = Some ([], s)"
proof -
  obtain c r where f: "c_str (filter_path G) = c # r" using assms(3) by (cases "c_str (filter_path G)") auto
  have "c \<noteq> 0" using c_str_nonzero [of c "filter_path G"] f by simp
  have "replicate 62 (0 :: u8) = 0 # replicate 61 0" by (simp flip: replicate_Suc)
  then have "\<not> prefix (take 60 (c_str (filter_path G))) (opened_path K)"
    using \<open>c \<noteq> 0\<close> by (simp add: f assms(2))
  then show ?thesis by (simp add: injection_disk_failure_eq [OF assms(1)] selected_def)
qed

theorem unreadable_path_not_disrupted_witness:
  "injection_disk_failure task_struct_amd64 sample_rodata
     (sample_env [] (pad_to 61 (ascii ''/etc'')) 1 0x2A0000002A) counters_init = Some ([], counters_init)"
proof (rule unreadable_path_not_disrupted)
  show "opened_path (sample_env [] (pad_to 61 (ascii ''/etc'')) 1 0x2A0000002A) = replicate 62 0"
    by (simp add: pad_to_short)
  show "c_str (filter_path sample_rodata) \<noteq> []"
    by (simp add: sample_rodata_def pad_to_short c_str_Cons)
qed (rule sample_env_ok)

text \<open>
  C20: with the \<open>task_struct\<close> of either \<open>vmlinux.h\<close>, the two probe reads fetch the thread group id of
  the parent: the 8 bytes of \<open>real_parent\<close> in the current task (at 2512 on amd64, 1408 on aarch64),
  then the 4 bytes of \<open>tgid\<close> in the task they point to (at 2500, 1396), both inside the structure.
\<close>

theorem parent_tgid_of_task:
  assumes "(T, rp, tg) \<in> set task_structs" and "probe_read K = read_mem mem"
    and "stored mem (current_task K) self" and "length self = sizeof T"
    and "stored mem (le_word (slice rp 8 self)) par" and "length par = sizeof T"
  shows "parent_tgid T K = le_word (slice tg 4 par) \<and> rp + 8 \<le> sizeof T \<and> tg + 4 \<le> sizeof T"
  using task_layout.parent_tgid_stored [OF task_structs_layout assms(2-), OF assms(1)]
    task_layout.inside [OF task_structs_layout, OF assms(1)] by simp

definition zero_mem_env :: kprobe_env where
  "zero_mem_env = (sample_env [] [] 0 0)\<lparr>current_task := 0, probe_read := read_mem (\<lambda>a. 0)\<rparr>"

theorem parent_tgid_of_task_witness:
  "parent_tgid task_struct_aarch64 zero_mem_env = 0 \<and> 1408 + 8 \<le> sizeof task_struct_aarch64"
proof -
  have z: "stored (\<lambda>a. 0) a (replicate n 0)" for a n
    by (simp add: stored_def read_mem_def map_replicate_trivial map_replicate_const)
  have w: "le_word (slice o' n (replicate k 0)) = 0" for o' n k
    by (simp add: slice_def)
  show ?thesis
    using parent_tgid_of_task [of task_struct_aarch64 1408 1396 zero_mem_env "\<lambda>a. 0"
        "replicate (sizeof task_struct_aarch64) 0" "replicate (sizeof task_struct_aarch64) 0"]
    by (simp add: z w task_structs_def zero_mem_env_def)
qed

text \<open>
  C17: in every reachable state, after any number of calls, each overridden return value is the negated
  exit code, there is exactly one event of 100 bytes per overridden call, and \<open>disruptedHits\<close> counts
  the overridden calls modulo \<open>2 ^ 32\<close> (it stays 0 when the probability is 100).
\<close>

theorem disk_reach_effects:
  assumes "disk_reach T G s es"
  shows "overrides es = replicate (length (outputs es)) (scast (- exit_code G)) \<and>
    list_all (\<lambda>b. length b = 100) (outputs es) \<and>
    disruptedHits s = (if probability G = 100 then 0 else of_nat (length (outputs es)))"
  using assms
proof (induction rule: disk_reach.induct)
  case init
  show ?case by (simp add: counters_init_def)
next
  case (call s es K es' s')
  from call(2,3) show ?case
  proof (cases rule: step_cases)
    case 1
    with call.IH show ?thesis by simp
  next
    case 2
    have "list_all (\<lambda>b. length b = 100) (outputs es')"
      using outputs_emit_length [OF call(2)] 2(1) by (simp add: list_all_iff)
    with 2 call.IH show ?thesis by (auto simp: replicate_append_same simp flip: replicate_Suc)
  qed
qed

theorem disk_reach_effects_witness:
  "\<exists>s es. disk_reach task_struct_amd64 sample_rodata s es \<and> overrides es = [- 2] \<and>
     map length (outputs es) = [100] \<and> disruptedHits s = 1"
proof -
  have step: "injection_disk_failure task_struct_amd64 sample_rodata sample_call counters_init =
      Some (emit sample_rodata sample_call 1, \<lparr>hits = 1, disruptedHits = 1\<rparr>)"
    by (simp add: injection_disk_failure_eq [OF sample_call_ok] sample_call_selected sample_call_pids)
      (simp add: sample_rodata_def rate_gate_def counters_init_def)
  let ?es = "[] @ emit sample_rodata sample_call 1" and ?s = "\<lparr>hits = 1, disruptedHits = 1\<rparr>"
  have r: "disk_reach task_struct_amd64 sample_rodata ?s ?es"
    by (rule disk_reach.call [OF disk_reach.init sample_call_ok step])
  obtain b where "outputs ?es = [b]" using length_Suc_conv [of "outputs ?es" 0] by auto
  moreover have "(scast (- exit_code sample_rodata) :: u64) = - 2"
    by (subst scast_minus_small) (simp_all add: sample_rodata_def)
  ultimately show ?thesis
    using disk_reach_effects [OF r] r by (intro exI [of _ ?s] exI [of _ ?es]) auto
qed

end
