(* ===== verification/Libbpfgo.thy ===== *)
theory Libbpfgo
  imports Vmlinux_Amd64 Vmlinux_Aarch64 "HOL-Library.Multiset"
begin

text \<open>
  \<open>src/vendor/github.com/aquasecurity/libbpfgo/libbpfgo.c\<close>: the C glue between the Go loaders and
  libbpf. It formats libbpf's log lines, opens ring and perf buffers, copies the initial value of a
  map, builds the attribute union of the legacy cgroup attachment, and allocates and frees the option
  structures libbpf takes.

  The C heap is modelled with allocation failures and with invalid frees and writes as
  \<^term>\<open>None\<close>. The types of libbpf's own headers are not part of the sources: an option structure is
  the record of the fields the code sets, its size and the two unions (\<open>bpf_iter_link_info\<close>,
  \<open>bpf_attr\<close>) are arguments, and so are the functions of libbpf and the kernel. The locale
  \<open>opts_ctor\<close> is the contract of a pair of \<open>_new\<close> and \<open>_free\<close> functions.
\<close>

section \<open>The C heap\<close>

type_synonym ptr = nat

record bpf_iter_attach_opts =
  iao_sz :: nat
  iao_link_info :: ptr
  iao_link_info_len :: nat

record bpf_object_open_opts =
  ooo_sz :: nat
  ooo_object_name :: ptr
  ooo_kconfig :: ptr
  ooo_btf_custom_path :: ptr

record bpf_map_create_opts =
  mco_sz :: nat
  mco_btf_fd :: u32
  mco_btf_key_type_id :: u32
  mco_btf_value_type_id :: u32
  mco_btf_vmlinux_value_type_id :: u32
  mco_inner_map_fd :: u32
  mco_map_flags :: u32
  mco_map_extra :: u64
  mco_numa_node :: u32
  mco_map_ifindex :: u32

record bpf_map_batch_opts =
  mbo_sz :: nat
  mbo_elem_flags :: u64
  mbo_flags :: u64

datatype cobj = Buf bytes | Iter_opts bpf_iter_attach_opts | Open_opts bpf_object_open_opts
  | Create_opts bpf_map_create_opts | Batch_opts bpf_map_batch_opts

text \<open>Live blocks, the next block number (0 is NULL) and which allocations fail.\<close>

record heap =
  live :: "ptr \<rightharpoonup> cobj"
  next_ptr :: nat
  oom :: "nat \<Rightarrow> bool"

definition heap_wf :: "heap \<Rightarrow> bool" where
  "heap_wf h \<longleftrightarrow> 0 < next_ptr h \<and> (\<forall>p x. live h p = Some x \<longrightarrow> 0 < p \<and> p < next_ptr h)"

definition alloc :: "cobj \<Rightarrow> heap \<Rightarrow> ptr \<times> heap" where
  "alloc x h =
     (let p = next_ptr h; h = h\<lparr>next_ptr := p + 1\<rparr>
      in if oom h p then (0, h) else (p, h\<lparr>live := (live h)(p \<mapsto> x)\<rparr>))"

definition free :: "ptr \<Rightarrow> heap \<Rightarrow> heap option" where
  "free p h =
     (if p = 0 then Some h
      else if live h p = None then None
      else Some (h\<lparr>live := (live h)(p := None)\<rparr>))"

definition modify :: "ptr \<Rightarrow> (cobj \<Rightarrow> cobj option) \<Rightarrow> heap \<Rightarrow> heap option" where
  "modify p f h = do {
     x \<leftarrow> live h p;
     y \<leftarrow> f x;
     Some (h\<lparr>live := (live h)(p \<mapsto> y)\<rparr>)
   }"

section \<open>Members of unions in memory\<close>

text \<open>Assignment to a member given by its designator, and reading it back (little-endian hosts).\<close>

definition put_member :: "ctype \<Rightarrow> string list \<Rightarrow> 'w::len word \<Rightarrow> bytes \<Rightarrow> bytes option" where
  "put_member T d w bs =
     (case member_path T d of
        None \<Rightarrow> None
      | Some (off, t) \<Rightarrow> Some (overwrite off (le_bytes (sizeof t) w) bs))"

definition get_member :: "ctype \<Rightarrow> string list \<Rightarrow> bytes \<Rightarrow> 'w::len word option" where
  "get_member T d bs =
     (case member_path T d of
        None \<Rightarrow> None
      | Some (off, t) \<Rightarrow> Some (le_word (slice off (sizeof t) bs)))"

text \<open>Where a designator leads: offset and size.\<close>

definition place :: "ctype \<Rightarrow> string list \<Rightarrow> (nat \<times> nat) option" where
  "place T d = map_option (\<lambda>(off, t). (off, sizeof t)) (member_path T d)"

lemma place_inside: "place T d = Some (k, n) \<Longrightarrow> k + n \<le> sizeof T"
  using member_path_sound [of T d] by (auto simp: place_def member_ok_def)

lemma put_member_place: "place T d = Some (k, n) \<Longrightarrow> put_member T d w bs = Some (overwrite k (le_bytes n w) bs)"
  by (auto simp: place_def put_member_def)

lemma get_member_place: "place T d = Some (k, n) \<Longrightarrow> get_member T d bs = Some (le_word (slice k n bs))"
  by (auto simp: place_def get_member_def)

section \<open>Logging\<close>

text \<open>
  \<open>formatted\<close> is the result of formatting the message: an error code or the text. The result is the
  return value and the lines passed to \<open>loggerCallback\<close>.
\<close>

definition ENOMEM :: int where [c_consts]: "ENOMEM = 12"

fun vsnprintf :: "int + bytes \<Rightarrow> nat \<Rightarrow> int \<times> bytes" where
  "vsnprintf (Inl err) n = (err, [])"
| "vsnprintf (Inr s) n = (int (length s), if n = 0 then [] else take (n - 1) s @ [0])"

definition libbpf_print_fn ::
  "nat \<Rightarrow> int + bytes \<Rightarrow> heap \<Rightarrow> (int \<times> (nat \<times> bytes) list \<times> heap) option" where
  "libbpf_print_fn level formatted h =
     (let ret = fst (vsnprintf formatted 0)
      in if ret < 0 then Some (ret, [], h)
         else (let len = nat (ret + 1); (out, h) = alloc (Buf (replicate len 0)) h
           in if out = 0 then Some (- ENOMEM, [], h)
              else do {
                let (ret, written) = vsnprintf formatted len;
                h \<leftarrow> modify out (\<lambda>x. case x of
                       Buf bs \<Rightarrow> if length written \<le> length bs then Some (Buf (overwrite 0 written bs)) else None
                     | _ \<Rightarrow> None) h;
                msg \<leftarrow> (case live h out of Some (Buf bs) \<Rightarrow> Some (c_str bs) | _ \<Rightarrow> None);
                h \<leftarrow> free out h;
                Some (ret, if ret > 0 then [(level, msg)] else [], h)
              }))"

section \<open>Buffers\<close>

text \<open>
  A call that opens a buffer gives a pointer and the value of \<open>errno\<close> it leaves; printing the
  message may change \<open>errno\<close> (\<open>clobber\<close>).
\<close>

definition cgo_init_ring_buf :: "(int \<Rightarrow> nat \<Rightarrow> ptr \<times> int) \<Rightarrow> (int \<Rightarrow> int) \<Rightarrow> int \<Rightarrow> nat \<Rightarrow> ptr \<times> int" where
  "cgo_init_ring_buf ring_buffer_new clobber map_fd ctx =
     (case ring_buffer_new map_fd ctx of (rb, errno) \<Rightarrow>
        if rb = 0 then
          (let saved_errno = errno; errno = clobber errno; errno = saved_errno in (0, errno))
        else (rb, errno))"

definition cgo_init_perf_buf ::
  "(int \<Rightarrow> int \<Rightarrow> nat \<Rightarrow> nat \<Rightarrow> ptr \<times> int) \<Rightarrow> nat \<Rightarrow> (int \<Rightarrow> int) \<Rightarrow> int \<Rightarrow> int \<Rightarrow> nat \<Rightarrow> ptr \<times> int" where
  "cgo_init_perf_buf perf_buffer_new sizeof_opts clobber map_fd page_cnt ctx =
     (let pb_opts_sz = sizeof_opts
      in case perf_buffer_new map_fd page_cnt ctx pb_opts_sz of (pb, errno) \<Rightarrow>
        if pb = 0 then
          (let saved_errno = errno; errno = clobber errno; errno = saved_errno in (0, errno))
        else (pb, errno))"

text \<open>
  \<open>initial\<close> is what \<open>bpf_map__initial_value\<close> returns, \<open>value\<close> the caller's buffer; copying past its
  end is \<^term>\<open>None\<close>.
\<close>

definition cgo_bpf_map__initial_value :: "bytes option \<Rightarrow> bytes \<Rightarrow> bytes option" where
  "cgo_bpf_map__initial_value initial value =
     (case initial of
        None \<Rightarrow> Some value
      | Some dat \<Rightarrow> if length dat \<le> length value then Some (overwrite 0 dat value) else None)"

section \<open>Legacy cgroup attachment\<close>

definition BPF_F_ALLOW_MULTI :: u32 where [c_consts]: "BPF_F_ALLOW_MULTI = 2"

text \<open>\<open>bpf\<close> is the system call, with the command and the attribute bytes.\<close>

definition cgo_bpf_prog_attach_cgroup_legacy ::
  "ctype \<Rightarrow> (string \<Rightarrow> bytes \<Rightarrow> int) \<Rightarrow> u32 \<Rightarrow> u32 \<Rightarrow> u32 \<Rightarrow> int option" where
  "cgo_bpf_prog_attach_cgroup_legacy bpf_attr bpf prog_fd target_fd type = do {
     let attr = replicate (sizeof bpf_attr) 0;
     attr \<leftarrow> put_member bpf_attr [''target_fd''] target_fd attr;
     attr \<leftarrow> put_member bpf_attr [''attach_bpf_fd''] prog_fd attr;
     attr \<leftarrow> put_member bpf_attr [''attach_type''] type attr;
     attr \<leftarrow> put_member bpf_attr [''attach_flags''] BPF_F_ALLOW_MULTI attr;
     Some (bpf ''BPF_PROG_ATTACH'' attr)
   }"

definition cgo_bpf_prog_detach_cgroup_legacy ::
  "ctype \<Rightarrow> (string \<Rightarrow> bytes \<Rightarrow> int) \<Rightarrow> u32 \<Rightarrow> u32 \<Rightarrow> u32 \<Rightarrow> int option" where
  "cgo_bpf_prog_detach_cgroup_legacy bpf_attr bpf prog_fd target_fd type = do {
     let attr = replicate (sizeof bpf_attr) 0;
     attr \<leftarrow> put_member bpf_attr [''target_fd''] target_fd attr;
     attr \<leftarrow> put_member bpf_attr [''attach_bpf_fd''] prog_fd attr;
     attr \<leftarrow> put_member bpf_attr [''attach_type''] type attr;
     Some (bpf ''BPF_PROG_DETACH'' attr)
   }"

section \<open>Option structures\<close>

text \<open>The arguments of \<open>cgo_bpf_iter_attach_opts_new\<close>.\<close>

record iter_args =
  ia_map_fd :: u32
  ia_order :: u32
  ia_cgroup_fd :: u32
  ia_cgroup_id :: u64
  ia_tid :: u32
  ia_pid :: u32
  ia_pid_fd :: u32

text \<open>The seven assignments to the members of the union.\<close>

definition fill_link_info :: "ctype \<Rightarrow> iter_args \<Rightarrow> bytes \<Rightarrow> bytes option" where
  "fill_link_info link_info a bs = do {
     bs \<leftarrow> put_member link_info [''map'', ''map_fd''] (ia_map_fd a) bs;
     bs \<leftarrow> put_member link_info [''cgroup'', ''order''] (ia_order a) bs;
     bs \<leftarrow> put_member link_info [''cgroup'', ''cgroup_fd''] (ia_cgroup_fd a) bs;
     bs \<leftarrow> put_member link_info [''cgroup'', ''cgroup_id''] (ia_cgroup_id a) bs;
     bs \<leftarrow> put_member link_info [''task'', ''tid''] (ia_tid a) bs;
     bs \<leftarrow> put_member link_info [''task'', ''pid''] (ia_pid a) bs;
     put_member link_info [''task'', ''pid_fd''] (ia_pid_fd a) bs
   }"

definition cgo_bpf_iter_attach_opts_new ::
  "ctype \<Rightarrow> nat \<Rightarrow> iter_args \<Rightarrow> heap \<Rightarrow> (ptr \<times> heap) option" where
  "cgo_bpf_iter_attach_opts_new link_info sizeof_opts a h =
     (case alloc (Buf (replicate (sizeof link_info) 0)) h of (linfo, h) \<Rightarrow>
        if linfo = 0 then Some (0, h)
        else do {
          h \<leftarrow> modify linfo (\<lambda>x. case x of
                 Buf bs \<Rightarrow> map_option Buf (fill_link_info link_info a bs) | _ \<Rightarrow> None) h;
          let (opts, h) = alloc (Iter_opts \<lparr>iao_sz = 0, iao_link_info = 0, iao_link_info_len = 0\<rparr>) h;
          if opts = 0 then do { h \<leftarrow> free linfo h; Some (0, h) }
          else do {
            h \<leftarrow> modify opts (\<lambda>x. case x of
                   Iter_opts r \<Rightarrow> Some (Iter_opts (r\<lparr>iao_sz := sizeof_opts,
                     iao_link_info_len := sizeof link_info, iao_link_info := linfo\<rparr>))
                 | _ \<Rightarrow> None) h;
            Some (opts, h)
          }
        })"

definition cgo_bpf_iter_attach_opts_free :: "ptr \<Rightarrow> heap \<Rightarrow> heap option" where
  "cgo_bpf_iter_attach_opts_free opts h =
     (if opts = 0 then Some h
      else (case live h opts of
          Some (Iter_opts r) \<Rightarrow> do { h \<leftarrow> free (iao_link_info r) h; free opts h }
        | _ \<Rightarrow> None))"

definition cgo_bpf_object_open_opts_new ::
  "nat \<Rightarrow> ptr \<Rightarrow> ptr \<Rightarrow> ptr \<Rightarrow> heap \<Rightarrow> (ptr \<times> heap) option" where
  "cgo_bpf_object_open_opts_new sizeof_opts btf_file_path kconfig_path bpf_obj_name h =
     (case alloc (Open_opts \<lparr>ooo_sz = 0, ooo_object_name = 0, ooo_kconfig = 0, ooo_btf_custom_path = 0\<rparr>) h
      of (opts, h) \<Rightarrow>
        if opts = 0 then Some (0, h)
        else do {
          h \<leftarrow> modify opts (\<lambda>x. case x of
                 Open_opts r \<Rightarrow> Some (Open_opts (r\<lparr>ooo_sz := sizeof_opts,
                   ooo_btf_custom_path := btf_file_path, ooo_kconfig := kconfig_path,
                   ooo_object_name := bpf_obj_name\<rparr>))
               | _ \<Rightarrow> None) h;
          Some (opts, h)
        })"

definition cgo_bpf_object_open_opts_free :: "ptr \<Rightarrow> heap \<Rightarrow> heap option" where
  "cgo_bpf_object_open_opts_free opts h = free opts h"

text \<open>The arguments of \<open>cgo_bpf_map_create_opts_new\<close> are the record without its size.\<close>

definition cgo_bpf_map_create_opts_new ::
  "nat \<Rightarrow> u32 \<Rightarrow> u32 \<Rightarrow> u32 \<Rightarrow> u32 \<Rightarrow> u32 \<Rightarrow> u32 \<Rightarrow> u64 \<Rightarrow> u32 \<Rightarrow> u32 \<Rightarrow> heap \<Rightarrow> (ptr \<times> heap) option" where
  "cgo_bpf_map_create_opts_new sizeof_opts btf_fd btf_key_type_id btf_value_type_id
       btf_vmlinux_value_type_id inner_map_fd map_flags map_extra numa_node map_ifindex h =
     (case alloc (Create_opts \<lparr>mco_sz = 0, mco_btf_fd = 0, mco_btf_key_type_id = 0,
          mco_btf_value_type_id = 0, mco_btf_vmlinux_value_type_id = 0, mco_inner_map_fd = 0,
          mco_map_flags = 0, mco_map_extra = 0, mco_numa_node = 0, mco_map_ifindex = 0\<rparr>) h
      of (opts, h) \<Rightarrow>
        if opts = 0 then Some (0, h)
        else do {
          h \<leftarrow> modify opts (\<lambda>x. case x of
                 Create_opts r \<Rightarrow> Some (Create_opts (r\<lparr>mco_sz := sizeof_opts, mco_btf_fd := btf_fd,
                   mco_btf_key_type_id := btf_key_type_id, mco_btf_value_type_id := btf_value_type_id,
                   mco_btf_vmlinux_value_type_id := btf_vmlinux_value_type_id,
                   mco_inner_map_fd := inner_map_fd, mco_map_flags := map_flags,
                   mco_map_extra := map_extra, mco_numa_node := numa_node,
                   mco_map_ifindex := map_ifindex\<rparr>))
               | _ \<Rightarrow> None) h;
          Some (opts, h)
        })"

definition cgo_bpf_map_create_opts_free :: "ptr \<Rightarrow> heap \<Rightarrow> heap option" where
  "cgo_bpf_map_create_opts_free opts h = free opts h"

definition cgo_bpf_map_batch_opts_new :: "nat \<Rightarrow> u64 \<Rightarrow> u64 \<Rightarrow> heap \<Rightarrow> (ptr \<times> heap) option" where
  "cgo_bpf_map_batch_opts_new sizeof_opts elem_flags flags h =
     (case alloc (Batch_opts \<lparr>mbo_sz = 0, mbo_elem_flags = 0, mbo_flags = 0\<rparr>) h of (opts, h) \<Rightarrow>
        if opts = 0 then Some (0, h)
        else do {
          h \<leftarrow> modify opts (\<lambda>x. case x of
                 Batch_opts r \<Rightarrow> Some (Batch_opts (r\<lparr>mbo_sz := sizeof_opts,
                   mbo_elem_flags := elem_flags, mbo_flags := flags\<rparr>))
               | _ \<Rightarrow> None) h;
          Some (opts, h)
        })"

definition cgo_bpf_map_batch_opts_free :: "ptr \<Rightarrow> heap \<Rightarrow> heap option" where
  "cgo_bpf_map_batch_opts_free opts h = free opts h"

section \<open>The contract of constructors and destructors\<close>

text \<open>
  \<open>m\<close> is what a constructor added to the heap: the pointer owns it when freeing the pointer, in any
  heap that still holds \<open>m\<close>, removes exactly \<open>m\<close>.
\<close>

definition owns :: "(ptr \<Rightarrow> heap \<Rightarrow> heap option) \<Rightarrow> ptr \<Rightarrow> (ptr \<rightharpoonup> cobj) \<Rightarrow> bool" where
  "owns fr p m \<longleftrightarrow> (\<forall>h. m \<subseteq>\<^sub>m live h \<longrightarrow>
     (\<exists>h'. fr p h = Some h' \<and> live h' = live h |` (- dom m)))"

fun news :: "(heap \<Rightarrow> (ptr \<times> heap) option) \<Rightarrow> nat \<Rightarrow> heap \<Rightarrow> (ptr list \<times> heap) option" where
  "news new 0 h = Some ([], h)"
| "news new (Suc n) h = do { (p, h) \<leftarrow> new h; (ps, h) \<leftarrow> news new n h; Some (p # ps, h) }"

fun frees :: "(ptr \<Rightarrow> heap \<Rightarrow> heap option) \<Rightarrow> ptr list \<Rightarrow> heap \<Rightarrow> heap option" where
  "frees fr [] h = Some h"
| "frees fr (p # ps) h = do { h \<leftarrow> fr p h; frees fr ps h }"

text \<open>The parts a list of pointers owns, each pointer with its part, do not overlap.\<close>

definition separate :: "(ptr \<times> (ptr \<rightharpoonup> cobj)) list \<Rightarrow> bool" where
  "separate L \<longleftrightarrow> (\<forall>x. length (filter (\<lambda>a. x \<in> dom (snd a)) L) \<le> 1)"

lemma separate_mset:
  assumes "mset L = mset L'"
  shows "separate L = separate L'"
proof -
  have "length (filter P L) = length (filter P L')" for P
    using arg_cong [OF assms, of "\<lambda>M. size (filter_mset P M)"] by (simp flip: mset_filter)
  then show ?thesis by (simp add: separate_def)
qed

text \<open>Removing what was added gives the old heap back.\<close>

lemma restrict_added:
  assumes "f \<subseteq>\<^sub>m g" and "dom g = dom f \<union> D" and "D \<inter> dom f = {}"
  shows "g |` (- D) = f"
proof
  fix x
  show "(g |` (- D)) x = f x"
  proof (cases "x \<in> dom f")
    case True
    then show ?thesis using assms by (auto simp: map_le_def restrict_map_def)
  next
    case False
    then have "x \<in> D \<or> g x = None" using assms(2) by auto
    with False show ?thesis by (auto simp: restrict_map_def domIff)
  qed
qed

lemma separate_Cons:
  "separate (a # L) \<longleftrightarrow> separate L \<and> (\<forall>b \<in> set L. dom (snd a) \<inter> dom (snd b) = {})"
proof -
  have "(\<forall>x. length (filter (\<lambda>a. x \<in> dom (snd a)) (a # L)) \<le> 1) \<longleftrightarrow>
      (\<forall>x. length (filter (\<lambda>a. x \<in> dom (snd a)) L) \<le> 1 \<and>
        (x \<in> dom (snd a) \<longrightarrow> filter (\<lambda>a. x \<in> dom (snd a)) L = []))"
    by (intro all_cong1) auto
  also have "\<dots> \<longleftrightarrow> separate L \<and> (\<forall>b \<in> set L. dom (snd a) \<inter> dom (snd b) = {})"
    unfolding separate_def filter_empty_conv by blast
  finally show ?thesis by (simp add: separate_def)
qed

locale opts_ctor =
  fixes new :: "heap \<Rightarrow> (ptr \<times> heap) option" and fr :: "ptr \<Rightarrow> heap \<Rightarrow> heap option"
  assumes new_owns: "heap_wf h \<Longrightarrow> \<exists>p h' m. new h = Some (p, h') \<and> heap_wf h' \<and>
    live h' = live h ++ m \<and> dom m \<inter> dom (live h) = {} \<and> owns fr p m"
begin

lemma frees_owned:
  assumes "\<forall>a \<in> set L. owns fr (fst a) (snd a) \<and> snd a \<subseteq>\<^sub>m live h" and "separate L"
  shows "\<exists>h'. frees fr (map fst L) h = Some h' \<and> live h' = live h |` (- (\<Union>a \<in> set L. dom (snd a)))"
  using assms
proof (induction L arbitrary: h)
  case (Cons a L)
  obtain h1 where h1: "fr (fst a) h = Some h1" "live h1 = live h |` (- dom (snd a))"
    using Cons.prems(1) by (auto simp: owns_def)
  have "snd b \<subseteq>\<^sub>m live h1" if "b \<in> set L" for b
  proof -
    have "snd b \<subseteq>\<^sub>m live h" "dom (snd a) \<inter> dom (snd b) = {}"
      using Cons.prems that by (auto simp: separate_Cons)
    then show ?thesis unfolding h1(2) map_le_def by (auto simp: restrict_map_def)
  qed
  then obtain h2 where "frees fr (map fst L) h1 = Some h2"
    "live h2 = live h1 |` (- (\<Union>a \<in> set L. dom (snd a)))"
    using Cons.IH [of h1] Cons.prems by (auto simp: separate_Cons)
  moreover have "- dom (snd a) \<inter> - (\<Union>a \<in> set L. dom (snd a)) = - (\<Union>b \<in> set (a # L). dom (snd b))"
    by auto
  ultimately show ?case using h1 by (simp add: restrict_restrict)
qed (simp add: restrict_map_def)

lemma news_owned:
  assumes "heap_wf h"
  shows "\<exists>L h'. news new n h = Some (map fst L, h') \<and> live h \<subseteq>\<^sub>m live h' \<and>
    dom (live h') = dom (live h) \<union> (\<Union>a \<in> set L. dom (snd a)) \<and>
    (\<forall>a \<in> set L. owns fr (fst a) (snd a) \<and> snd a \<subseteq>\<^sub>m live h' \<and> dom (snd a) \<inter> dom (live h) = {}) \<and>
    separate L"
  using assms
proof (induction n arbitrary: h)
  case 0
  then show ?case by (intro exI [of _ "[]"]) (simp add: separate_def)
next
  case (Suc n)
  obtain p h1 m where n1: "new h = Some (p, h1)" "heap_wf h1" "live h1 = live h ++ m"
    "dom m \<inter> dom (live h) = {}" "owns fr p m"
    using new_owns [OF Suc.prems] by blast
  obtain L h2 where n2: "news new n h1 = Some (map fst L, h2)" "live h1 \<subseteq>\<^sub>m live h2"
    "dom (live h2) = dom (live h1) \<union> (\<Union>a \<in> set L. dom (snd a))"
    "\<forall>a \<in> set L. owns fr (fst a) (snd a) \<and> snd a \<subseteq>\<^sub>m live h2 \<and> dom (snd a) \<inter> dom (live h1) = {}"
    "separate L"
    using Suc.IH [OF n1(2)] by blast
  have "live h \<subseteq>\<^sub>m live h1" unfolding n1(3) map_add_comm [OF n1(4), symmetric] by (rule map_le_map_add)
  moreover have "m \<subseteq>\<^sub>m live h1" unfolding n1(3) by simp
  ultimately have le: "live h \<subseteq>\<^sub>m live h2" "m \<subseteq>\<^sub>m live h2"
    using n2(2) map_le_trans by blast+
  have d: "dom (live h1) = dom (live h) \<union> dom m" using n1(3) by auto
  have s: "separate ((p, m) # L)" using n2(4,5) d by (auto simp: separate_Cons)
  have n: "news new (Suc n) h = Some (map fst ((p, m) # L), h2)" using n1(1) n2(1) by simp
  have disj: "\<forall>a \<in> set L. dom (snd a) \<inter> dom (live h) = {}" using n2(4) d by blast
  have o: "\<forall>a \<in> set ((p, m) # L). owns fr (fst a) (snd a) \<and> snd a \<subseteq>\<^sub>m live h2 \<and>
      dom (snd a) \<inter> dom (live h) = {}"
    using le(2) n1(4,5) n2(4) disj by simp
  have "dom (live h2) = dom (live h) \<union> (\<Union>a \<in> set ((p, m) # L). dom (snd a))"
    using n2(3) d by auto
  with n s le(1) o show ?case by blast
qed

text \<open>Any number of objects, freed in any order, leave nothing behind.\<close>

lemma news_frees:
  assumes "heap_wf h"
  shows "\<exists>ps h'. news new n h = Some (ps, h') \<and>
    (\<forall>qs. mset qs = mset ps \<longrightarrow> (\<exists>h''. frees fr qs h' = Some h'' \<and> live h'' = live h))"
proof -
  obtain L h' where L: "news new n h = Some (map fst L, h')" "live h \<subseteq>\<^sub>m live h'"
    "dom (live h') = dom (live h) \<union> (\<Union>a \<in> set L. dom (snd a))"
    "\<forall>a \<in> set L. owns fr (fst a) (snd a) \<and> snd a \<subseteq>\<^sub>m live h' \<and> dom (snd a) \<inter> dom (live h) = {}"
    "separate L"
    using news_owned [OF assms] by blast
  let ?D = "\<Union>a \<in> set L. dom (snd a)"
  have "?D \<inter> dom (live h) = {}" using L(4) by blast
  with L(2,3) have keep: "live h' |` (- ?D) = live h" by (rule restrict_added)
  have "\<exists>h''. frees fr qs h' = Some h'' \<and> live h'' = live h" if q: "mset qs = mset (map fst L)" for qs
  proof -
    obtain ms where ms: "length ms = length qs" "mset (zip qs ms) = mset (zip (map fst L) (map snd L))"
      using ex_mset_zip_left [OF _ q, of "map snd L"] by auto
    let ?L = "zip qs ms"
    have perm: "mset ?L = mset L" using ms(2) by (simp add: zip_map_fst_snd)
    then have "set ?L = set L" by (rule mset_eq_setD)
    moreover have "separate ?L" using L(5) separate_mset [OF perm] by simp
    ultimately show ?thesis
      using frees_owned [of ?L h'] L(4) keep ms(1) by auto
  qed
  with L(1) show ?thesis by blast
qed

end

section \<open>The constructors keep the contract\<close>

lemma alloc_cases:
  assumes "heap_wf h" and "alloc x h = (p, h')"
  obtains "p = 0" "live h' = live h" "heap_wf h'"
  | "p \<noteq> 0" "p \<notin> dom (live h)" "live h' = (live h)(p \<mapsto> x)" "heap_wf h'"
proof -
  have "(p = 0 \<and> live h' = live h \<or> p \<noteq> 0 \<and> p \<notin> dom (live h) \<and> live h' = (live h)(p \<mapsto> x)) \<and> heap_wf h'"
    using assms by (auto simp: alloc_def heap_wf_def Let_def less_Suc_eq split: if_splits)
  then show ?thesis using that by blast
qed

lemma heap_wf_modify: "modify p f h = Some h' \<Longrightarrow> heap_wf h \<Longrightarrow> heap_wf h'"
  by (fastforce simp: modify_def heap_wf_def split: bind_splits if_splits)

lemma owns_null: "fr 0 = Some \<Longrightarrow> owns fr 0 Map.empty"
  by (auto simp: owns_def restrict_map_def)

lemma owns_free: "p \<noteq> 0 \<Longrightarrow> owns free p [p \<mapsto> x]"
  by (auto simp: owns_def free_def map_le_def restrict_map_def)

lemma free_null [simp]: "free 0 = Some"
  by (rule ext) (simp add: free_def)

text \<open>The constructors that allocate one zeroed structure and set its fields.\<close>

lemma single_ctor:
  assumes "\<And>h. new h = (case alloc x h of (p, h) \<Rightarrow>
      if p = 0 then Some (0, h) else do { h \<leftarrow> modify p f h; Some (p, h) })"
    and "f x = Some y" and "\<And>p h. fr p h = free p h"
  shows "opts_ctor new fr"
proof
  fix h
  assume wf: "heap_wf h"
  have fr: "fr = free" by (intro ext) (rule assms(3))
  obtain p h1 where a: "alloc x h = (p, h1)" by fastforce
  from wf a show "\<exists>p h' m. new h = Some (p, h') \<and> heap_wf h' \<and>
    live h' = live h ++ m \<and> dom m \<inter> dom (live h) = {} \<and> owns fr p m"
  proof (cases rule: alloc_cases)
    case 1
    then show ?thesis
      using a by (intro exI [of _ 0] exI [of _ h1] exI [of _ Map.empty]) (simp add: assms(1) fr owns_null)
  next
    case 2
    define h2 where "h2 = h1\<lparr>live := (live h1)(p \<mapsto> y)\<rparr>"
    have m: "modify p f h1 = Some h2" using 2 by (simp add: modify_def assms(2) h2_def)
    then have "heap_wf h2" using 2(4) by (rule heap_wf_modify)
    then show ?thesis
      using a m 2 by (intro exI [of _ p] exI [of _ h2] exI [of _ "[p \<mapsto> y]"])
        (simp add: assms(1) fr owns_free h2_def)
  qed
qed

interpretation open_opts: opts_ctor "cgo_bpf_object_open_opts_new sz b k n" cgo_bpf_object_open_opts_free
  for sz b k n
  by (rule single_ctor, rule cgo_bpf_object_open_opts_new_def, simp, rule cgo_bpf_object_open_opts_free_def)

interpretation create_opts: opts_ctor "cgo_bpf_map_create_opts_new sz a b c d e f g i j"
  cgo_bpf_map_create_opts_free for sz a b c d e f g i j
  by (rule single_ctor, rule cgo_bpf_map_create_opts_new_def, simp, rule cgo_bpf_map_create_opts_free_def)

interpretation batch_opts: opts_ctor "cgo_bpf_map_batch_opts_new sz e f" cgo_bpf_map_batch_opts_free
  for sz e f
  by (rule single_ctor, rule cgo_bpf_map_batch_opts_new_def, simp, rule cgo_bpf_map_batch_opts_free_def)

section \<open>The union of iterator parameters\<close>

text \<open>
  The layout of \<open>union bpf_iter_link_info\<close> in \<open>linux/bpf.h\<close>: offset and size of the members the
  constructor assigns.
\<close>

definition link_info_ok :: "ctype \<Rightarrow> bool" where
  "link_info_ok U \<longleftrightarrow> (\<forall>(d, pl) \<in> set
     [([''map'', ''map_fd''], (0, 4)), ([''cgroup'', ''order''], (0, 4)),
      ([''cgroup'', ''cgroup_fd''], (4, 4)), ([''cgroup'', ''cgroup_id''], (8, 8)),
      ([''task'', ''tid''], (0, 4)), ([''task'', ''pid''], (4, 4)), ([''task'', ''pid_fd''], (8, 4))].
     place U d = Some pl)"

text \<open>What the seven assignments leave: the task part, and the upper half of the cgroup id.\<close>

lemma fill_link_info_bytes:
  assumes "link_info_ok U"
  shows "fill_link_info U a (replicate (sizeof U) 0) = Some (le_bytes 4 (ia_tid a) @ le_bytes 4 (ia_pid a) @
    le_bytes 4 (ia_pid_fd a) @ drop 4 (le_bytes 8 (ia_cgroup_id a)) @ replicate (sizeof U - 16) 0)"
proof -
  have "16 \<le> sizeof U"
    using place_inside [of U "[''cgroup'', ''cgroup_id'']" 8 8] assms by (simp add: link_info_ok_def)
  then obtain k where k: "sizeof U = 16 + k" by (auto simp: le_iff_add)
  have "replicate (sizeof U) 0 = replicate 4 0 @ replicate 4 0 @ replicate 4 0 @ replicate 4 0 @ replicate k (0 :: u8)"
    by (simp add: k flip: replicate_add)
  moreover have "length (drop 4 (le_bytes 8 (ia_cgroup_id a))) = 4" by simp
  ultimately show ?thesis
    using assms by (simp add: fill_link_info_def link_info_ok_def put_member_place k overwrite_def)
qed

lemma owns_iter_opts:
  assumes "l \<noteq> 0" and "q \<noteq> 0" and "q \<noteq> l" and "iao_link_info r = l"
  shows "owns cgo_bpf_iter_attach_opts_free q [l \<mapsto> Buf bs, q \<mapsto> Iter_opts r]"
  using assms
  by (auto simp: owns_def cgo_bpf_iter_attach_opts_free_def free_def map_le_def restrict_map_def
      split: option.splits cobj.splits)

text \<open>The constructor with two blocks: a failure of the second allocation releases the first.\<close>

lemma iter_opts_ctor:
  assumes "link_info_ok U"
  shows "opts_ctor (cgo_bpf_iter_attach_opts_new U sz a) cgo_bpf_iter_attach_opts_free"
proof
  fix h
  assume wf: "heap_wf h"
  let ?new = "cgo_bpf_iter_attach_opts_new U sz a" and ?fr = "cgo_bpf_iter_attach_opts_free"
  obtain bs where bs: "fill_link_info U a (replicate (sizeof U) 0) = Some bs"
    using fill_link_info_bytes [OF assms] by blast
  obtain l h1 where a1: "alloc (Buf (replicate (sizeof U) 0)) h = (l, h1)" by fastforce
  have null: "owns ?fr 0 Map.empty" by (rule owns_null) (auto simp: cgo_bpf_iter_attach_opts_free_def)
  from wf a1 show "\<exists>p h' m. ?new h = Some (p, h') \<and> heap_wf h' \<and>
    live h' = live h ++ m \<and> dom m \<inter> dom (live h) = {} \<and> owns ?fr p m"
  proof (cases rule: alloc_cases)
    case 1
    then show ?thesis
      using a1 null by (intro exI [of _ 0] exI [of _ h1] exI [of _ Map.empty])
        (simp add: cgo_bpf_iter_attach_opts_new_def)
  next
    case l: 2
    define h2 where "h2 = h1\<lparr>live := (live h1)(l \<mapsto> Buf bs)\<rparr>"
    let ?f = "\<lambda>x. case x of Buf bs \<Rightarrow> map_option Buf (fill_link_info U a bs) | _ \<Rightarrow> None"
    have m1: "modify l ?f h1 = Some h2" using l by (simp add: modify_def bs h2_def)
    then have wf2: "heap_wf h2" using l(4) by (rule heap_wf_modify)
    obtain q h3 where a2: "alloc (Iter_opts \<lparr>iao_sz = 0, iao_link_info = 0, iao_link_info_len = 0\<rparr>) h2
      = (q, h3)" by fastforce
    from wf2 a2 show ?thesis
    proof (cases rule: alloc_cases)
      case 1
      define h4 where "h4 = h3\<lparr>live := (live h3)(l := None)\<rparr>"
      have "free l h3 = Some h4" using l 1 by (simp add: free_def h4_def h2_def)
      moreover have "heap_wf h4" using 1(3) by (auto simp: heap_wf_def h4_def)
      moreover have "live h4 = live h" using l 1 by (auto simp: h4_def h2_def)
      ultimately show ?thesis
        using a1 l m1 a2 1 null by (intro exI [of _ 0] exI [of _ h4] exI [of _ Map.empty])
          (simp add: cgo_bpf_iter_attach_opts_new_def)
    next
      case 2
      define r where "r = \<lparr>iao_sz = sz, iao_link_info = l, iao_link_info_len = sizeof U\<rparr>"
      define h4 where "h4 = h3\<lparr>live := (live h3)(q \<mapsto> Iter_opts r)\<rparr>"
      have ql: "q \<noteq> l" using 2(2) by (auto simp: h2_def)
      have new: "?new h = Some (q, h4)"
        using a1 l(1) m1 a2 2 by (simp add: cgo_bpf_iter_attach_opts_new_def) (simp add: modify_def r_def h4_def)
      have "heap_wf h4" using 2(3,4) by (auto simp: heap_wf_def h4_def)
      moreover have "live h4 = live h ++ [l \<mapsto> Buf bs, q \<mapsto> Iter_opts r]"
        using l(3) 2(3) by (simp add: h4_def h2_def)
      moreover have "owns ?fr q [l \<mapsto> Buf bs, q \<mapsto> Iter_opts r]"
        using ql l(1) 2(1) by (intro owns_iter_opts) (simp_all add: r_def)
      moreover have "dom [l \<mapsto> Buf bs, q \<mapsto> Iter_opts r] \<inter> dom (live h) = {}"
        using l(2) 2(2) by (auto simp: h2_def l(3))
      ultimately show ?thesis using new by blast
    qed
  qed
qed

section \<open>Properties\<close>

definition empty_heap :: "(nat \<Rightarrow> bool) \<Rightarrow> heap" where
  "empty_heap fails = \<lparr>live = Map.empty, next_ptr = 1, oom = fails\<rparr>"

lemma empty_heap_wf: "heap_wf (empty_heap fails)"
  by (simp add: heap_wf_def empty_heap_def)

text \<open>The declaration in \<open>linux/bpf.h\<close>.\<close>

definition uapi_link_info :: ctype where
  "uapi_link_info = CUnion
     [Field ''map'' (CStruct [Field ''map_fd'' (CBase CUInt)]),
      Field ''cgroup'' (CStruct [Field ''order'' (CEnum ''bpf_cgroup_iter_order''),
        Field ''cgroup_fd'' (CBase CUInt), Field ''cgroup_id'' (CBase CULongLong)]),
      Field ''task'' (CStruct [Field ''tid'' (CBase CUInt), Field ''pid'' (CBase CUInt),
        Field ''pid_fd'' (CBase CUInt)])]"

lemma uapi_link_info_ok: "link_info_ok uapi_link_info"
  by (simp add: link_info_ok_def place_def uapi_link_info_def align_up_def)

text \<open>
  C21: no leak and no invalid free in the option structures. Whichever allocations fail, any number of
  structures made by one of the four constructors can be released by the matching destructor, in any
  order, and the heap then holds exactly the blocks it held before.
\<close>

theorem opts_no_leak:
  assumes "heap_wf h" and "link_info_ok U"
    and "(new, fr) \<in> {(cgo_bpf_iter_attach_opts_new U sz ia, cgo_bpf_iter_attach_opts_free),
      (cgo_bpf_object_open_opts_new sz bp kp np, cgo_bpf_object_open_opts_free),
      (cgo_bpf_map_create_opts_new sz a b c d e f g i j, cgo_bpf_map_create_opts_free),
      (cgo_bpf_map_batch_opts_new sz ef fl, cgo_bpf_map_batch_opts_free)}"
  shows "\<exists>ps h'. news new n h = Some (ps, h') \<and>
    (\<forall>qs. mset qs = mset ps \<longrightarrow> (\<exists>h''. frees fr qs h' = Some h'' \<and> live h'' = live h))"
  using assms(3) opts_ctor.news_frees [OF iter_opts_ctor [OF assms(2)] assms(1)]
    open_opts.news_frees [OF assms(1)] create_opts.news_frees [OF assms(1)] batch_opts.news_frees [OF assms(1)]
  by auto

theorem opts_no_leak_witness:
  "\<exists>ps h'. news (cgo_bpf_map_batch_opts_new 24 0 0) 3 (empty_heap (\<lambda>k. k = 2)) = Some (ps, h') \<and>
    (\<forall>qs. mset qs = mset ps \<longrightarrow>
      (\<exists>h''. frees cgo_bpf_map_batch_opts_free qs h' = Some h'' \<and> live h'' = Map.empty))"
  using opts_no_leak [OF empty_heap_wf [of "\<lambda>k. k = 2"] uapi_link_info_ok,
      of "cgo_bpf_map_batch_opts_new 24 0 0" cgo_bpf_map_batch_opts_free 24 _ 0 0 0 0 0 0 0 0 0 0 0 0 0 0 3]
  by (simp add: empty_heap_def)

text \<open>
  \<open>bpf_iter_link_info\<close> is a union, and the constructor assigns the members of all three of its
  parts: what remains is the task part. The map descriptor and the cgroup order read back as the
  thread id and the cgroup descriptor as the process id, so an iterator over a map or a cgroup
  is attached with the wrong parameters.
\<close>

theorem link_info_members_overwritten:
  assumes "link_info_ok U"
  shows "\<exists>bs. fill_link_info U a (replicate (sizeof U) 0) = Some bs \<and> length bs = sizeof U \<and>
    get_member U [''task'', ''tid''] bs = Some (ia_tid a) \<and>
    get_member U [''task'', ''pid''] bs = Some (ia_pid a) \<and>
    get_member U [''task'', ''pid_fd''] bs = Some (ia_pid_fd a) \<and>
    get_member U [''map'', ''map_fd''] bs = Some (ia_tid a) \<and>
    get_member U [''cgroup'', ''order''] bs = Some (ia_tid a) \<and>
    get_member U [''cgroup'', ''cgroup_fd''] bs = Some (ia_pid a)"
proof -
  have "16 \<le> sizeof U"
    using place_inside [of U "[''cgroup'', ''cgroup_id'']" 8 8] assms by (simp add: link_info_ok_def)
  then show ?thesis
    using assms by (simp add: fill_link_info_bytes link_info_ok_def get_member_place slice_def le_word_le_bytes)
qed

theorem link_info_members_overwritten_witness:
  "\<exists>bs. fill_link_info uapi_link_info \<lparr>ia_map_fd = 7, ia_order = 1, ia_cgroup_fd = 8, ia_cgroup_id = 9,
      ia_tid = 0, ia_pid = 0, ia_pid_fd = 0\<rparr> (replicate (sizeof uapi_link_info) 0) = Some bs \<and>
    get_member uapi_link_info [''map'', ''map_fd''] bs = Some (0 :: u32)"
  using link_info_members_overwritten [OF uapi_link_info_ok, of "\<lparr>ia_map_fd = 7, ia_order = 1,
      ia_cgroup_fd = 8, ia_cgroup_id = 9, ia_tid = 0, ia_pid = 0, ia_pid_fd = 0\<rparr>"] by auto

lemma attach_attr_bytes:
  assumes "place A [''target_fd''] = Some (0, 4)" "place A [''attach_bpf_fd''] = Some (4, 4)"
    "place A [''attach_type''] = Some (8, 4)" "place A [''attach_flags''] = Some (12, 4)"
  shows "cgo_bpf_prog_attach_cgroup_legacy A bpf prog target ty = Some (bpf ''BPF_PROG_ATTACH''
      (le_bytes 4 target @ le_bytes 4 prog @ le_bytes 4 ty @ le_bytes 4 (2 :: u32) @ replicate (sizeof A - 16) 0))"
    and "cgo_bpf_prog_detach_cgroup_legacy A bpf prog target ty = Some (bpf ''BPF_PROG_DETACH''
      (le_bytes 4 target @ le_bytes 4 prog @ le_bytes 4 ty @ replicate (sizeof A - 12) 0))"
proof -
  obtain k where k: "sizeof A = 16 + k"
    using place_inside [OF assms(4)] by (auto simp: le_iff_add)
  have z: "replicate (sizeof A) 0 = replicate 4 0 @ replicate 4 0 @ replicate 4 0 @ replicate 4 0 @ replicate k (0 :: u8)"
    by (simp add: k flip: replicate_add)
  show "cgo_bpf_prog_attach_cgroup_legacy A bpf prog target ty = Some (bpf ''BPF_PROG_ATTACH''
      (le_bytes 4 target @ le_bytes 4 prog @ le_bytes 4 ty @ le_bytes 4 (2 :: u32) @ replicate (sizeof A - 16) 0))"
    unfolding cgo_bpf_prog_attach_cgroup_legacy_def Let_def z
    by (simp add: assms put_member_place overwrite_def BPF_F_ALLOW_MULTI_def k)
  show "cgo_bpf_prog_detach_cgroup_legacy A bpf prog target ty = Some (bpf ''BPF_PROG_DETACH''
      (le_bytes 4 target @ le_bytes 4 prog @ le_bytes 4 ty @ replicate (sizeof A - 12) 0))"
    unfolding cgo_bpf_prog_detach_cgroup_legacy_def Let_def z
    by (simp add: assms put_member_place overwrite_def k add.commute flip: replicate_add)
qed

text \<open>
  The legacy attachment hands the kernel an attribute union of the full size that is zero but for
  the target, the program, the attach type and (when attaching) the flag \<open>BPF_F_ALLOW_MULTI\<close>, at
  bytes 0, 4, 8 and 12, with the \<open>union bpf_attr\<close> of either architecture.
\<close>

theorem legacy_attach_attr:
  assumes "A \<in> {bpf_attr_amd64, bpf_attr_aarch64}"
  shows "cgo_bpf_prog_attach_cgroup_legacy A bpf prog target ty = Some (bpf ''BPF_PROG_ATTACH''
      (le_bytes 4 target @ le_bytes 4 prog @ le_bytes 4 ty @ le_bytes 4 (2 :: u32) @ replicate (sizeof A - 16) 0)) \<and>
    cgo_bpf_prog_detach_cgroup_legacy A bpf prog target ty = Some (bpf ''BPF_PROG_DETACH''
      (le_bytes 4 target @ le_bytes 4 prog @ le_bytes 4 ty @ replicate (sizeof A - 12) 0))"
proof -
  have "place A [''target_fd''] = Some (0, 4)" "place A [''attach_bpf_fd''] = Some (4, 4)"
    "place A [''attach_type''] = Some (8, 4)" "place A [''attach_flags''] = Some (12, 4)"
    using assms by (auto simp: place_def layout_simps)
  then show ?thesis using attach_attr_bytes by blast
qed

theorem legacy_attach_attr_witness:
  "cgo_bpf_prog_attach_cgroup_legacy bpf_attr_amd64 (\<lambda>cmd attr. int (length attr)) 5 6 1 = Some 144"
  using legacy_attach_attr [of bpf_attr_amd64 "\<lambda>cmd attr. int (length attr)" 5 6 1]
  by (simp add: layout_simps)

text \<open>
  \<open>libbpf_print_fn\<close> passes every non-empty message, complete, to the logger exactly once; it
  returns the length of the message, the code of a formatting error, or \<open>-ENOMEM\<close> when the buffer
  cannot be allocated; it never writes outside the buffer and frees it on every path.
\<close>

theorem libbpf_print_fn_logs:
  assumes "heap_wf h" and "err < 0"
  shows "libbpf_print_fn level (Inl err) h = Some (err, [], h) \<and>
    (\<exists>h'. live h' = live h \<and> heap_wf h' \<and> libbpf_print_fn level (Inr s) h =
       Some (if oom h (next_ptr h) then (- 12, [], h')
             else (int (length s), if s = [] then [] else [(level, c_str s)], h')))"
proof
  show "libbpf_print_fn level (Inl err) h = Some (err, [], h)"
    using assms(2) by (simp add: libbpf_print_fn_def)
  obtain p h1 where a: "alloc (Buf (replicate (length s + 1) 0)) h = (p, h1)" by fastforce
  have oom: "p = 0 \<longleftrightarrow> oom h (next_ptr h)"
    using a assms(1) by (auto simp: alloc_def Let_def heap_wf_def split: if_splits)
  have len: "nat (int (length s) + 1) = length s + 1" by simp
  have msg: "c_str (s @ [0]) = c_str s" using c_str_append_zeros [of s 1] by simp
  from assms(1) a show "\<exists>h'. live h' = live h \<and> heap_wf h' \<and> libbpf_print_fn level (Inr s) h =
       Some (if oom h (next_ptr h) then (- 12, [], h')
             else (int (length s), if s = [] then [] else [(level, c_str s)], h'))"
  proof (cases rule: alloc_cases)
    case 1
    then show ?thesis
      using a oom by (intro exI [of _ h1]) (simp add: libbpf_print_fn_def len ENOMEM_def)
  next
    case 2
    define h2 where "h2 = h1\<lparr>live := live h\<rparr>"
    have "(live h)(p := None) = live h" using 2(2) by (auto simp: domIff)
    then have "libbpf_print_fn level (Inr s) h =
        Some (int (length s), if s = [] then [] else [(level, c_str s)], h2)"
      using a 2(1,3) by (simp add: libbpf_print_fn_def len modify_def free_def overwrite_def h2_def msg)
    moreover have "heap_wf h2" using 2(3,4) by (auto simp: heap_wf_def h2_def split: if_splits)
    ultimately show ?thesis using 2(1) oom by (intro exI [of _ h2]) (simp add: h2_def)
  qed
qed

theorem libbpf_print_fn_logs_witness:
  "\<exists>h'. live h' = Map.empty \<and> libbpf_print_fn 1 (Inr (ascii ''hello'')) (empty_heap (\<lambda>k. False)) =
     Some (5, [(1, ascii ''hello'')], h')"
  using libbpf_print_fn_logs [OF empty_heap_wf [of "\<lambda>k. False"], of "-1" 1 "ascii ''hello''"]
  by (auto simp: empty_heap_def c_str_Cons)

text \<open>
  Opening a ring or perf buffer returns the pointer and the \<open>errno\<close> of the libbpf call: the
  message printed on failure does not disturb the error the Go caller sees.
\<close>

theorem init_buf_keeps_errno:
  "cgo_init_ring_buf ring_new clobber map_fd ctx = ring_new map_fd ctx \<and>
   cgo_init_perf_buf perf_new sz clobber map_fd pages ctx = perf_new map_fd pages ctx sz"
  by (auto simp: cgo_init_ring_buf_def cgo_init_perf_buf_def Let_def split: prod.splits)

end
