(* ===== verification/Disk_Driver.thy ===== *)
theory Disk_Driver
  imports Disk_Failure Libbpfgo
begin

text \<open>
  The Go side of the disk failure: \<open>InitGlobalVariable\<close> of libbpfgo
  (\<open>src/vendor/github.com/aquasecurity/libbpfgo/libbpfgo.go\<close>, \<open>elf.go\<close>, \<open>map.go\<close>), the loader
  (\<open>src/ebpf/disk-failure/main.go\<close>), the validation and arguments of the resource
  (\<open>src/api/v1beta1/disk_failure.go\<close>), its command (\<open>src/cli/injector/disk_failure.go\<close>) and the
  injector (\<open>src/injector/disk_failure.go\<close>).

  Strings are lists of bytes as characters; \<open>strings.TrimSpace\<close> is modelled on its ASCII white space.
  The locale \<open>global_vars\<close> is the contract of setting global variables by name.
\<close>

section \<open>Global variables of an object file\<close>

record elf_symbol =
  es_name :: string
  es_size :: nat
  es_value :: nat
  es_section :: nat

record symbol =
  sy_name :: string
  sy_size :: nat
  sy_offset :: nat
  sy_section :: string

text \<open>
  A global variable section as libbpf sees it: a map with a value size and an initial value.
  \<open>mod_set_rc\<close> is what \<open>bpf_map__set_initial_value\<close> returns.
\<close>

record section_map =
  sm_value_size :: nat
  sm_initial :: "bytes option"

record module =
  mod_loaded :: bool
  mod_symbols :: "elf_symbol list option"
  mod_sections :: "string list"
  mod_maps :: "string \<rightharpoonup> section_map"
  mod_set_rc :: "string \<Rightarrow> int"

datatype go_error = Err_loaded | Err_symbol | Err_map | Err_value_size | Err_invalid_value | Err_memory | Err_set

definition isGlobalVariableSection :: "string \<Rightarrow> bool" where
  "isGlobalVariableSection s \<longleftrightarrow>
     s = ''.data'' \<or> s = ''.rodata'' \<or> prefix ''.data.'' s \<or> prefix ''.rodata.'' s"

definition global_symbols :: "module \<Rightarrow> elf_symbol list \<Rightarrow> symbol list" where
  "global_symbols m regularSymbols = concat (map (\<lambda>s.
     if es_section s \<ge> length (mod_sections m) then []
     else if isGlobalVariableSection (mod_sections m ! es_section s)
     then [\<lparr>sy_name = es_name s, sy_size = es_size s, sy_offset = es_value s,
            sy_section = mod_sections m ! es_section s\<rparr>]
     else []) regularSymbols)"

text \<open>No symbol, when the symbol table cannot be read or has no such variable, is an error of the caller.\<close>

definition getGlobalVariableSymbol :: "module \<Rightarrow> string \<Rightarrow> symbol option" where
  "getGlobalVariableSymbol m varName =
     (case mod_symbols m of
        None \<Rightarrow> None
      | Some regularSymbols \<Rightarrow> find (\<lambda>s. sy_name s = varName) (global_symbols m regularSymbols))"

definition InitialValue :: "section_map \<Rightarrow> go_error + bytes" where
  "InitialValue sm =
     (if sm_value_size sm = 0 then Inl Err_value_size
      else (case cgo_bpf_map__initial_value (sm_initial sm) (replicate (sm_value_size sm) 0) of
          None \<Rightarrow> Inl Err_memory
        | Some v \<Rightarrow> Inr v))"

text \<open>\<open>varValue\<close> is the encoding of the value by \<open>binary.Write\<close>.\<close>

definition InitGlobalVariable :: "module \<Rightarrow> string \<Rightarrow> bytes \<Rightarrow> go_error + module" where
  "InitGlobalVariable m name varValue =
     (if mod_loaded m then Inl Err_loaded
      else (case getGlobalVariableSymbol m name of
          None \<Rightarrow> Inl Err_symbol
        | Some s \<Rightarrow>
            (case mod_maps m (sy_section s) of
               None \<Rightarrow> Inl Err_map
             | Some sm \<Rightarrow>
                 (case InitialValue sm of
                    Inl e \<Rightarrow> Inl e
                  | Inr currMapValue \<Rightarrow>
                      (let newMapValue = pad_to (sm_value_size sm) currMapValue;
                           start = sy_offset s;
                           end' = sy_offset s + length varValue
                       in if length varValue > sy_size s \<or> end' > sm_value_size sm
                          then Inl Err_invalid_value
                          else if mod_set_rc m (sy_section s) < 0 then Inl Err_set
                          else Inr (m\<lparr>mod_maps := (mod_maps m)(sy_section s \<mapsto>
                            sm\<lparr>sm_initial := Some (overwrite start varValue newMapValue)\<rparr>)\<rparr>))))))"

section \<open>The loader\<close>

record disk_flags =
  nPid :: nat
  nPath :: string
  nProbability :: nat
  nExitCode :: nat

definition disk_flags_default :: disk_flags where
  "disk_flags_default = \<lparr>nPid = 0, nPath = ''/'', nProbability = 100, nExitCode = 1\<rparr>"

text \<open>The values in the order they are set; \<open>uint32(...)\<close> keeps the low 32 bits.\<close>

definition init_values :: "disk_flags \<Rightarrow> u32 \<Rightarrow> (string \<times> bytes) list" where
  "init_values f currentPid =
     [(''target_pid'', le_bytes 4 (of_nat (nPid f) :: u32)),
      (''filter_path'', ascii (nPath f)),
      (''exit_code'', le_bytes 4 (of_nat (nExitCode f) :: u32)),
      (''probability'', le_bytes 4 (of_nat (nProbability f) :: u32)),
      (''exclude_pid'', le_bytes 4 currentPid)]"

text \<open>\<open>must\<close> panics on the first error.\<close>

fun set_all :: "('s \<Rightarrow> string \<Rightarrow> bytes \<Rightarrow> 'e + 's) \<Rightarrow> (string \<times> bytes) list \<Rightarrow> 's \<Rightarrow> 'e + 's" where
  "set_all setv [] m = Inr m"
| "set_all setv ((n, v) # vs) m = (case setv m n v of Inl e \<Rightarrow> Inl e | Inr m \<Rightarrow> set_all setv vs m)"

definition initGlobalVariables :: "disk_flags \<Rightarrow> u32 \<Rightarrow> module \<Rightarrow> go_error + module" where
  "initGlobalVariables f currentPid m = set_all InitGlobalVariable (init_values f currentPid) m"

text \<open>\<open>printEvent\<close>: the decoded fields of an event; \<^term>\<open>None\<close> is a slice out of range.\<close>

definition TrimRightNul :: "bytes \<Rightarrow> bytes" where
  "TrimRightNul bs = rev (dropWhile (\<lambda>b. b = 0) (rev bs))"

definition printEvent :: "bytes \<Rightarrow> (u32 \<times> u32 \<times> u32 \<times> u32 \<times> bytes) option" where
  "printEvent dat =
     (if length dat < 16 then None
      else Some (le_word (slice 0 4 dat), le_word (slice 4 4 dat), le_word (slice 8 4 dat),
                 le_word (slice 12 4 dat), TrimRightNul (drop 16 dat)))"

section \<open>Numbers and strings of the Go library\<close>

definition digit :: "char \<Rightarrow> nat option" where
  "digit c = (if 48 \<le> (of_char c :: nat) \<and> (of_char c :: nat) \<le> 57 then Some (of_char c - 48) else None)"

text \<open>The value of a string of digits in a base.\<close>

fun parse_digits :: "nat \<Rightarrow> string \<Rightarrow> nat \<Rightarrow> nat option" where
  "parse_digits base [] acc = Some acc"
| "parse_digits base (c # cs) acc =
     (case digit c of
        None \<Rightarrow> None
      | Some d \<Rightarrow> if d < base then parse_digits base cs (acc * base + d) else None)"

text \<open>\<open>strconv.Atoi\<close>: an optional sign and decimal digits, within 64 bits.\<close>

definition Atoi :: "string \<Rightarrow> int option" where
  "Atoi s =
     (let (neg, ds) = (case s of c # cs \<Rightarrow>
            if c = CHR ''-'' then (True, cs) else if c = CHR ''+'' then (False, cs) else (False, s)
          | [] \<Rightarrow> (False, s))
      in if ds = [] then None
         else (case parse_digits 10 ds 0 of
             None \<Rightarrow> None
           | Some n \<Rightarrow> if neg then (if n \<le> 2 ^ 63 then Some (- int n) else None)
               else (if n < 2 ^ 63 then Some (int n) else None)))"

text \<open>
  \<open>strconv.ParseUint(s, 0, 64)\<close>, which the \<open>flag\<close> package uses, on strings without letters and
  underscores: a leading zero selects base 8.
\<close>

definition ParseUint0 :: "string \<Rightarrow> nat option" where
  "ParseUint0 s =
     (case s of
        [] \<Rightarrow> None
      | c # cs \<Rightarrow>
          (case (if c = CHR ''0'' then parse_digits 8 cs 0 else parse_digits 10 s 0) of
             None \<Rightarrow> None
           | Some n \<Rightarrow> if n < 2 ^ 64 then Some n else None))"

fun Itoa :: "nat \<Rightarrow> string" where
  "Itoa n = (if n < 10 then [char_of (48 + n)] else Itoa (n div 10) @ [char_of (48 + n mod 10)])"

declare Itoa.simps [simp del]

definition is_space :: "char \<Rightarrow> bool" where
  "is_space c \<longleftrightarrow> (of_char c :: nat) \<in> {9, 10, 11, 12, 13, 32}"

definition TrimSpace :: "string \<Rightarrow> string" where
  "TrimSpace s = rev (dropWhile is_space (rev (dropWhile is_space s)))"

definition TrimSuffixPercent :: "string \<Rightarrow> string" where
  "TrimSuffixPercent s = (if suffix ''%'' s then butlast s else s)"

section \<open>The resource\<close>

text \<open>\<open>OpenatSyscall\<close> is nil or carries the name of an exit code.\<close>

record DiskFailureSpec =
  Paths :: "string list"
  OpenatSyscall :: "string option"
  Probability :: string

definition MaxDiskPathCharacters :: nat where "MaxDiskPathCharacters = 62"

datatype disk_error = Path_empty | Path_too_long | No_percent | Not_int | Above_100 | Not_positive

fun validatePaths :: "string list \<Rightarrow> disk_error option" where
  "validatePaths [] = None"
| "validatePaths (p # ps) =
     (if TrimSpace p = [] then Some Path_empty
      else if length (TrimSpace p) > MaxDiskPathCharacters then Some Path_too_long
      else validatePaths ps)"

definition validateProbability :: "string \<Rightarrow> disk_error option" where
  "validateProbability s =
     (if s = [] then None
      else if \<not> suffix ''%'' s then Some No_percent
      else (case Atoi (TrimSuffixPercent s) of
          None \<Rightarrow> Some Not_int
        | Some n \<Rightarrow> if n > 100 then Some Above_100 else if n \<le> 0 then Some Not_positive else None))"

definition Validate :: "DiskFailureSpec \<Rightarrow> disk_error list" where
  "Validate s = (case validatePaths (Paths s) of None \<Rightarrow> [] | Some e \<Rightarrow> [e]) @
     (case validateProbability (Probability s) of None \<Rightarrow> [] | Some e \<Rightarrow> [e])"

definition GenerateArgs :: "DiskFailureSpec \<Rightarrow> string list" where
  "GenerateArgs s = [''disk-failure''] @ concat (map (\<lambda>p. [''--path'', TrimSpace p]) (Paths s)) @
     (case OpenatSyscall s of
        None \<Rightarrow> []
      | Some c \<Rightarrow> if c \<noteq> [] then [''--exit-code'', c] else []) @
     [''--probability'', if Probability s \<noteq> [] then Probability s else ''100%'']"

definition exit_codes :: "(string \<times> nat) list" where
  "exit_codes = [(''EACCES'', 13), (''EDQUOT'', 122), (''EEXIST'', 17), (''EFAULT'', 14), (''EFBIG'', 27),
     (''EINTR'', 4), (''EISDIR'', 21), (''ELOOP'', 40), (''EMFILE'', 24), (''ENAMETOOLONG'', 36),
     (''ENFILE'', 23), (''ENODEV'', 19), (''ENOENT'', 2), (''ENOMEM'', 12), (''ENOSPC'', 28),
     (''ENOTDIR'', 20), (''ENXIO'', 6), (''EOVERFLOW'', 75), (''EPERM'', 1), (''EROFS'', 30),
     (''ETXTBSY'', 26), (''EWOULDBLOCK'', 11)]"

definition GetExitCodeInt :: "string \<Rightarrow> nat" where
  "GetExitCodeInt c = (case map_of exit_codes c of Some n \<Rightarrow> n | None \<Rightarrow> 0)"

section \<open>The command and the injector\<close>

text \<open>
  The flags of the command: \<open>--path\<close> is collected, the others keep the last value. The command
  always sets \<open>OpenatSyscall\<close>.
\<close>

fun cmd_flags :: "string list \<Rightarrow> DiskFailureSpec \<Rightarrow> DiskFailureSpec option" where
  "cmd_flags [] s = Some s"
| "cmd_flags [x] s = None"
| "cmd_flags (x # v # rest) s =
     (if x = ''--path'' then cmd_flags rest (s\<lparr>Paths := Paths s @ [v]\<rparr>)
      else if x = ''--exit-code'' then cmd_flags rest (s\<lparr>OpenatSyscall := Some v\<rparr>)
      else if x = ''--probability'' then cmd_flags rest (s\<lparr>Probability := v\<rparr>)
      else None)"

definition diskFailureCmd :: "string list \<Rightarrow> DiskFailureSpec option" where
  "diskFailureCmd args =
     (case args of
        c # rest \<Rightarrow> if c = ''disk-failure''
          then cmd_flags rest \<lparr>Paths = [], OpenatSyscall = Some [], Probability = ''100%''\<rparr> else None
      | [] \<Rightarrow> None)"

text \<open>The arguments of one \<open>bpf-disk-failure\<close> process, from \<open>Inject\<close>.\<close>

definition inject_args :: "DiskFailureSpec \<Rightarrow> nat \<Rightarrow> string \<Rightarrow> string list" where
  "inject_args s pid path =
     (let exitCode = (case OpenatSyscall s of None \<Rightarrow> 0 | Some c \<Rightarrow> GetExitCodeInt c)
      in [''-process'', Itoa pid] @ (if path \<noteq> [] then [''-path'', path] else []) @
         (if exitCode \<noteq> 0 then [''-exit-code'', Itoa exitCode] else []) @
         [''-probability'', TrimSuffixPercent (Probability s)])"

datatype inject_error = No_ebpf | No_perf_event_array | Start_failed

text \<open>
  \<open>Inject\<close>: \<open>ebpf_ok\<close> and \<open>perf_ok\<close> are the answers of the config informer, \<open>start\<close> tells which
  command lines can be started; the result is the list of processes started, and the error if any.
\<close>

fun start_all :: "(string list \<Rightarrow> bool) \<Rightarrow> string list list \<Rightarrow> string list list \<times> inject_error option" where
  "start_all start [] = ([], None)"
| "start_all start (a # as) =
     (if start a then (case start_all start as of (st, e) \<Rightarrow> (a # st, e)) else ([], Some Start_failed))"

definition disk_Inject ::
  "bool \<Rightarrow> bool \<Rightarrow> bool \<Rightarrow> nat \<Rightarrow> (string list \<Rightarrow> bool) \<Rightarrow> DiskFailureSpec \<Rightarrow> string list list \<times> inject_error option" where
  "disk_Inject ebpf_ok perf_ok pod_level container_pid start s =
     (if \<not> ebpf_ok then ([], Some No_ebpf)
      else if \<not> perf_ok then ([], Some No_perf_event_array)
      else (let pid = (if pod_level then container_pid else 0)
        in start_all start (map (inject_args s pid) (Paths s))))"

text \<open>The \<open>flag\<close> package on the arguments of the loader: a value follows its flag.\<close>

fun parse_flags :: "string list \<Rightarrow> disk_flags \<Rightarrow> disk_flags option" where
  "parse_flags [] f = Some f"
| "parse_flags [x] f = None"
| "parse_flags (x # v # rest) f =
     (if x = ''-path'' then parse_flags rest (f\<lparr>nPath := v\<rparr>)
      else (case ParseUint0 v of
          None \<Rightarrow> None
        | Some n \<Rightarrow>
            if x = ''-process'' then parse_flags rest (f\<lparr>nPid := n\<rparr>)
            else if x = ''-exit-code'' then parse_flags rest (f\<lparr>nExitCode := n\<rparr>)
            else if x = ''-probability'' then parse_flags rest (f\<lparr>nProbability := n\<rparr>)
            else None))"

section \<open>The contract of global variables\<close>

locale global_vars =
  fixes ok :: "'s \<Rightarrow> bool" and setv :: "'s \<Rightarrow> string \<Rightarrow> bytes \<Rightarrow> 'e + 's"
    and getv :: "'s \<Rightarrow> string \<Rightarrow> bytes" and size_of :: "string \<Rightarrow> nat" and names :: "string set"
  assumes set_ok: "ok m \<Longrightarrow> n \<in> names \<Longrightarrow> length v \<le> size_of n \<Longrightarrow>
      \<exists>m'. setv m n v = Inr m' \<and> ok m' \<and> getv m' n = v @ drop (length v) (getv m n) \<and>
        (\<forall>n' \<in> names - {n}. getv m' n' = getv m n')"
    and set_long: "ok m \<Longrightarrow> n \<in> names \<Longrightarrow> size_of n < length v \<Longrightarrow> \<exists>e. setv m n v = Inl e"
begin

lemma set_all_ok:
  assumes "ok m" and "distinct (map fst vs)" and "set (map fst vs) \<subseteq> names"
    and "\<forall>(n, v) \<in> set vs. length v \<le> size_of n"
  shows "\<exists>m'. set_all setv vs m = Inr m' \<and> ok m' \<and>
    (\<forall>(n, v) \<in> set vs. getv m' n = v @ drop (length v) (getv m n)) \<and>
    (\<forall>n \<in> names - set (map fst vs). getv m' n = getv m n)"
  using assms
proof (induction vs arbitrary: m)
  case (Cons nv vs)
  obtain n v where nv: "nv = (n, v)" by fastforce
  obtain m1 where m1: "setv m n v = Inr m1" "ok m1" "getv m1 n = v @ drop (length v) (getv m n)"
    "\<forall>n' \<in> names - {n}. getv m1 n' = getv m n'"
    using set_ok [of m n v] Cons.prems nv by auto
  obtain m2 where m2: "set_all setv vs m1 = Inr m2" "ok m2"
    "\<forall>(n, v) \<in> set vs. getv m2 n = v @ drop (length v) (getv m1 n)"
    "\<forall>n \<in> names - set (map fst vs). getv m2 n = getv m1 n"
    using Cons.IH [OF m1(2)] Cons.prems nv by auto
  have n: "n \<in> names - set (map fst vs)" using Cons.prems nv by auto
  have "getv m2 a = b @ drop (length b) (getv m a)" if "(a, b) \<in> set vs" for a b
  proof -
    have "a \<in> names - {n}" using that Cons.prems nv by force
    then show ?thesis using m2(3) m1(4) that by auto
  qed
  with m1 m2 n show ?case by (auto simp: nv)
qed simp

lemma set_all_long:
  assumes "ok m" and "set (map fst vs) \<subseteq> names" and "(n, v) \<in> set vs" and "size_of n < length v"
  shows "\<exists>e. set_all setv vs m = Inl e"
  using assms
proof (induction vs arbitrary: m)
  case (Cons nv vs)
  obtain a b where nv: "nv = (a, b)" by fastforce
  show ?case
  proof (cases "length b \<le> size_of a")
    case True
    then obtain m1 where "setv m a b = Inr m1" "ok m1" using set_ok [of m a b] Cons.prems nv by auto
    moreover have "(n, v) \<in> set vs" using True Cons.prems nv by auto
    ultimately show ?thesis using Cons nv by auto
  next
    case False
    then show ?thesis using set_long [of m a b] Cons.prems nv by auto
  qed
qed simp

end

text \<open>The variables of the disk failure object, as the compiler lays them out in \<open>.rodata\<close>.\<close>

definition disk_vars :: "(string \<times> nat) list" where
  "disk_vars = [(''target_pid'', 4), (''exclude_pid'', 4), (''filter_path'', FILTER_PATH_SIZE),
     (''exit_code'', 4), (''probability'', 4)]"

definition disk_var_size :: "string \<Rightarrow> nat" where
  "disk_var_size n = (case map_of disk_vars n of Some k \<Rightarrow> k | None \<Rightarrow> 0)"

definition var_offset :: "module \<Rightarrow> string \<Rightarrow> nat" where
  "var_offset m n = (case getGlobalVariableSymbol m n of Some s \<Rightarrow> sy_offset s | None \<Rightarrow> 0)"

definition rodata_bytes :: "module \<Rightarrow> bytes" where
  "rodata_bytes m =
     (case mod_maps m ''.rodata'' of
        Some sm \<Rightarrow> (case sm_initial sm of Some v \<Rightarrow> v | None \<Rightarrow> []) | None \<Rightarrow> [])"

definition var_bytes :: "module \<Rightarrow> string \<Rightarrow> bytes" where
  "var_bytes m n = slice (var_offset m n) (disk_var_size n) (rodata_bytes m)"

definition module_ok :: "module \<Rightarrow> bool" where
  "module_ok m \<longleftrightarrow> \<not> mod_loaded m \<and> 0 \<le> mod_set_rc m ''.rodata'' \<and> rodata_bytes m \<noteq> [] \<and>
     mod_maps m ''.rodata'' =
       Some \<lparr>sm_value_size = length (rodata_bytes m), sm_initial = Some (rodata_bytes m)\<rparr> \<and>
     (\<forall>n \<in> set (map fst disk_vars).
        getGlobalVariableSymbol m n = Some \<lparr>sy_name = n, sy_size = disk_var_size n,
          sy_offset = var_offset m n, sy_section = ''.rodata''\<rparr> \<and>
        var_offset m n + disk_var_size n \<le> length (rodata_bytes m)) \<and>
     (\<forall>n \<in> set (map fst disk_vars). \<forall>n' \<in> set (map fst disk_vars). n \<noteq> n' \<longrightarrow>
        var_offset m n + disk_var_size n \<le> var_offset m n' \<or>
        var_offset m n' + disk_var_size n' \<le> var_offset m n)"

definition with_rodata :: "module \<Rightarrow> bytes \<Rightarrow> module" where
  "with_rodata m bs = m\<lparr>mod_maps := (mod_maps m)(''.rodata'' \<mapsto>
     \<lparr>sm_value_size = length bs, sm_initial = Some bs\<rparr>)\<rparr>"

lemma global_symbols_with_rodata:
  "global_symbols (with_rodata m bs) = global_symbols m" "mod_symbols (with_rodata m bs) = mod_symbols m"
proof -
  have "mod_sections (with_rodata m bs) = mod_sections m" by (simp add: with_rodata_def)
  then show "global_symbols (with_rodata m bs) = global_symbols m"
    unfolding global_symbols_def by (intro ext) (simp only:)
qed (simp add: with_rodata_def)

lemma with_rodata_simps [simp]:
  "rodata_bytes (with_rodata m bs) = bs"
  "getGlobalVariableSymbol (with_rodata m bs) n = getGlobalVariableSymbol m n"
  "var_offset (with_rodata m bs) n = var_offset m n"
  by (simp_all add: rodata_bytes_def getGlobalVariableSymbol_def global_symbols_with_rodata
      var_offset_def cong: option.case_cong) (simp add: with_rodata_def)

lemma module_ok_with_rodata:
  "module_ok m \<Longrightarrow> length bs = length (rodata_bytes m) \<Longrightarrow> module_ok (with_rodata m bs)"
  unfolding module_ok_def with_rodata_simps by (auto simp: with_rodata_def)

lemma InitGlobalVariable_eq:
  assumes "module_ok m" and "n \<in> set (map fst disk_vars)"
  shows "InitGlobalVariable m n v =
    (if disk_var_size n < length v then Inl Err_invalid_value
     else Inr (with_rodata m (overwrite (var_offset m n) v (rodata_bytes m))))"
proof -
  let ?bs = "rodata_bytes m"
  have s: "getGlobalVariableSymbol m n = Some \<lparr>sy_name = n, sy_size = disk_var_size n,
        sy_offset = var_offset m n, sy_section = ''.rodata''\<rparr>"
    and b: "var_offset m n + disk_var_size n \<le> length ?bs"
    and mm: "mod_maps m ''.rodata'' = Some \<lparr>sm_value_size = length ?bs, sm_initial = Some ?bs\<rparr>"
    and l: "\<not> mod_loaded m" "?bs \<noteq> []" "\<not> mod_set_rc m ''.rodata'' < 0"
    using assms by (auto simp: module_ok_def)
  have i: "InitialValue \<lparr>sm_value_size = length ?bs, sm_initial = Some ?bs\<rparr> = Inr ?bs"
    using l(2) by (simp add: InitialValue_def cgo_bpf_map__initial_value_def overwrite_def)
  show ?thesis
  proof (cases "disk_var_size n < length v")
    case True
    then show ?thesis by (simp add: InitGlobalVariable_def l s mm i)
  next
    case False
    then have "var_offset m n + length v \<le> length ?bs" using b by simp
    with False show ?thesis
      by (simp add: InitGlobalVariable_def l s mm i pad_to_id with_rodata_def Let_def)
  qed
qed

interpretation disk_vars: global_vars module_ok InitGlobalVariable var_bytes disk_var_size
  "set (map fst disk_vars)"
proof
  fix m n and v :: bytes
  assume m: "module_ok m" and n: "n \<in> set (map fst disk_vars)" and v: "length v \<le> disk_var_size n"
  let ?bs = "rodata_bytes m" and ?o = "var_offset m n"
  let ?m = "with_rodata m (overwrite ?o v ?bs)"
  have b: "?o + disk_var_size n \<le> length ?bs" using m n by (auto simp: module_ok_def)
  have "module_ok ?m" using b v by (intro module_ok_with_rodata m) simp
  moreover have "slice ?o (disk_var_size n) (overwrite ?o v ?bs) = v @ drop (length v) (slice ?o (disk_var_size n) ?bs)"
    using b v by (simp add: slice_def overwrite_def drop_take add.commute)
  moreover have "slice (var_offset m n') (disk_var_size n') (overwrite ?o v ?bs) =
      slice (var_offset m n') (disk_var_size n') ?bs" if "n' \<in> set (map fst disk_vars) - {n}" for n'
  proof (rule slice_overwrite_other)
    have n': "n' \<in> set (map fst disk_vars)" "n' \<noteq> n" using that by auto
    show "?o + length v \<le> length ?bs" using b v by simp
    show "var_offset m n' + disk_var_size n' \<le> length ?bs" using m n' by (auto simp: module_ok_def)
    have "var_offset m n' + disk_var_size n' \<le> ?o \<or> ?o + disk_var_size n \<le> var_offset m n'"
      using m n n' unfolding module_ok_def by blast
    then show "var_offset m n' + disk_var_size n' \<le> ?o \<or> ?o + length v \<le> var_offset m n'"
      using v by auto
  qed
  ultimately show "\<exists>m'. InitGlobalVariable m n v = Inr m' \<and> module_ok m' \<and>
      var_bytes m' n = v @ drop (length v) (var_bytes m n) \<and>
      (\<forall>n' \<in> set (map fst disk_vars) - {n}. var_bytes m' n' = var_bytes m n')"
    using v by (intro exI [of _ ?m]) (simp add: InitGlobalVariable_eq [OF m n] var_bytes_def)
qed (auto simp: InitGlobalVariable_eq)

section \<open>Decimal numbers\<close>

lemma parse_digits_append:
  "parse_digits b (xs @ ys) acc = (case parse_digits b xs acc of None \<Rightarrow> None | Some a \<Rightarrow> parse_digits b ys a)"
  by (induction xs arbitrary: acc) (auto split: option.splits)

lemma digit_char_of: "d < 10 \<Longrightarrow> digit (char_of (48 + d)) = Some d"
  by (simp add: digit_def)

lemma parse_Itoa: "parse_digits 10 (Itoa n) 0 = Some n"
proof (induction n rule: Itoa.induct)
  case (1 n)
  then show ?case
    by (subst Itoa.simps) (auto simp: parse_digits_append digit_char_of)
qed

lemma Itoa_hd: "Itoa n \<noteq> [] \<and> (hd (Itoa n) = CHR ''0'' \<longrightarrow> n = 0)"
proof (induction n rule: Itoa.induct)
  case (1 n)
  have z: "d = 0" if "char_of (48 + d) = CHR ''0''" "d < 10" for d :: nat
  proof -
    have "(48 + d) mod 256 = of_char (char_of (48 + d) :: char)" by simp
    also have "\<dots> = 48" unfolding that(1) by simp
    finally show ?thesis using that(2) by simp
  qed
  show ?case
    by (subst (1 2) Itoa.simps) (use 1 z [of n] in \<open>auto simp: hd_append\<close>)
qed

lemma ParseUint0_Itoa: "n < 2 ^ 64 \<Longrightarrow> ParseUint0 (Itoa n) = Some n"
proof -
  assume n: "n < 2 ^ 64"
  obtain c cs where c: "Itoa n = c # cs" using Itoa_hd [of n] by (cases "Itoa n") auto
  show ?thesis
  proof (cases "c = CHR ''0''")
    case True
    then have "n = 0" using Itoa_hd [of n] c by simp
    then show ?thesis using True c by (simp add: ParseUint0_def Itoa.simps)
  next
    case False
    then show ?thesis
      using n parse_Itoa [of n] unfolding ParseUint0_def c by simp
  qed
qed

lemma Atoi_Itoa: "n < 2 ^ 63 \<Longrightarrow> Atoi (Itoa n) = Some (int n)"
proof -
  assume n: "n < 2 ^ 63"
  obtain c cs where c: "Itoa n = c # cs" using Itoa_hd [of n] by (cases "Itoa n") auto
  have p: "parse_digits 10 (c # cs) 0 = Some n" using parse_Itoa [of n] c by simp
  then have "digit c \<noteq> None" by (auto split: option.splits)
  then have "c \<noteq> CHR ''-''" "c \<noteq> CHR ''+''" by (auto simp: digit_def)
  then show ?thesis using n p unfolding Atoi_def c by simp
qed

lemma TrimSuffixPercent_append [simp]: "TrimSuffixPercent (s @ ''%'') = s"
  by (simp add: TrimSuffixPercent_def)

section \<open>The configuration the loader leaves\<close>

definition rodata_of :: "module \<Rightarrow> rodata" where
  "rodata_of m =
     \<lparr>target_pid = le_word (var_bytes m ''target_pid''), exclude_pid = le_word (var_bytes m ''exclude_pid''),
      filter_path = var_bytes m ''filter_path'', exit_code = le_word (var_bytes m ''exit_code''),
      probability = le_word (var_bytes m ''probability'')\<rparr>"

lemma disk_var_size_simps [simp]:
  "disk_var_size ''target_pid'' = 4" "disk_var_size ''exclude_pid'' = 4" "disk_var_size ''filter_path'' = 61"
  "disk_var_size ''exit_code'' = 4" "disk_var_size ''probability'' = 4"
  by (simp_all add: disk_var_size_def disk_vars_def FILTER_PATH_SIZE_def)

lemma init_values_names: "set (map fst (init_values f p)) \<subseteq> set (map fst disk_vars)"
  by (simp add: init_values_def disk_vars_def)

lemma length_var_bytes: "module_ok m \<Longrightarrow> n \<in> set (map fst disk_vars) \<Longrightarrow> length (var_bytes m n) = disk_var_size n"
  unfolding var_bytes_def module_ok_def by (blast intro: length_slice)

lemma initGlobalVariables_ok:
  assumes "module_ok m" and "var_bytes m ''filter_path'' = replicate 61 0" and "length (nPath f) \<le> 61"
  shows "\<exists>m'. initGlobalVariables f pid m = Inr m' \<and> module_ok m' \<and>
    rodata_of m' = \<lparr>target_pid = of_nat (nPid f), exclude_pid = pid, filter_path = pad_to 61 (ascii (nPath f)),
      exit_code = of_nat (nExitCode f), probability = of_nat (nProbability f)\<rparr>"
proof -
  have "distinct (map fst (init_values f pid))" by (simp add: init_values_def)
  moreover have "\<forall>(n, v) \<in> set (init_values f pid). length v \<le> disk_var_size n"
    using assms(3) by (simp add: init_values_def)
  ultimately obtain m' where m': "initGlobalVariables f pid m = Inr m'" "module_ok m'"
    "\<forall>(n, v) \<in> set (init_values f pid). var_bytes m' n = v @ drop (length v) (var_bytes m n)"
    using disk_vars.set_all_ok [OF assms(1) _ init_values_names] unfolding initGlobalVariables_def by blast
  have l: "length (var_bytes m ''target_pid'') = 4" "length (var_bytes m ''exclude_pid'') = 4"
    "length (var_bytes m ''exit_code'') = 4" "length (var_bytes m ''probability'') = 4"
    by (simp_all add: length_var_bytes [OF assms(1)] disk_vars_def)
  have "var_bytes m' ''target_pid'' = le_bytes 4 (of_nat (nPid f) :: u32)"
    "var_bytes m' ''exclude_pid'' = le_bytes 4 pid"
    "var_bytes m' ''exit_code'' = le_bytes 4 (of_nat (nExitCode f) :: u32)"
    "var_bytes m' ''probability'' = le_bytes 4 (of_nat (nProbability f) :: u32)"
    "var_bytes m' ''filter_path'' = pad_to 61 (ascii (nPath f))"
    using m'(3) l assms(2,3) by (simp_all add: init_values_def pad_to_short)
  then show ?thesis
    using m'(1,2) by (intro exI [of _ m']) (simp add: rodata_of_def le_word_le_bytes)
qed

lemma initGlobalVariables_long:
  assumes "module_ok m" and "61 < length (nPath f)"
  shows "\<exists>e. initGlobalVariables f pid m = Inl e"
  unfolding initGlobalVariables_def
  by (rule disk_vars.set_all_long [OF assms(1) init_values_names, of "''filter_path''" "ascii (nPath f)"])
    (use assms(2) in \<open>simp_all add: init_values_def\<close>)

lemma parse_inject_args:
  assumes "ParseUint0 (TrimSuffixPercent (Probability s)) = Some q" and "path \<noteq> []" and "pid < 2 ^ 64"
  shows "parse_flags (inject_args s pid path) disk_flags_default =
    Some \<lparr>nPid = pid, nPath = path, nProbability = q,
      nExitCode = (case OpenatSyscall s of None \<Rightarrow> 1
        | Some c \<Rightarrow> if GetExitCodeInt c = 0 then 1 else GetExitCodeInt c)\<rparr>"
proof -
  have "GetExitCodeInt c < 2 ^ 64" for c
    by (auto simp: GetExitCodeInt_def exit_codes_def split: option.splits)
  then show ?thesis
    using assms
    by (auto simp: inject_args_def disk_flags_default_def ParseUint0_Itoa Let_def split: option.splits)
qed

lemma cmd_flags_paths:
  "cmd_flags (concat (map (\<lambda>p. [''--path'', g p]) ps) @ rest) s =
     cmd_flags rest (s\<lparr>Paths := Paths s @ map g ps\<rparr>)"
  by (induction ps arbitrary: s) auto

lemma start_all_eq:
  "start_all start as = (takeWhile start as, if \<forall>a \<in> set as. start a then None else Some Start_failed)"
  by (induction as) auto

section \<open>A concrete object file\<close>

definition sample_module :: module where
  "sample_module = \<lparr>mod_loaded = False,
     mod_symbols = Some [\<lparr>es_name = ''target_pid'', es_size = 4, es_value = 0, es_section = 1\<rparr>,
       \<lparr>es_name = ''exclude_pid'', es_size = 4, es_value = 4, es_section = 1\<rparr>,
       \<lparr>es_name = ''filter_path'', es_size = 61, es_value = 8, es_section = 1\<rparr>,
       \<lparr>es_name = ''exit_code'', es_size = 4, es_value = 72, es_section = 1\<rparr>,
       \<lparr>es_name = ''probability'', es_size = 4, es_value = 76, es_section = 1\<rparr>],
     mod_sections = [''.text'', ''.rodata''],
     mod_maps = [''.rodata'' \<mapsto> \<lparr>sm_value_size = 80, sm_initial = Some (replicate 80 0)\<rparr>],
     mod_set_rc = (\<lambda>s. 0)\<rparr>"

lemma sample_module_ok: "module_ok sample_module" "var_bytes sample_module ''filter_path'' = replicate 61 0"
proof -
  have o: "var_offset sample_module ''target_pid'' = 0" "var_offset sample_module ''exclude_pid'' = 4"
    "var_offset sample_module ''filter_path'' = 8" "var_offset sample_module ''exit_code'' = 72"
    "var_offset sample_module ''probability'' = 76"
    by (simp_all add: var_offset_def getGlobalVariableSymbol_def global_symbols_def sample_module_def
        isGlobalVariableSection_def)
  have r: "rodata_bytes sample_module = replicate 80 0"
    by (simp add: rodata_bytes_def sample_module_def)
  show "module_ok sample_module"
    by (simp add: module_ok_def o r disk_vars_def)
      (simp add: getGlobalVariableSymbol_def global_symbols_def sample_module_def isGlobalVariableSection_def)
  show "var_bytes sample_module ''filter_path'' = replicate 61 0"
    by (simp add: var_bytes_def o r slice_def)
qed

section \<open>Properties\<close>

text \<open>
  C14: the loader configures the program. On an unloaded object whose five variables lie apart in
  \<open>.rodata\<close> and a path of at most 61 bytes, \<open>initGlobalVariables\<close> succeeds, and the variables then
  hold the process id, the path padded with NULs, the exit code and the probability of the flags (cut
  to 32 bits) and the loader's own process id.
\<close>

theorem loader_configures_rodata:
  assumes "module_ok m" and "var_bytes m ''filter_path'' = replicate 61 0" and "length (nPath f) \<le> 61"
  shows "\<exists>m'. initGlobalVariables f pid m = Inr m' \<and>
    rodata_of m' = \<lparr>target_pid = of_nat (nPid f), exclude_pid = pid, filter_path = pad_to 61 (ascii (nPath f)),
      exit_code = of_nat (nExitCode f), probability = of_nat (nProbability f)\<rparr>"
  using initGlobalVariables_ok [OF assms] by blast

theorem loader_configures_rodata_witness:
  "\<exists>m'. initGlobalVariables disk_flags_default 7 sample_module = Inr m' \<and>
    rodata_of m' = \<lparr>target_pid = 0, exclude_pid = 7, filter_path = pad_to 61 (ascii ''/''),
      exit_code = 1, probability = 100\<rparr>"
  using loader_configures_rodata [OF sample_module_ok, of disk_flags_default 7]
  by (simp add: disk_flags_default_def)

text \<open>
  A path of 62 characters passes the validation of the resource and then makes the loader panic:
  \<open>filter_path\<close> has 61 bytes, and \<open>InitGlobalVariable\<close> refuses a longer value.
\<close>

theorem path_62_validated_but_refused:
  assumes "module_ok m" and "length p = 62" and "\<not> is_space (hd p)" and "\<not> is_space (last p)"
  shows "validatePaths [p] = None \<and> (\<exists>e. initGlobalVariables (f\<lparr>nPath := p\<rparr>) pid m = Inl e)"
proof
  have "p \<noteq> []" using assms(2) by auto
  have "dropWhile is_space p = p" using \<open>p \<noteq> []\<close> assms(3) by (cases p) auto
  moreover have "dropWhile is_space (rev p) = rev p"
    using \<open>p \<noteq> []\<close> assms(4) by (cases p rule: rev_cases) auto
  ultimately have "TrimSpace p = p" by (simp add: TrimSpace_def)
  then show "validatePaths [p] = None"
    using assms(2) \<open>p \<noteq> []\<close> by (simp add: MaxDiskPathCharacters_def)
  show "\<exists>e. initGlobalVariables (f\<lparr>nPath := p\<rparr>) pid m = Inl e"
    using assms(1,2) by (intro initGlobalVariables_long) simp_all
qed

theorem path_62_validated_but_refused_witness:
  "\<exists>e. initGlobalVariables (disk_flags_default\<lparr>nPath := replicate 62 (CHR ''a'')\<rparr>) 7 sample_module = Inl e"
  using path_62_validated_but_refused [OF sample_module_ok(1), of "replicate 62 (CHR ''a'')" disk_flags_default 7]
  by (simp add: is_space_def)

text \<open>
  C35: an event survives the way to user space: \<open>printEvent\<close> decodes from the 100 bytes the program
  sends the parent's process id, the thread id, the process id and the user id, in this order, and the
  name of the command. (The log line labels the second to fourth as Pid, Tid and Gid.)
\<close>

theorem event_roundtrip:
  assumes "current_comm K 100 = pad_to 100 comm" and "length comm \<le> 15" and "0 \<notin> set comm"
  shows "\<exists>dat rc. emit G K ppid = [Perf_output dat, rc] \<and> length dat = 100 \<and>
    printEvent dat = Some (ppid, the_pid K, the_tgid K, ucast (current_uid_gid K), comm)"
proof -
  define hd' where "hd' = le_bytes 4 ppid @ le_bytes 4 (the_pid K) @ le_bytes 4 (the_tgid K) @
    le_bytes 4 (ucast (current_uid_gid K) :: u32)"
  define dat where "dat = hd' @ comm @ replicate (84 - length comm) 0"
  have e: "\<exists>rc. emit G K ppid = [Perf_output dat, rc]"
    using assms(1,2)
    by (simp add: emit_def Let_def data_bytes_def dat_def hd'_def the_pid_def the_tgid_def pad_to_short)
  have "TrimRightNul (comm @ replicate (84 - length comm) 0) = comm"
  proof -
    have "dropWhile (\<lambda>b. b = 0) (replicate k 0 @ ys) = dropWhile (\<lambda>b. b = 0) ys" for k and ys :: bytes
      by (induction k) auto
    moreover have "dropWhile (\<lambda>b. b = 0) (rev comm) = rev comm"
      using assms(3) by (cases comm rule: rev_cases) auto
    ultimately show ?thesis by (simp add: TrimRightNul_def)
  qed
  moreover have "length dat = 100" "drop 16 dat = comm @ replicate (84 - length comm) 0"
    using assms(2) by (simp_all add: dat_def hd'_def)
  moreover have "slice 0 4 dat = le_bytes 4 ppid" "slice 4 4 dat = le_bytes 4 (the_pid K)"
    "slice 8 4 dat = le_bytes 4 (the_tgid K)" "slice 12 4 dat = le_bytes 4 (ucast (current_uid_gid K) :: u32)"
    by (simp_all add: slice_def dat_def hd'_def)
  ultimately have "length dat = 100 \<and>
      printEvent dat = Some (ppid, the_pid K, the_tgid K, ucast (current_uid_gid K), comm)"
    by (simp add: printEvent_def le_word_le_bytes)
  with e show ?thesis by blast
qed

theorem event_roundtrip_witness:
  "\<exists>dat rc. emit sample_rodata sample_call 1 = [Perf_output dat, rc] \<and>
    printEvent dat = Some (1, 42, 42, 0, ascii ''cat'')"
proof -
  have "current_comm sample_call 100 = pad_to 100 (ascii ''cat'')" "current_uid_gid sample_call = 0"
    by (simp_all add: sample_call_def sample_env_def)
  then show ?thesis
    using event_roundtrip [of sample_call "ascii ''cat''" sample_rodata 1] by (auto simp: sample_call_pids)
qed

text \<open>
  Without an exit code in the resource the injector passes none, and the loader's default is 1:
  the calls fail with \<open>EPERM\<close>, while the explanation of the resource and its documentation
  announce \<open>ENOENT\<close>.
\<close>

theorem default_exit_code_is_EPERM:
  assumes "OpenatSyscall s = None \<or> OpenatSyscall s = Some []"
    and "ParseUint0 (TrimSuffixPercent (Probability s)) = Some q" and "path \<noteq> []" and "pid < 2 ^ 64"
  shows "\<exists>f. parse_flags (inject_args s pid path) disk_flags_default = Some f \<and>
    nExitCode f = GetExitCodeInt ''EPERM'' \<and> nExitCode f \<noteq> GetExitCodeInt ''ENOENT''"
  using parse_inject_args [OF assms(2-4)] assms(1)
  by (auto simp: GetExitCodeInt_def exit_codes_def)

theorem default_exit_code_is_EPERM_witness:
  "\<exists>f. parse_flags (inject_args \<lparr>Paths = [''/''], OpenatSyscall = None, Probability = ''50%''\<rparr> 42 ''/'')
     disk_flags_default = Some f \<and> nExitCode f = 1"
proof -
  have "ParseUint0 (TrimSuffixPercent ''50%'') = Some 50"
    by (simp add: ParseUint0_def TrimSuffixPercent_def digit_def suffix_to_prefix)
  then show ?thesis
    using default_exit_code_is_EPERM [of "\<lparr>Paths = [''/''], OpenatSyscall = None, Probability = ''50%''\<rparr>" 50 "''/''" 42]
    by (auto simp: GetExitCodeInt_def exit_codes_def)
qed

text \<open>
  A probability of 1 to 100 percent written without a leading zero is accepted and reaches the
  loader unchanged; every other whole number is refused.
\<close>

theorem probability_canonical:
  assumes "n < 2 ^ 63"
  shows "(validateProbability (Itoa n @ ''%'') = None \<longleftrightarrow> 1 \<le> n \<and> n \<le> 100) \<and>
    ParseUint0 (TrimSuffixPercent (Itoa n @ ''%'')) = Some n"
  using assms by (auto simp: validateProbability_def Atoi_Itoa ParseUint0_Itoa)

theorem probability_canonical_witness:
  "validateProbability (Itoa 80 @ ''%'') = None \<and> ParseUint0 (TrimSuffixPercent (Itoa 80 @ ''%'')) = Some 80"
  using probability_canonical [of 80] by simp

text \<open>
  With a leading zero the validation and the loader disagree: \<open>Atoi\<close> reads decimal, the flag
  package octal. \<open>010%\<close> is validated as 10 and applied as 8, and \<open>08%\<close> is validated and then
  refused by the loader.
\<close>

theorem probability_leading_zero:
  "validateProbability ''010%'' = None \<and> Atoi (TrimSuffixPercent ''010%'') = Some 10 \<and>
   ParseUint0 (TrimSuffixPercent ''010%'') = Some 8 \<and>
   validateProbability ''08%'' = None \<and> ParseUint0 (TrimSuffixPercent ''08%'') = None"
  by (simp add: validateProbability_def Atoi_def ParseUint0_def TrimSuffixPercent_def digit_def
      suffix_to_prefix)

text \<open>
  The resource survives the command line of the injector pod: the command parses the generated
  arguments back to the trimmed paths, the exit code (empty when absent) and the probability
  (\<open>100%\<close> when absent).
\<close>

lemma diskFailureCmd_GenerateArgs:
  "diskFailureCmd (GenerateArgs s) = Some \<lparr>Paths = map TrimSpace (Paths s),
     OpenatSyscall = Some (case OpenatSyscall s of None \<Rightarrow> [] | Some c \<Rightarrow> c),
     Probability = (if Probability s = [] then ''100%'' else Probability s)\<rparr>"
  by (cases "OpenatSyscall s") (auto simp: diskFailureCmd_def GenerateArgs_def cmd_flags_paths)

text \<open>
  \<open>Inject\<close> starts one process per path, in order, and reports no error exactly when the kernel
  offers eBPF and perf event arrays and every process starts; otherwise the processes started are those
  before the first failure.
\<close>

lemma Inject_one_process_per_path:
  "disk_Inject ebpf_ok perf_ok pod_level cpid start s =
    (if ebpf_ok \<and> perf_ok
     then takeWhile start (map (inject_args s (if pod_level then cpid else 0)) (Paths s)) else [],
     if \<not> ebpf_ok then Some No_ebpf else if \<not> perf_ok then Some No_perf_event_array
     else if list_all (\<lambda>p. start (inject_args s (if pod_level then cpid else 0) p)) (Paths s)
     then None else Some Start_failed)"
  by (simp add: disk_Inject_def start_all_eq list_all_iff)

end
