(* ===== verification/Ebpf_Config.thy ===== *)
theory Ebpf_Config
  imports Disk_Driver
begin

text \<open>
  \<open>src/ebpf/validator.go\<close>: the check that the running kernel offers what the eBPF programs need. The
  features bpftool reports are the record \<open>features\<close> (a kernel parameter by name, empty when absent);
  \<open>uname\<close> and \<open>stat\<close> are arguments.
\<close>

record features =
  system_config :: "string \<Rightarrow> string"
  HavePerfEventArrayMapType :: bool

definition Enabled :: "string \<Rightarrow> bool" where
  "Enabled kp \<longleftrightarrow> kp = ''y''"

definition GetRequiredSystemConfig :: "features \<Rightarrow> (string \<times> bool) list" where
  "GetRequiredSystemConfig f = map (\<lambda>p. (p, Enabled (system_config f p)))
     [''CONFIG_BPF'', ''CONFIG_BPF_SYSCALL'', ''CONFIG_BPF_JIT'', ''CONFIG_HAVE_EBPF_JIT'',
      ''CONFIG_BPF_KPROBE_OVERRIDE'', ''CONFIG_NET_CLS_ACT'']"

text \<open>\<open>bytes.Trim(release, "\x00")\<close> and \<open>strings.TrimSpace\<close>.\<close>

definition trim_release :: "string \<Rightarrow> string" where
  "trim_release r = TrimSpace (rev (dropWhile (\<lambda>c. c = CHR 0x00) (rev (dropWhile (\<lambda>c. c = CHR 0x00) r))))"

definition IsKernelConfigAvailable :: "string option \<Rightarrow> (string \<Rightarrow> bool) \<Rightarrow> bool" where
  "IsKernelConfigAvailable uname stat =
     (case uname of
        None \<Rightarrow> False
      | Some release \<Rightarrow>
          if \<not> stat (''/boot/config-'' @ trim_release release)
          then (if \<not> stat ''/proc/config.gz'' then False else True) else True)"

datatype config_error = Config_not_found | Param_required string

text \<open>The errors in the order of the list (a Go map is ranged over in no fixed order).\<close>

definition ValidateRequiredSystemConfig ::
  "string option \<Rightarrow> (string \<Rightarrow> bool) \<Rightarrow> features \<Rightarrow> config_error list" where
  "ValidateRequiredSystemConfig uname stat f =
     (if \<not> IsKernelConfigAvailable uname stat then [Config_not_found]
      else map (\<lambda>(p, e). Param_required p) (filter (\<lambda>(p, e). \<not> e) (GetRequiredSystemConfig f)))"

section \<open>Properties\<close>

text \<open>
  C36: the injector of the disk failure starts its processes only on a kernel whose configuration file
  is found (for the running release in \<open>/boot\<close>, or in \<open>/proc\<close>), that has the six options the programs
  need set to \<open>y\<close>, and that knows perf event arrays; on any other kernel it starts nothing and
  returns an error.
\<close>

theorem disk_Inject_requires_kernel:
  "let (started, err) = disk_Inject (ValidateRequiredSystemConfig uname stat f = [])
         (HavePerfEventArrayMapType f) pod_level cpid start s
   in if (case uname of None \<Rightarrow> False
          | Some r \<Rightarrow> stat (''/boot/config-'' @ trim_release r) \<or> stat ''/proc/config.gz'') \<and>
        list_all (\<lambda>p. system_config f p = ''y'')
          [''CONFIG_BPF'', ''CONFIG_BPF_SYSCALL'', ''CONFIG_BPF_JIT'', ''CONFIG_HAVE_EBPF_JIT'',
           ''CONFIG_BPF_KPROBE_OVERRIDE'', ''CONFIG_NET_CLS_ACT''] \<and> HavePerfEventArrayMapType f
      then started = takeWhile start (map (inject_args s (if pod_level then cpid else 0)) (Paths s)) \<and>
           (err = None \<longleftrightarrow> started = map (inject_args s (if pod_level then cpid else 0)) (Paths s))
      else started = [] \<and> err \<noteq> None"
proof -
  let ?as = "map (inject_args s (if pod_level then cpid else 0)) (Paths s)"
  let ?av = "case uname of None \<Rightarrow> False
     | Some r \<Rightarrow> stat (''/boot/config-'' @ trim_release r) \<or> stat ''/proc/config.gz''"
  let ?six = "list_all (\<lambda>p. system_config f p = ''y'')
     [''CONFIG_BPF'', ''CONFIG_BPF_SYSCALL'', ''CONFIG_BPF_JIT'', ''CONFIG_HAVE_EBPF_JIT'',
      ''CONFIG_BPF_KPROBE_OVERRIDE'', ''CONFIG_NET_CLS_ACT'']"
  have "IsKernelConfigAvailable uname stat \<longleftrightarrow> ?av"
    by (auto simp: IsKernelConfigAvailable_def split: option.splits)
  moreover have "filter (\<lambda>(p, e). \<not> e) (GetRequiredSystemConfig f) = [] \<longleftrightarrow> ?six"
    by (simp add: GetRequiredSystemConfig_def Enabled_def)
  ultimately have v: "ValidateRequiredSystemConfig uname stat f = [] \<longleftrightarrow> ?av \<and> ?six"
    by (simp add: ValidateRequiredSystemConfig_def)
  have "takeWhile start ?as = ?as \<longleftrightarrow> (\<forall>a \<in> set ?as. start a)" by (rule takeWhile_eq_all_conv)
  then show ?thesis
    unfolding disk_Inject_def v start_all_eq by (cases "?av \<and> ?six"; cases "HavePerfEventArrayMapType f") auto
qed

end
