(* ===== verification/Disk_Smp.thy ===== *)
theory Disk_Smp
  imports Disk_Failure
begin

text \<open>
  The kprobe of \<open>src/ebpf/disk-failure/injection.bpf.c\<close> on several processors. \<open>hits\<close> and
  \<open>disruptedHits\<close> are plain global variables shared by all of them, and \<open>hits++\<close> is a load and a
  store. The rate limiter (lines 89 to 102) is taken apart into its accesses to the two variables, in the
  order of the source; a processor is a program counter with the values it has loaded, and a step of
  the system lets one processor do one access. An uninterrupted run is the sequential \<open>rate_gate\<close>.

  The lemmas show which bounds on the counters survive every interleaving, and that the bound on the rate
  of disruption does not.
\<close>

section \<open>Processors\<close>

text \<open>
  The points of the rate limiter: \<open>Test\<close> is the first test of \<open>hits\<close>, \<open>Load_d\<close> and \<open>Load_h\<close> compute the two
  scaled values, \<open>Spare\<close> is the increment before the early return, \<open>Hit\<close> and \<open>Dis\<close> are the two increments
  of a disrupted call, \<open>Send\<close> is what follows the limiter.
\<close>

datatype pc = Idle | Test | Load_d | Load_h u32 | Spare_load | Spare_store u32
  | Hit_load | Hit_store u32 | Dis_load | Dis_store u32 | Send

text \<open>
  One access: the next point and the shared variables afterwards. Division by zero gives 0, as the
  eBPF instruction does.
\<close>

fun rate_step :: "u32 \<Rightarrow> pc \<Rightarrow> counters \<Rightarrow> pc \<times> counters" where
  "rate_step p Test s = (if hits s \<noteq> 0 then Load_d else Hit_load, s)"
| "rate_step p Load_d s = (Load_h (disruptedHits s), s)"
| "rate_step p (Load_h d) s =
     (if (scast p :: u64) < ucast (d * 100) div ucast (hits s) then Spare_load else Hit_load, s)"
| "rate_step p Spare_load s = (Spare_store (hits s), s)"
| "rate_step p (Spare_store h) s = (Idle, s\<lparr>hits := h + 1\<rparr>)"
| "rate_step p Hit_load s = (Hit_store (hits s), s)"
| "rate_step p (Hit_store h) s = (Dis_load, s\<lparr>hits := h + 1\<rparr>)"
| "rate_step p Dis_load s = (Dis_store (disruptedHits s), s)"
| "rate_step p (Dis_store d) s = (Send, s\<lparr>disruptedHits := d + 1\<rparr>)"
| "rate_step p Send s = (Idle, s)"
| "rate_step p Idle s = (Idle, s)"

text \<open>
  The system: the processors, the shared variables, the number of selected calls that have entered the
  limiter and the number of calls that have been disrupted.
\<close>

record smp =
  cpus :: "pc list"
  shared :: counters
  entered :: nat
  disrupted :: nat

definition smp_init :: "nat \<Rightarrow> smp" where
  "smp_init n = \<lparr>cpus = replicate n Idle, shared = counters_init, entered = 0, disrupted = 0\<rparr>"

text \<open>Processor \<open>i\<close> does its next access; an idle processor enters the limiter with a new call.\<close>

definition cpu_step :: "u32 \<Rightarrow> nat \<Rightarrow> smp \<Rightarrow> smp" where
  "cpu_step p i S =
     (if length (cpus S) \<le> i then S
      else if cpus S ! i = Idle then S\<lparr>cpus := (cpus S)[i := Test], entered := entered S + 1\<rparr>
      else (case rate_step p (cpus S ! i) (shared S) of (c, s) \<Rightarrow>
        S\<lparr>cpus := (cpus S)[i := c], shared := s,
          disrupted := disrupted S + (if cpus S ! i = Send then 1 else 0)\<rparr>))"

text \<open>A schedule is the sequence of processors that get to do a step.\<close>

definition smp_run :: "u32 \<Rightarrow> nat list \<Rightarrow> smp \<Rightarrow> smp" where
  "smp_run p sched S = fold (cpu_step p) sched S"

inductive smp_reach :: "u32 \<Rightarrow> nat \<Rightarrow> smp \<Rightarrow> bool" for p n where
  init: "smp_reach p n (smp_init n)"
| step: "smp_reach p n S \<Longrightarrow> i < n \<Longrightarrow> smp_reach p n (cpu_step p i S)"

section \<open>What every interleaving keeps\<close>

text \<open>Contribution of a processor to the calls that have counted as a hit or as disrupted.\<close>

fun unhit :: "pc \<Rightarrow> nat" where
  "unhit Idle = 0" | "unhit Dis_load = 0" | "unhit (Dis_store _) = 0" | "unhit Send = 0" | "unhit _ = 1"

fun undisrupted :: "pc \<Rightarrow> nat" where
  "undisrupted Dis_load = 1" | "undisrupted (Dis_store _) = 1" | "undisrupted _ = 0"

fun sending :: "pc \<Rightarrow> nat" where
  "sending Send = 1" | "sending _ = 0"

definition loads_ok :: "nat \<Rightarrow> nat \<Rightarrow> pc \<Rightarrow> bool" where
  "loads_ok H D c \<longleftrightarrow> (case c of Spare_store h \<Rightarrow> unat h \<le> H | Hit_store h \<Rightarrow> unat h \<le> H
     | Dis_store d \<Rightarrow> unat d \<le> D | _ \<Rightarrow> True)"

text \<open>
  The invariant. The stores to \<open>hits\<close> so far are the calls that entered minus those still before
  their store; the variable and every value a processor holds for it are bounded by that number. The same
  for \<open>disruptedHits\<close> with the calls disrupted or about to be.
\<close>

definition smp_inv :: "nat \<Rightarrow> nat \<Rightarrow> nat \<Rightarrow> smp \<Rightarrow> bool" where
  "smp_inv n H D S \<longleftrightarrow> length (cpus S) = n \<and>
     entered S = H + sum_list (map unhit (cpus S)) \<and>
     D = disrupted S + sum_list (map sending (cpus S)) \<and>
     D + sum_list (map undisrupted (cpus S)) \<le> H \<and>
     unat (hits (shared S)) \<le> H \<and> unat (disruptedHits (shared S)) \<le> D \<and>
     list_all (loads_ok H D) (cpus S)"

lemma unat_Suc_le: "unat (x + 1 :: u32) \<le> unat x + 1"
  by (simp add: unat_word_ariths)

lemma sum_list_map_update:
  "i < length xs \<Longrightarrow> sum_list (map f (xs[i := y])) + f (xs ! i) = sum_list (map f xs) + (f y :: nat)"
  by (induction xs arbitrary: i) (auto split: nat.splits)

lemma loads_ok_mono: "loads_ok H D c \<Longrightarrow> H \<le> H' \<Longrightarrow> D \<le> D' \<Longrightarrow> loads_ok H' D' c"
  by (cases c) (auto simp: loads_ok_def)

lemma list_all_loads_update:
  assumes "list_all (loads_ok H D) cs" and "H \<le> H'" and "D \<le> D'" and "loads_ok H' D' c"
  shows "list_all (loads_ok H' D') (cs[i := c])"
proof -
  have "\<forall>c \<in> set cs. loads_ok H' D' c" using assms(1-3) loads_ok_mono by (auto simp: list_all_iff)
  then show ?thesis using assms(4) set_update_subset_insert [of cs i c] by (auto simp: list_all_iff)
qed

text \<open>What a step of processor \<open>i\<close> to the point \<open>c\<close> has to keep, locally.\<close>

lemma smp_inv_replace:
  assumes "smp_inv n H D S" and "i < n" and "H \<le> H'" and "D \<le> D'" and "cpus S' = (cpus S)[i := c]"
    and "entered S' + unhit (cpus S ! i) + H = entered S + unhit c + H'"
    and "D' + disrupted S + sending (cpus S ! i) = D + disrupted S' + sending c"
    and "D' + undisrupted c + H \<le> H' + D + undisrupted (cpus S ! i)"
    and "unat (hits (shared S')) \<le> H'" and "unat (disruptedHits (shared S')) \<le> D'" and "loads_ok H' D' c"
  shows "smp_inv n H' D' S'"
proof -
  have i: "i < length (cpus S)" using assms(1,2) by (simp add: smp_inv_def)
  have "sum_list (map unhit ((cpus S)[i := c])) + unhit (cpus S ! i) = sum_list (map unhit (cpus S)) + unhit c"
    "sum_list (map sending ((cpus S)[i := c])) + sending (cpus S ! i) = sum_list (map sending (cpus S)) + sending c"
    "sum_list (map undisrupted ((cpus S)[i := c])) + undisrupted (cpus S ! i) =
      sum_list (map undisrupted (cpus S)) + undisrupted c"
    by (rule sum_list_map_update [OF i])+
  moreover have "list_all (loads_ok H' D') ((cpus S)[i := c])"
    using assms(1,3,4,11) by (intro list_all_loads_update) (auto simp: smp_inv_def)
  ultimately show ?thesis using assms by (auto simp: smp_inv_def)
qed

lemma smp_inv_step:
  assumes "smp_inv n H D S" and "i < n"
  shows "\<exists>H' D'. smp_inv n H' D' (cpu_step p i S)"
proof -
  let ?c = "cpus S ! i" and ?S = "cpu_step p i S"
  have i: "i < length (cpus S)" using assms by (simp add: smp_inv_def)
  have lo: "loads_ok H D ?c" "unat (hits (shared S)) \<le> H" "unat (disruptedHits (shared S)) \<le> D"
    using assms i by (auto simp: smp_inv_def list_all_length)
  note local = smp_inv_replace [OF assms, where S' = ?S]
  consider h where "?c = Spare_store h \<or> ?c = Hit_store h" | d where "?c = Dis_store d"
    | "\<forall>h. ?c \<noteq> Spare_store h \<and> ?c \<noteq> Hit_store h \<and> ?c \<noteq> Dis_store h" by blast
  then show ?thesis
  proof cases
    case (1 h)
    then have "unat (h + 1) \<le> H + 1" using lo unat_Suc_le [of h] by (auto simp: loads_ok_def)
    with 1 lo i have "smp_inv n (H + 1) D ?S"
      by (intro local [of "H + 1" D "fst (rate_step p ?c (shared S))"])
        (auto simp: cpu_step_def loads_ok_def)
    then show ?thesis by blast
  next
    case (2 d)
    then have "unat (d + 1) \<le> D + 1" using lo unat_Suc_le [of d] by (auto simp: loads_ok_def)
    with 2 lo i have "smp_inv n H (D + 1) ?S"
      by (intro local [of H "D + 1" Send]) (auto simp: cpu_step_def loads_ok_def)
    then show ?thesis by blast
  next
    case 3
    with lo i have "smp_inv n H D ?S"
      by (intro local [of H D "if ?c = Idle then Test else fst (rate_step p ?c (shared S))"])
        (cases ?c; auto simp: cpu_step_def loads_ok_def)+
    then show ?thesis by blast
  qed
qed

lemma smp_reach_inv: "smp_reach p n S \<Longrightarrow> \<exists>H D. smp_inv n H D S"
proof (induction rule: smp_reach.induct)
  case init
  have "smp_inv n 0 0 (smp_init n)"
    by (simp add: smp_inv_def smp_init_def counters_init_def sum_list_replicate loads_ok_def list_all_iff)
  then show ?case by blast
next
  case (step S i)
  then show ?case using smp_inv_step by blast
qed

lemma smp_run_reach: "smp_reach p n S \<Longrightarrow> set sched \<subseteq> {..<n} \<Longrightarrow> smp_reach p n (smp_run p sched S)"
  by (induction sched arbitrary: S) (auto simp: smp_run_def intro: smp_reach.step)

section \<open>Rounds\<close>

text \<open>
  All processors at the same point, and a round in which each does one step. A round leads all of
  them to the same next point when the step of one does not change what the others do.
\<close>

definition uniform :: "nat \<Rightarrow> pc \<Rightarrow> counters \<Rightarrow> nat \<Rightarrow> nat \<Rightarrow> smp" where
  "uniform n c s e d = \<lparr>cpus = replicate n c, shared = s, entered = e, disrupted = d\<rparr>"

lemma replicate_update:
  "m < n \<Longrightarrow> (replicate m c' @ replicate (n - m) c)[m := c'] = replicate (Suc m) c' @ replicate (n - Suc m) c"
  by (rule nth_equalityI) (auto simp: nth_append nth_list_update less_Suc_eq simp del: replicate_Suc)

lemma round_prefix:
  assumes "c \<noteq> Idle" and "rate_step p c s = (c', s')" and "rate_step p c s' = (c', s')" and "m \<le> n"
  shows "smp_run p [0..<m] (uniform n c s e d) =
    \<lparr>cpus = replicate m c' @ replicate (n - m) c, shared = (if m = 0 then s else s'), entered = e,
      disrupted = d + (if c = Send then m else 0)\<rparr>"
  using assms(4)
proof (induction m)
  case 0
  then show ?case by (simp add: smp_run_def uniform_def)
next
  case (Suc m)
  have "smp_run p [0..<Suc m] (uniform n c s e d) = cpu_step p m (smp_run p [0..<m] (uniform n c s e d))"
    by (simp add: smp_run_def)
  with Suc assms(1-3) replicate_update [of m n c' c] show ?case
    by (auto simp: cpu_step_def nth_append)
qed

lemma round_step:
  assumes "c \<noteq> Idle" and "rate_step p c s = (c', s')" and "rate_step p c s' = (c', s')" and "0 < n"
  shows "smp_run p [0..<n] (uniform n c s e d) = uniform n c' s' e (d + (if c = Send then n else 0))"
  using round_prefix [OF assms(1-3), of n n e d] assms(4) by (simp add: uniform_def)

lemma round_enter_prefix:
  "m \<le> n \<Longrightarrow> smp_run p [0..<m] (uniform n Idle s e d) =
    \<lparr>cpus = replicate m Test @ replicate (n - m) Idle, shared = s, entered = e + m, disrupted = d\<rparr>"
proof (induction m)
  case 0
  then show ?case by (simp add: smp_run_def uniform_def)
next
  case (Suc m)
  have "smp_run p [0..<Suc m] (uniform n Idle s e d) = cpu_step p m (smp_run p [0..<m] (uniform n Idle s e d))"
    by (simp add: smp_run_def)
  with Suc replicate_update [of m n Test Idle] show ?case by (auto simp: cpu_step_def nth_append)
qed

lemma round_enter: "smp_run p [0..<n] (uniform n Idle s e d) = uniform n Test s (e + n) d"
  using round_enter_prefix [of n n] by (simp add: uniform_def)

lemma smp_run_append: "smp_run p (xs @ ys) S = smp_run p ys (smp_run p xs S)"
  by (simp add: smp_run_def)

section \<open>Properties\<close>

text \<open>
  C18: On any number of processors and in every interleaving of their accesses, \<open>hits\<close> never exceeds
  the number of selected calls, \<open>disruptedHits\<close> never exceeds the number of calls disrupted or about
  to be, and these are at most the selected calls. (The variables may fall behind: increments get lost.)
\<close>

theorem smp_counters_bounded:
  assumes "smp_reach p n S"
  shows "unat (hits (shared S)) \<le> entered S \<and>
    unat (disruptedHits (shared S)) \<le> disrupted S + length (filter (\<lambda>c. c = Send) (cpus S)) \<and>
    disrupted S + length (filter (\<lambda>c. c = Send) (cpus S)) \<le> entered S"
proof -
  have "sum_list (map sending cs) = length (filter (\<lambda>c. c = Send) cs)" for cs
  proof (induction cs)
    case (Cons c cs)
    then show ?case by (cases c) auto
  qed simp
  then show ?thesis using smp_reach_inv [OF assms] by (auto simp: smp_inv_def)
qed

theorem smp_counters_bounded_witness:
  "let S = smp_run 0 [0, 1, 0, 1, 0, 0] (smp_init 2) in unat (hits (shared S)) \<le> entered S \<and> entered S = 2"
proof -
  have "smp_reach 0 2 (smp_run 0 [0, 1, 0, 1, 0, 0] (smp_init 2))"
    by (rule smp_run_reach [OF smp_reach.init]) auto
  then show ?thesis
    using smp_counters_bounded [of 0 2 "smp_run 0 [0, 1, 0, 1, 0, 0] (smp_init 2)"]
    by (simp add: Let_def smp_run_def smp_init_def cpu_step_def counters_init_def)
qed

text \<open>
  C19: Without interference the processors implement the sequential rate limiter: when an idle processor
  runs alone it comes back to idle with the counters of \<open>rate_gate\<close>, and has disrupted its call exactly
  when \<open>rate_gate\<close> lets it pass.
\<close>

theorem smp_uninterrupted:
  assumes "i < length (cpus S)" and "cpus S ! i = Idle"
  shows "\<exists>k. smp_run p (replicate k i) S = S\<lparr>shared := snd (rate_gate p (shared S)), entered := entered S + 1,
    disrupted := disrupted S + (if fst (rate_gate p (shared S)) then 1 else 0)\<rparr>"
proof -
  have r: "replicate 6 i = [i, i, i, i, i, i]" "replicate 7 i = [i, i, i, i, i, i, i]"
    "replicate 9 i = [i, i, i, i, i, i, i, i, i]" by (simp_all add: numeral_eq_Suc)
  note run = smp_run_def cpu_step_def rate_gate_def
  consider "hits (shared S) = 0"
    | "hits (shared S) \<noteq> 0" "(scast p :: u64) < ucast (disruptedHits (shared S) * 100) div ucast (hits (shared S))"
    | "hits (shared S) \<noteq> 0" "\<not> (scast p :: u64) < ucast (disruptedHits (shared S) * 100) div ucast (hits (shared S))"
    by blast
  then show ?thesis
  proof cases
    case 1
    with assms list_update_id [of "cpus S" i] show ?thesis
      by (intro exI [of _ 7]) (simp add: r run)
  next
    case 2
    with assms list_update_id [of "cpus S" i] show ?thesis
      by (intro exI [of _ 6]) (simp add: r run)
  next
    case 3
    with assms list_update_id [of "cpus S" i] show ?thesis
      by (intro exI [of _ 9]) (simp add: r run)
  qed
qed

theorem smp_uninterrupted_witness:
  "\<exists>k. smp_run 50 (replicate k 1) (smp_init 2) = (smp_init 2)\<lparr>shared := \<lparr>hits = 1, disruptedHits = 1\<rparr>,
    entered := 1, disrupted := 1\<rparr>"
  using smp_uninterrupted [of 1 "smp_init 2" 50]
  by (simp add: smp_init_def rate_gate_def counters_init_def)

text \<open>
  C40: The bound on the rate of disruption does not survive concurrency. Whatever the probability below 100,
  \<open>n\<close> processors whose accesses interleave can disrupt all of their \<open>n\<close> calls, and all but one of the
  increments of each counter get lost.
\<close>

theorem smp_rate_not_kept:
  assumes "0 < n"
  shows "\<exists>S. smp_reach p n S \<and> entered S = n \<and> disrupted S = n \<and> shared S = \<lparr>hits = 1, disruptedHits = 1\<rparr>"
proof -
  let ?r = "[0..<n]" and ?s0 = "\<lparr>hits = 0, disruptedHits = 0\<rparr>" and ?s1 = "\<lparr>hits = 1, disruptedHits = 0\<rparr>"
    and ?s2 = "\<lparr>hits = 1, disruptedHits = 1\<rparr>"
  note step = round_step [OF _ _ _ assms]
  have "smp_run p (?r @ ?r @ ?r @ ?r @ ?r @ ?r @ ?r) (uniform n Idle ?s0 0 0) = uniform n Idle ?s2 n n"
    by (simp add: smp_run_append round_enter step [of Test p ?s0 Hit_load ?s0]
        step [of Hit_load p ?s0 "Hit_store 0" ?s0] step [of "Hit_store 0" p ?s0 Dis_load ?s1]
        step [of Dis_load p ?s1 "Dis_store 0" ?s1] step [of "Dis_store 0" p ?s1 Send ?s2]
        step [of Send p ?s2 Idle ?s2])
  moreover have "smp_reach p n (smp_run p (?r @ ?r @ ?r @ ?r @ ?r @ ?r @ ?r) (smp_init n))"
    by (rule smp_run_reach [OF smp_reach.init]) auto
  moreover have "smp_init n = uniform n Idle ?s0 0 0" by (simp add: smp_init_def uniform_def counters_init_def)
  ultimately have "smp_reach p n (uniform n Idle ?s2 n n)" by simp
  then show ?thesis by (intro exI [of _ "uniform n Idle ?s2 n n"]) (simp add: uniform_def)
qed

theorem smp_rate_not_kept_witness:
  "\<exists>S. smp_reach 1 4 S \<and> entered S = 4 \<and> disrupted S = 4 \<and> hits (shared S) = 1"
proof -
  obtain S where "smp_reach 1 4 S" "entered S = 4" "disrupted S = 4" "shared S = \<lparr>hits = 1, disruptedHits = 1\<rparr>"
    using smp_rate_not_kept [of 4 1] by auto
  then show ?thesis by (intro exI [of _ S]) simp
qed

end
