(* ===== verification/Map_Low.thy ===== *)
theory Map_Low
  imports Filter_Driver Libbpfgo "HOL-Library.AList"
begin

text \<open>
  The low-level map interface of libbpfgo (\<open>map-low.go\<close>, \<open>map-common.go\<close> and \<open>misc.go\<close> in
  \<open>src/vendor/github.com/aquasecurity/libbpfgo/\<close>) and the map loader of the HTTP filters
  (\<open>src/ebpf/network-tc-filter/main.go\<close>) on top of it, with the open file descriptors of the process
  as part of the state. The description of a map is decoded from the bytes the kernel fills in, at the
  offsets of the C type \<open>T\<close> of \<open>struct bpf_map_info\<close>.

  The system calls are the record \<open>fd_env\<close>. The loader over descriptors refines the loader over map
  ids of the filter theory, and releases every descriptor it opens but in the cases named below.
\<close>

section \<open>Constants\<close>

text \<open>\<open>MapType\<close> with its printed names, and \<open>MapFlag\<close>: both count from 0.\<close>

definition mapTypeToString :: "(nat \<times> string) list" where
  "mapTypeToString = enumerate 0 [
     ''BPF_MAP_TYPE_UNSPEC'',
     ''BPF_MAP_TYPE_HASH'',
     ''BPF_MAP_TYPE_ARRAY'',
     ''BPF_MAP_TYPE_PROG_ARRAY'',
     ''BPF_MAP_TYPE_PERF_EVENT_ARRAY'',
     ''BPF_MAP_TYPE_PERCPU_HASH'',
     ''BPF_MAP_TYPE_PERCPU_ARRAY'',
     ''BPF_MAP_TYPE_STACK_TRACE'',
     ''BPF_MAP_TYPE_CGROUP_ARRAY'',
     ''BPF_MAP_TYPE_LRU_HASH'',
     ''BPF_MAP_TYPE_LRU_PERCPU_HASH'',
     ''BPF_MAP_TYPE_LPM_TRIE'',
     ''BPF_MAP_TYPE_ARRAY_OF_MAPS'',
     ''BPF_MAP_TYPE_HASH_OF_MAPS'',
     ''BPF_MAP_TYPE_DEVMAP'',
     ''BPF_MAP_TYPE_SOCKMAP'',
     ''BPF_MAP_TYPE_CPUMAP'',
     ''BPF_MAP_TYPE_XSKMAP'',
     ''BPF_MAP_TYPE_SOCKHASH'',
     ''BPF_MAP_TYPE_CGROUP_STORAGE'',
     ''BPF_MAP_TYPE_REUSEPORT_SOCKARRAY'',
     ''BPF_MAP_TYPE_PERCPU_CGROUP_STORAGE'',
     ''BPF_MAP_TYPE_QUEUE'',
     ''BPF_MAP_TYPE_STACK'',
     ''BPF_MAP_TYPE_SK_STORAGE'',
     ''BPF_MAP_TYPE_DEVMAP_HASH'',
     ''BPF_MAP_TYPE_STRUCT_OPS'',
     ''BPF_MAP_TYPE_RINGBUF'',
     ''BPF_MAP_TYPE_INODE_STORAGE'',
     ''BPF_MAP_TYPE_TASK_STORAGE'',
     ''BPF_MAP_TYPE_BLOOM_FILTER'']"

definition MapTypePerCPUHash :: u32 where "MapTypePerCPUHash = 5"
definition MapTypePerCPUArray :: u32 where "MapTypePerCPUArray = 6"
definition MapTypeLRUPerCPUHash :: u32 where "MapTypeLRUPerCPUHash = 10"
definition MapTypePerCPUCgroupStorage :: u32 where "MapTypePerCPUCgroupStorage = 21"

definition MapFlagUpdateAny :: nat where "MapFlagUpdateAny = 0"
definition MapFlagUpdateNoExist :: nat where "MapFlagUpdateNoExist = 1"
definition MapFlagUpdateExist :: nat where "MapFlagUpdateExist = 2"
definition MapFlagFLock :: nat where "MapFlagFLock = 3"

section \<open>Descriptors and system calls\<close>

text \<open>What a descriptor of the process refers to: a map, by its id, or the root directory.\<close>

datatype open_file = Map_file u32 | Root_dir

type_synonym fd_table = "(nat \<times> open_file) list"

datatype low_error = Low_next int | Low_fd int | Low_info int | Low_close | Low_elem int | Low_panic
  | Low_flags | Low_create int | Low_open int | Low_dup int | Low_opts | Low_size | Low_cpus | Low_batch int

text \<open>
  The system calls: the next map id above one; a descriptor for a map id, chosen with the table at
  hand; the bytes of \<open>struct bpf_map_info\<close> of a map; whether closing a descriptor of a map reports
  success; the update of one element; the creation of a map (the descriptor and the id of the new map)
  from its type, the name and the options in the heap, the sizes of keys and values and the number of
  entries; opening the root directory; whether \<open>dup3\<close> fails. A negative return value is the error.
\<close>

record fd_env =
  sys_next_id :: "u32 \<Rightarrow> int + u32"
  sys_fd_by_id :: "fd_table \<Rightarrow> u32 \<Rightarrow> int + nat"
  sys_info :: "u32 \<Rightarrow> int + bytes"
  sys_close :: "u32 \<Rightarrow> bool"
  sys_update :: "bytes list \<Rightarrow> nat \<Rightarrow> bytes \<Rightarrow> nat \<Rightarrow> int + bytes list"
  sys_create :: "fd_table \<Rightarrow> u32 \<Rightarrow> cobj option \<Rightarrow> u32 \<Rightarrow> u32 \<Rightarrow> u32 \<Rightarrow> cobj option \<Rightarrow> int + nat \<times> u32"
  sys_open_root :: "fd_table \<Rightarrow> int + nat"
  sys_dup3 :: "nat \<Rightarrow> nat \<Rightarrow> int option"

definition EBADF_errno :: int where "EBADF_errno = 9"
definition EINVAL_errno :: int where "EINVAL_errno = 22"

text \<open>\<open>close\<close> releases an open descriptor even when it reports an error.\<close>

definition close_fd :: "fd_env \<Rightarrow> nat \<Rightarrow> fd_table \<Rightarrow> bool \<times> fd_table" where
  "close_fd E fd fds =
     (case map_of fds fd of
        None \<Rightarrow> (False, fds)
      | Some Root_dir \<Rightarrow> (True, AList.delete fd fds)
      | Some (Map_file i) \<Rightarrow> (sys_close E i, AList.delete fd fds))"

definition info_by_fd :: "fd_env \<Rightarrow> nat \<Rightarrow> fd_table \<Rightarrow> int + bytes" where
  "info_by_fd E fd fds =
     (case map_of fds fd of
        None \<Rightarrow> Inl EBADF_errno
      | Some Root_dir \<Rightarrow> Inl EINVAL_errno
      | Some (Map_file i) \<Rightarrow> sys_info E i)"

section \<open>Descriptions of maps\<close>

record BPFMapInfo =
  info_Type :: u32
  info_ID :: u32
  info_KeySize :: u32
  info_ValueSize :: u32
  info_MaxEntries :: u32
  info_MapFlags :: u32
  info_Name :: string
  info_IfIndex :: u32
  info_BTFVmlinuxValueTypeID :: u32
  info_NetnsDev :: u64
  info_NetnsIno :: u64
  info_BTFID :: u32
  info_BTFKeyTypeID :: u32
  info_BTFValueTypeID :: u32
  info_MapExtra :: u64

record BPFMapLow =
  low_fd :: nat
  low_info :: BPFMapInfo

text \<open>A member of the C structure; a member the type lacks would not compile.\<close>

definition info_field :: "ctype \<Rightarrow> string \<Rightarrow> bytes \<Rightarrow> 'w::len word" where
  "info_field T n bs = (case get_member T [n] bs of Some w \<Rightarrow> w | None \<Rightarrow> 0)"

text \<open>\<open>C.GoString\<close> from the first byte of a member.\<close>

definition go_string :: "ctype \<Rightarrow> string \<Rightarrow> bytes \<Rightarrow> string" where
  "go_string T n bs =
     (case member T n of
        None \<Rightarrow> []
      | Some (k, t) \<Rightarrow> map char_of (map unat (c_str (drop k bs))))"

definition map_info_of :: "ctype \<Rightarrow> bytes \<Rightarrow> BPFMapInfo" where
  "map_info_of T bs = \<lparr>
     info_Type = info_field T ''type'' bs,
     info_ID = info_field T ''id'' bs,
     info_KeySize = info_field T ''key_size'' bs,
     info_ValueSize = info_field T ''value_size'' bs,
     info_MaxEntries = info_field T ''max_entries'' bs,
     info_MapFlags = info_field T ''map_flags'' bs,
     info_Name = go_string T ''name'' bs,
     info_IfIndex = info_field T ''ifindex'' bs,
     info_BTFVmlinuxValueTypeID = info_field T ''btf_vmlinux_value_type_id'' bs,
     info_NetnsDev = info_field T ''netns_dev'' bs,
     info_NetnsIno = info_field T ''netns_ino'' bs,
     info_BTFID = info_field T ''btf_id'' bs,
     info_BTFKeyTypeID = info_field T ''btf_key_type_id'' bs,
     info_BTFValueTypeID = info_field T ''btf_value_type_id'' bs,
     info_MapExtra = info_field T ''map_extra'' bs\<rparr>"

definition GetMapFDByID :: "fd_env \<Rightarrow> u32 \<Rightarrow> fd_table \<Rightarrow> (low_error + nat) \<times> fd_table" where
  "GetMapFDByID E i fds =
     (case sys_fd_by_id E fds i of
        Inl e \<Rightarrow> (Inl (Low_fd e), fds)
      | Inr fd \<Rightarrow> (Inr fd, (fd, Map_file i) # fds))"

definition GetMapInfoByFD :: "fd_env \<Rightarrow> ctype \<Rightarrow> nat \<Rightarrow> fd_table \<Rightarrow> low_error + BPFMapInfo" where
  "GetMapInfoByFD E T fd fds =
     (case info_by_fd E fd fds of Inl e \<Rightarrow> Inl (Low_info e) | Inr bs \<Rightarrow> Inr (map_info_of T bs))"

definition GetMapByID :: "fd_env \<Rightarrow> ctype \<Rightarrow> u32 \<Rightarrow> fd_table \<Rightarrow> (low_error + BPFMapLow) \<times> fd_table" where
  "GetMapByID E T i fds =
     (case GetMapFDByID E i fds of
        (Inl e, fds) \<Rightarrow> (Inl e, fds)
      | (Inr fd, fds) \<Rightarrow>
          (case GetMapInfoByFD E T fd fds of
             Inl e \<Rightarrow> (Inl e, fds)
           | Inr info \<Rightarrow> (Inr \<lparr>low_fd = fd, low_info = info\<rparr>, fds)))"

section \<open>The loader over descriptors\<close>

partial_function (option) low_maps_from ::
  "fd_env \<Rightarrow> ctype \<Rightarrow> string \<Rightarrow> u32 \<Rightarrow> u32 list \<Rightarrow> fd_table \<Rightarrow> ((low_error + u32 list) \<times> fd_table) option" where
  "low_maps_from E T name startId ids fds =
     (case sys_next_id E startId of
        Inl errno \<Rightarrow> Some (if errno = ENOENT_errno then Inr ids else Inl (Low_next errno), fds)
      | Inr nextId \<Rightarrow>
          (case GetMapByID E T nextId fds of
             (Inl e, fds) \<Rightarrow> Some (Inl e, fds)
           | (Inr m, fds) \<Rightarrow>
               (case close_fd E (low_fd m) fds of
                  (ok, fds) \<Rightarrow>
                    if \<not> ok then Some (Inl Low_close, fds)
                    else low_maps_from E T name (nextId + 1)
                      (if info_Name (low_info m) \<noteq> name then ids else ids @ [info_ID (low_info m)]) fds)))"

definition low_GetMapsIDsByName ::
  "fd_env \<Rightarrow> ctype \<Rightarrow> string \<Rightarrow> fd_table \<Rightarrow> ((low_error + u32 list) \<times> fd_table) option" where
  "low_GetMapsIDsByName E T name fds = low_maps_from E T name 0 [] fds"

definition UpdateValueFlags ::
  "fd_env \<Rightarrow> BPFMapLow \<Rightarrow> nat \<Rightarrow> bytes \<Rightarrow> nat \<Rightarrow> fd_table \<Rightarrow> map_store \<Rightarrow> low_error option \<times> map_store" where
  "UpdateValueFlags E m key v flags fds st =
     (case map_of fds (low_fd m) of
        Some (Map_file i) \<Rightarrow>
          (case sys_update E (st (unat i)) key v flags of
             Inl e \<Rightarrow> (Some (Low_elem e), st)
           | Inr vals \<Rightarrow> (None, st(unat i := vals)))
      | Some Root_dir \<Rightarrow> (Some (Low_elem EINVAL_errno), st)
      | None \<Rightarrow> (Some (Low_elem EBADF_errno), st))"

definition low_Update ::
  "fd_env \<Rightarrow> BPFMapLow \<Rightarrow> nat \<Rightarrow> bytes \<Rightarrow> fd_table \<Rightarrow> map_store \<Rightarrow> low_error option \<times> map_store" where
  "low_Update E m key v fds st = UpdateValueFlags E m key v MapFlagUpdateAny fds st"

definition low_updateMap ::
  "fd_env \<Rightarrow> nat \<Rightarrow> bytes \<Rightarrow> nat \<Rightarrow> BPFMapLow \<Rightarrow> fd_table \<Rightarrow> map_store \<Rightarrow> low_error option \<times> map_store" where
  "low_updateMap E key value valueSize m fds st =
     (if length value > valueSize then (Some Low_panic, st)
      else low_Update E m key (overwrite 0 value (replicate valueSize 0)) fds st)"

definition closeMap :: "fd_env \<Rightarrow> BPFMapLow \<Rightarrow> fd_table \<Rightarrow> bool \<times> fd_table" where
  "closeMap E m fds = close_fd E (low_fd m) fds"

fun low_update_fields ::
  "fd_env \<Rightarrow> BPFMapLow \<Rightarrow> nat \<Rightarrow> nat \<Rightarrow> string list \<Rightarrow> fd_table \<Rightarrow> map_store \<Rightarrow> low_error option \<times> map_store" where
  "low_update_fields E m fieldSize i [] fds st = (None, st)"
| "low_update_fields E m fieldSize i (f # fs) fds st =
     (case low_updateMap E i (ascii f) fieldSize m fds st of
        (Some e, st) \<Rightarrow> (Some e, st)
      | (None, st) \<Rightarrow> low_update_fields E m fieldSize (i + 1) fs fds st)"

text \<open>
  The loop over the ids. After a failed update the map is closed and the loop ends; a panic of the
  slice expression ends the program before that.
\<close>

fun low_populate_ids ::
  "fd_env \<Rightarrow> ctype \<Rightarrow> string list \<Rightarrow> nat \<Rightarrow> u32 list \<Rightarrow> fd_table \<Rightarrow> map_store \<Rightarrow>
     low_error option \<times> bool \<times> fd_table \<times> map_store" where
  "low_populate_ids E T flds fieldSize [] fds st = (None, True, fds, st)"
| "low_populate_ids E T flds fieldSize (k # ks) fds st =
     (case GetMapByID E T k fds of
        (Inl e, fds) \<Rightarrow> (Some e, True, fds, st)
      | (Inr m, fds) \<Rightarrow>
          (case low_update_fields E m fieldSize 0 flds fds st of
             (Some e, st) \<Rightarrow> (Some e, True, if e = Low_panic then fds else snd (closeMap E m fds), st)
           | (None, st) \<Rightarrow>
               (case low_populate_ids E T flds fieldSize ks (snd (closeMap E m fds)) st of
                  (e, closed, fds', st) \<Rightarrow> (e, fst (closeMap E m fds) \<and> closed, fds', st))))"

definition low_populateBPFMap ::
  "fd_env \<Rightarrow> ctype \<Rightarrow> string \<Rightarrow> string list \<Rightarrow> nat \<Rightarrow> fd_table \<Rightarrow> map_store \<Rightarrow>
     (low_error option \<times> fd_table \<times> map_store) option" where
  "low_populateBPFMap E T mapName flds fieldSize fds st =
     (case low_GetMapsIDsByName E T mapName fds of
        None \<Rightarrow> None
      | Some (Inl e, fds) \<Rightarrow> Some (Some e, fds, st)
      | Some (Inr ids, fds) \<Rightarrow>
          (case low_populate_ids E T flds fieldSize ids fds st of
             (Some e, _, fds, st) \<Rightarrow> Some (Some e, fds, st)
           | (None, closed, fds, st) \<Rightarrow> Some (if closed then None else Some Low_close, fds, st)))"

definition low_main ::
  "fd_env \<Rightarrow> ctype \<Rightarrow> string list \<Rightarrow> fd_table \<Rightarrow> map_store \<Rightarrow>
     (low_error option \<times> fd_table \<times> map_store) option" where
  "low_main E T args fds st =
     (case filter_flags args of
        None \<Rightarrow> Some (Some Low_flags, fds, st)
      | Some (nMethods, nPaths) \<Rightarrow>
          (case low_populateBPFMap E T ''filter_methods'' nMethods MaxMethodLen fds st of
             None \<Rightarrow> None
           | Some (Some e, fds, st) \<Rightarrow> Some (Some e, fds, st)
           | Some (None, fds, st) \<Rightarrow> low_populateBPFMap E T ''filter_paths'' nPaths MaxPathLen fds st))"

section \<open>Creating and reusing maps\<close>

text \<open>
  \<open>CreateMap\<close>: the name is a C string and the options, if given, a C object, both freed on return;
  \<open>opts\<close> are the nine fields of \<open>BPFMapCreateOpts\<close>. \<open>C.CString\<close> ends the program when there is no
  memory. \<^term>\<open>None\<close> is a misuse of the heap.
\<close>

type_synonym create_opts = "u32 \<times> u32 \<times> u32 \<times> u32 \<times> u32 \<times> u32 \<times> u64 \<times> u32 \<times> u32"

definition create_map_fd ::
  "fd_env \<Rightarrow> ctype \<Rightarrow> u32 \<Rightarrow> cobj option \<Rightarrow> u32 \<Rightarrow> u32 \<Rightarrow> u32 \<Rightarrow> cobj option \<Rightarrow> fd_table \<Rightarrow>
     (low_error + BPFMapLow) \<times> fd_table" where
  "create_map_fd E T mapType mapNameC keySize valueSize maxEntries optsC fds =
     (case sys_create E fds mapType mapNameC keySize valueSize maxEntries optsC of
        Inl e \<Rightarrow> (Inl (Low_create e), fds)
      | Inr (fd, i) \<Rightarrow>
          (let fds = (fd, Map_file i) # fds
           in case GetMapInfoByFD E T fd fds of
                Inl e \<Rightarrow> (Inl e, snd (close_fd E fd fds))
              | Inr info \<Rightarrow> (Inr \<lparr>low_fd = fd, low_info = info\<rparr>, fds)))"

definition CreateMap ::
  "fd_env \<Rightarrow> ctype \<Rightarrow> nat \<Rightarrow> u32 \<Rightarrow> string \<Rightarrow> int \<Rightarrow> int \<Rightarrow> int \<Rightarrow> create_opts option \<Rightarrow> fd_table \<Rightarrow> heap \<Rightarrow>
     ((low_error + BPFMapLow) \<times> fd_table \<times> heap) option" where
  "CreateMap E T sizeof_opts mapType mapName keySize valueSize maxEntries opts fds h =
     (case alloc (Buf (ascii mapName @ [0])) h of (mapNameC, h) \<Rightarrow>
        if mapNameC = 0 then Some (Inl Low_panic, fds, h)
        else (case opts of
            None \<Rightarrow> do {
              let (r, fds) = create_map_fd E T mapType (live h mapNameC)
                (of_int keySize) (of_int valueSize) (of_int maxEntries) None fds;
              h \<leftarrow> free mapNameC h;
              Some (r, fds, h)
            }
          | Some (btf_fd, key_type, value_type, vmlinux_type, inner_fd, flags, extra, numa, ifindex) \<Rightarrow> do {
              (optsC, h) \<leftarrow> cgo_bpf_map_create_opts_new sizeof_opts btf_fd key_type value_type vmlinux_type
                inner_fd flags extra numa ifindex h;
              if optsC = 0 then do { h \<leftarrow> free mapNameC h; Some (Inl Low_opts, fds, h) }
              else do {
                let (r, fds) = create_map_fd E T mapType (live h mapNameC)
                  (of_int keySize) (of_int valueSize) (of_int maxEntries) (live h optsC) fds;
                h \<leftarrow> cgo_bpf_map_create_opts_free optsC h;
                h \<leftarrow> free mapNameC h;
                Some (r, fds, h)
              }
            }))"

text \<open>\<open>ReuseFD\<close>: the error, the map and the descriptors afterwards.\<close>

definition ReuseFD ::
  "fd_env \<Rightarrow> ctype \<Rightarrow> BPFMapLow \<Rightarrow> nat \<Rightarrow> fd_table \<Rightarrow> low_error option \<times> BPFMapLow \<times> fd_table" where
  "ReuseFD E T m fd fds =
     (case GetMapInfoByFD E T fd fds of
        Inl e \<Rightarrow> (Some e, m, fds)
      | Inr info \<Rightarrow>
          (case sys_open_root E fds of
             Inl e \<Rightarrow> (Some (Low_open e), m, fds)
           | Inr newFD \<Rightarrow>
               (let fds = (newFD, Root_dir) # fds
                in case sys_dup3 E fd newFD of
                     Some e \<Rightarrow> (Some (Low_dup e), m, snd (close_fd E newFD fds))
                   | None \<Rightarrow>
                       (let fds = (newFD, the (map_of fds fd)) # AList.delete newFD fds
                        in case close_fd E (low_fd m) fds of
                             (False, fds) \<Rightarrow> (Some Low_close, m, snd (close_fd E newFD fds))
                           | (True, fds) \<Rightarrow> (None, \<lparr>low_fd = newFD, low_info = info\<rparr>, fds)))))"

section \<open>Reading values\<close>

definition roundUp :: "u64 \<Rightarrow> u64 \<Rightarrow> u64" where
  "roundUp x y = ((x + (y - 1)) div y) * y"

text \<open>\<open>cpus\<close> is \<open>NumPossibleCPUs\<close>, or \<^term>\<open>None\<close> when it fails.\<close>

definition calcMapValueSize :: "nat option \<Rightarrow> nat \<Rightarrow> u32 \<Rightarrow> low_error + nat" where
  "calcMapValueSize cpus valueSize mapType =
     (if valueSize = 0 then Inl Low_size
      else if mapType \<in> {MapTypePerCPUArray, MapTypePerCPUHash, MapTypeLRUPerCPUHash, MapTypePerCPUCgroupStorage}
      then (case cpus of
          None \<Rightarrow> Inl Low_cpus
        | Some numCPU \<Rightarrow> Inr (unat (roundUp (of_nat valueSize) 8) * numCPU))
      else Inr valueSize)"

text \<open>\<open>GetValueFlags\<close>; \<open>lookup\<close> is the system call on the buffer, and an empty buffer has no first byte.\<close>

definition GetValueFlags ::
  "nat option \<Rightarrow> (bytes \<Rightarrow> int + bytes) \<Rightarrow> BPFMapLow \<Rightarrow> low_error + bytes" where
  "GetValueFlags cpus lookup m =
     (case calcMapValueSize cpus (unat (info_ValueSize (low_info m))) (info_Type (low_info m)) of
        Inl e \<Rightarrow> Inl e
      | Inr valueSize \<Rightarrow>
          if valueSize = 0 then Inl Low_panic
          else (case lookup (replicate valueSize 0) of Inl e \<Rightarrow> Inl (Low_elem e) | Inr value \<Rightarrow> Inr value))"

text \<open>
  \<open>collectBatchValues\<close>: the bound of the loop is a product of 32 bits. With size 0 the bound is 0 and
  the loop does not run; the test of the size below only makes that visible.
\<close>

function collect_from :: "bytes \<Rightarrow> nat \<Rightarrow> nat \<Rightarrow> nat \<Rightarrow> low_error + bytes list" where
  "collect_from values bound valueSize i =
     (if i < bound \<and> 0 < valueSize
      then if i + valueSize \<le> length values
           then map_sum id (Cons (slice i valueSize values)) (collect_from values bound valueSize (i + valueSize))
           else Inl Low_panic
      else Inr [])"
  by auto
termination by (relation "measure (\<lambda>(_, bound, _, i). bound - i)") auto

declare collect_from.simps [simp del]

definition collectBatchValues :: "bytes \<Rightarrow> u32 \<Rightarrow> nat \<Rightarrow> low_error + bytes list" where
  "collectBatchValues values cnt valueSize =
     collect_from values (unat (cnt * of_nat valueSize)) valueSize 0"

text \<open>
  The batch operations. \<open>call\<close> is the system call: the return value, the count and, for reads, the
  buffer afterwards. The options are allocated before and freed when the operation returns.
\<close>

definition with_batch_opts ::
  "nat \<Rightarrow> heap \<Rightarrow> (low_error + 'a) \<Rightarrow> ((low_error + 'a) \<times> heap) option" where
  "with_batch_opts sizeof_opts h r = do {
     (optsC, h) \<leftarrow> cgo_bpf_map_batch_opts_new sizeof_opts 0 0 h;
     if optsC = 0 then Some (Inl Low_opts, h)
     else do { h \<leftarrow> cgo_bpf_map_batch_opts_free optsC h; Some (r, h) }
   }"

definition read_batch ::
  "nat option \<Rightarrow> nat \<Rightarrow> (bytes \<Rightarrow> u32 \<Rightarrow> int \<times> u32 \<times> bytes) \<Rightarrow> BPFMapLow \<Rightarrow> u32 \<Rightarrow> heap \<Rightarrow>
     ((low_error + bytes list) \<times> heap) option" where
  "read_batch cpus sizeof_opts call m cnt h =
     (case calcMapValueSize cpus (unat (info_ValueSize (low_info m))) (info_Type (low_info m)) of
        Inl e \<Rightarrow> Some (Inl e, h)
      | Inr valueSize \<Rightarrow>
          if valueSize * unat cnt = 0 then Some (Inl Low_panic, h)
          else (case call (replicate (valueSize * unat cnt) 0) cnt of
              (retC, countC, values) \<Rightarrow>
                with_batch_opts sizeof_opts h
                  (if retC < 0 \<and> - retC \<noteq> ENOENT_errno then Inl (Low_batch (- retC))
                   else collectBatchValues values countC valueSize)))"

definition GetValueBatch ::
  "nat option \<Rightarrow> nat \<Rightarrow> (bytes \<Rightarrow> u32 \<Rightarrow> int \<times> u32 \<times> bytes) \<Rightarrow> BPFMapLow \<Rightarrow> u32 \<Rightarrow> heap \<Rightarrow>
     ((low_error + bytes list) \<times> heap) option" where
  "GetValueBatch cpus sizeof_opts lookup_batch m cnt h = read_batch cpus sizeof_opts lookup_batch m cnt h"

definition GetValueAndDeleteBatch ::
  "nat option \<Rightarrow> nat \<Rightarrow> (bytes \<Rightarrow> u32 \<Rightarrow> int \<times> u32 \<times> bytes) \<Rightarrow> BPFMapLow \<Rightarrow> u32 \<Rightarrow> heap \<Rightarrow>
     ((low_error + bytes list) \<times> heap) option" where
  "GetValueAndDeleteBatch cpus sizeof_opts lookup_and_delete_batch m cnt h =
     read_batch cpus sizeof_opts lookup_and_delete_batch m cnt h"

text \<open>The two errors of \<open>UpdateBatch\<close> differ in their text only.\<close>

definition UpdateBatch :: "nat \<Rightarrow> (u32 \<Rightarrow> int \<times> u32) \<Rightarrow> u32 \<Rightarrow> heap \<Rightarrow> ((low_error + unit) \<times> heap) option" where
  "UpdateBatch sizeof_opts update_batch cnt h =
     (case update_batch cnt of
        (retC, countC) \<Rightarrow> with_batch_opts sizeof_opts h (if retC < 0 then Inl (Low_batch (- retC)) else Inr ()))"

definition DeleteKeyBatch :: "nat \<Rightarrow> (u32 \<Rightarrow> int \<times> u32) \<Rightarrow> u32 \<Rightarrow> heap \<Rightarrow> ((low_error + unit) \<times> heap) option" where
  "DeleteKeyBatch sizeof_opts delete_batch cnt h =
     (case delete_batch cnt of
        (retC, countC) \<Rightarrow> with_batch_opts sizeof_opts h
          (if retC < 0 \<and> - retC \<noteq> ENOENT_errno then Inl (Low_batch (- retC)) else Inr ()))"

section \<open>Refinement of the loader over ids\<close>

text \<open>
  The documented behaviour the loader relies on: a new descriptor is not in use, and the description of a map
  carries its own id. Opening a map may fail for any reason, also because too many descriptors are in use;
  \<open>can_open\<close> says which maps can be opened beside the descriptors of a table. The loader closes every
  descriptor before it opens the next, so that the table is always the one it started with.
\<close>

definition fresh_fds :: "fd_env \<Rightarrow> bool" where
  "fresh_fds E \<longleftrightarrow> (\<forall>fds i fd. sys_fd_by_id E fds i = Inr fd \<longrightarrow> fd \<notin> fst ` set fds)"

definition can_open :: "fd_env \<Rightarrow> fd_table \<Rightarrow> u32 \<Rightarrow> bool" where
  "can_open E fds i = (case sys_fd_by_id E fds i of Inl e \<Rightarrow> False | Inr fd \<Rightarrow> True)"

definition info_ids_ok :: "fd_env \<Rightarrow> ctype \<Rightarrow> bool" where
  "info_ids_ok E T \<longleftrightarrow> (\<forall>i bs. sys_info E i = Inr bs \<longrightarrow> info_ID (map_info_of T bs) = i)"

fun abs_err :: "low_error \<Rightarrow> map_error" where
  "abs_err (Low_next e) = Next_id e"
| "abs_err (Low_fd e) = Get_map"
| "abs_err (Low_info e) = Get_map"
| "abs_err Low_close = Close_map"
| "abs_err (Low_elem e) = Update_map"
| "abs_err Low_panic = Panic_slice"
| "abs_err _ = Bad_flags"

definition name_behind :: "fd_env \<Rightarrow> ctype \<Rightarrow> (u32 \<Rightarrow> bool) \<Rightarrow> u32 \<Rightarrow> string option" where
  "name_behind E T can i =
     (if can i then case sys_info E i of Inl e \<Rightarrow> None | Inr bs \<Rightarrow> Some (info_Name (map_info_of T bs)) else None)"

definition abs_env :: "fd_env \<Rightarrow> ctype \<Rightarrow> (u32 \<Rightarrow> bool) \<Rightarrow> map_env" where
  "abs_env E T can = \<lparr>
     next_id = \<lambda>k. map_sum id unat (sys_next_id E (of_nat k)),
     map_by_id = \<lambda>k. name_behind E T can (of_nat k),
     close_ok = \<lambda>k. sys_close E (of_nat k),
     elem_update = \<lambda>vals k v. case sys_update E vals k v MapFlagUpdateAny of Inl e \<Rightarrow> None | Inr vals \<Rightarrow> Some vals\<rparr>"

lemma abs_env_simps [simp]:
  "next_id (abs_env E T can) k = map_sum id unat (sys_next_id E (of_nat k))"
  "map_by_id (abs_env E T can) k = name_behind E T can (of_nat k)"
  "close_ok (abs_env E T can) k = sys_close E (of_nat k)"
  "elem_update (abs_env E T can) vals j v =
     (case sys_update E vals j v MapFlagUpdateAny of Inl e \<Rightarrow> None | Inr vals \<Rightarrow> Some vals)"
  by (simp_all add: abs_env_def)

lemma delete_fresh [simp]: "fd \<notin> fst ` set fds \<Longrightarrow> AList.delete fd fds = fds"
  by (induction fds) auto

lemma close_fd_new:
  "fd \<notin> fst ` set fds \<Longrightarrow> close_fd E fd ((fd, Map_file i) # fds) = (sys_close E i, fds)"
  "fd \<notin> fst ` set fds \<Longrightarrow> close_fd E fd ((fd, Root_dir) # fds) = (True, fds)"
  by (simp_all add: close_fd_def)

text \<open>Opening a map: it cannot be opened, it is open but its description cannot be read, or all is well.\<close>

lemma GetMapByID_cases:
  assumes "fresh_fds E" and "info_ids_ok E T"
  obtains (no_fd) e where "GetMapByID E T i fds = (Inl (Low_fd e), fds)" "name_behind E T (can_open E fds) i = None"
  | (no_info) e fd where "GetMapByID E T i fds = (Inl (Low_info e), (fd, Map_file i) # fds)"
      "name_behind E T (can_open E fds) i = None" "can_open E fds i" "sys_info E i = Inl e"
  | (opened) m where "GetMapByID E T i fds = (Inr m, (low_fd m, Map_file i) # fds)"
      "low_fd m \<notin> fst ` set fds" "name_behind E T (can_open E fds) i = Some (info_Name (low_info m))" "info_ID (low_info m) = i"
proof (cases "sys_fd_by_id E fds i")
  case (Inl e)
  then have "\<not> can_open E fds i" by (simp add: can_open_def)
  with Inl no_fd show ?thesis by (simp add: GetMapByID_def GetMapFDByID_def name_behind_def)
next
  case (Inr fd)
  then have fd: "can_open E fds i" "fd \<notin> fst ` set fds"
    using assms(1) by (simp add: can_open_def, unfold fresh_fds_def, blast)
  show ?thesis
  proof (cases "sys_info E i")
    case (Inl e)
    with Inr fd no_info show ?thesis
      by (simp add: GetMapByID_def GetMapFDByID_def GetMapInfoByFD_def info_by_fd_def name_behind_def)
  next
    case (Inr bs)
    have "GetMapByID E T i fds = (Inr \<lparr>low_fd = fd, low_info = map_info_of T bs\<rparr>, (fd, Map_file i) # fds)"
      using Inr \<open>sys_fd_by_id E fds i = Inr fd\<close>
      by (simp add: GetMapByID_def GetMapFDByID_def GetMapInfoByFD_def info_by_fd_def)
    moreover have "info_ID (map_info_of T bs) = i" using assms(2) Inr by (simp add: info_ids_ok_def)
    ultimately show ?thesis using opened [of "\<lparr>low_fd = fd, low_info = map_info_of T bs\<rparr>"] Inr fd
      by (simp add: name_behind_def)
  qed
qed

text \<open>
  The descriptors after an operation with the given error. They are those before it, but for one that is left
  open when its description cannot be read or the program panics.
\<close>

fun leaves_open :: "low_error option \<Rightarrow> bool" where
  "leaves_open (Some (Low_info e)) = True"
| "leaves_open (Some Low_panic) = True"
| "leaves_open _ = False"

definition kept :: "low_error option \<Rightarrow> fd_table \<Rightarrow> fd_table \<Rightarrow> bool" where
  "kept r fds fds' \<longleftrightarrow>
     (if leaves_open r then \<exists>fd i. fd \<notin> fst ` set fds \<and> fds' = (fd, Map_file i) # fds else fds' = fds)"

definition err_of :: "'e + 'a \<Rightarrow> 'e option" where
  "err_of r = (case r of Inl e \<Rightarrow> Some e | Inr x \<Rightarrow> None)"

lemma err_of_simps [simp]: "err_of (Inl e) = Some e" "err_of (Inr x) = None"
  by (simp_all add: err_of_def)

lemma kept_None: "kept None fds fds' \<longleftrightarrow> fds' = fds"
  by (simp add: kept_def)

lemma GetMapByID_kept:
  assumes "fresh_fds E" and "GetMapByID E T i fds = (r, fds')"
  shows "case r of Inl e \<Rightarrow> kept (Some e) fds fds'
    | Inr m \<Rightarrow> fds' = (low_fd m, Map_file i) # fds \<and> low_fd m \<notin> fst ` set fds"
proof (cases "sys_fd_by_id E fds i")
  case (Inl e)
  with assms(2) show ?thesis by (auto simp: GetMapByID_def GetMapFDByID_def kept_def)
next
  case (Inr fd)
  then have "fd \<notin> fst ` set fds" using assms(1) unfolding fresh_fds_def by blast
  with Inr assms(2) show ?thesis
    by (cases "sys_info E i") (auto simp: GetMapByID_def GetMapFDByID_def GetMapInfoByFD_def info_by_fd_def kept_def simp del: split_paired_Ex)
qed

lemma low_maps_from_kept:
  assumes "fresh_fds E" and "low_maps_from E T name start ids fds = Some y"
  shows "kept (err_of (fst y)) fds (snd y)"
proof -
  let ?P = "\<lambda>E T name start ids fds y. fresh_fds E \<longrightarrow> kept (err_of (fst y)) fds (snd y)"
  have "?P E T name start ids fds y"
  proof (rule low_maps_from.raw_induct [where P = ?P, OF _ assms(2)], intro impI)
    fix rec E T name start ids fds y
    assume rec: "\<And>E T name start ids fds y. rec E T name start ids fds = Some y \<Longrightarrow> ?P E T name start ids fds y"
      and body: "(case sys_next_id E start of
          Inl errno \<Rightarrow> Some (if errno = ENOENT_errno then Inr ids else Inl (Low_next errno), fds)
        | Inr nextId \<Rightarrow> (case GetMapByID E T nextId fds of
            (Inl e, fds) \<Rightarrow> Some (Inl e, fds)
          | (Inr m, fds) \<Rightarrow> (case close_fd E (low_fd m) fds of
              (ok, fds) \<Rightarrow> if \<not> ok then Some (Inl Low_close, fds)
                else rec E T name (nextId + 1)
                  (if info_Name (low_info m) \<noteq> name then ids else ids @ [info_ID (low_info m)]) fds))) = Some y"
      and ok: "fresh_fds E"
    show "kept (err_of (fst y)) fds (snd y)"
    proof (cases "sys_next_id E start")
      case (Inl e)
      with body show ?thesis by (cases "e = ENOENT_errno") (auto simp: kept_def)
    next
      case (Inr k)
      obtain r fds1 where g: "GetMapByID E T k fds = (r, fds1)" by fastforce
      show ?thesis
      proof (cases r)
        case r: (Inl e)
        with body Inr g GetMapByID_kept [OF ok g] show ?thesis by auto
      next
        case r: (Inr m)
        then have "fds1 = (low_fd m, Map_file k) # fds" "low_fd m \<notin> fst ` set fds"
          using GetMapByID_kept [OF ok g] by simp_all
        then have c: "close_fd E (low_fd m) fds1 = (sys_close E k, fds)" by (simp add: close_fd_new)
        show ?thesis
        proof (cases "sys_close E k")
          case True
          let ?ids = "if info_Name (low_info m) \<noteq> name then ids else ids @ [info_ID (low_info m)]"
          have "rec E T name (k + 1) ?ids fds = Some y" using body Inr g r c True by simp
          from rec [OF this] ok show ?thesis by simp
        qed (use body Inr g r c in \<open>auto simp: kept_def\<close>)
      qed
    qed
  qed
  with assms(1) show ?thesis by simp
qed

lemma low_search_kept:
  assumes "fresh_fds E" and "low_GetMapsIDsByName E T name fds = Some (r, fds')"
  shows "kept (err_of r) fds fds'"
  using low_maps_from_kept [OF assms(1), of T name 0 "[]" fds "(r, fds')"] assms(2)
  by (simp add: low_GetMapsIDsByName_def)

lemma low_update_fields_errors:
  assumes "low_update_fields E m n j fs fds st = (Some e, st')"
  shows "e = Low_panic \<or> \<not> leaves_open (Some e)"
  using assms
  by (induction fs arbitrary: j st)
    (auto simp: low_updateMap_def low_Update_def UpdateValueFlags_def split: if_splits option.splits open_file.splits sum.splits)

lemma low_populate_ids_kept:
  assumes "fresh_fds E" and "low_populate_ids E T flds n ks fds st = (e, closed, fds', st')"
  shows "kept e fds fds'"
  using assms(2)
proof (induction ks arbitrary: st closed e fds' st')
  case (Cons k ks)
  obtain r fds1 where g: "GetMapByID E T k fds = (r, fds1)" by fastforce
  show ?case
  proof (cases r)
    case (Inl x)
    with Cons.prems g GetMapByID_kept [OF assms(1) g] show ?thesis by auto
  next
    case (Inr m)
    then have m: "fds1 = (low_fd m, Map_file k) # fds" "low_fd m \<notin> fst ` set fds"
      using GetMapByID_kept [OF assms(1) g] by simp_all
    then have c: "closeMap E m fds1 = (sys_close E k, fds)" by (simp add: closeMap_def close_fd_new)
    obtain x st1 where u: "low_update_fields E m n 0 flds fds1 st = (x, st1)" by fastforce
    show ?thesis
    proof (cases x)
      case None
      obtain e2 closed2 fds2 st2 where i: "low_populate_ids E T flds n ks fds st1 = (e2, closed2, fds2, st2)"
        by (metis prod_cases4)
      with Cons.prems g Inr u None c have "e2 = e" "fds2 = fds'" by auto
      with Cons.IH [OF i] show ?thesis by simp
    next
      case (Some y)
      with Cons.prems g Inr u c have "e = Some y" "fds' = (if y = Low_panic then fds1 else fds)" by auto
      with low_update_fields_errors [OF u [unfolded Some]] m show ?thesis by (auto simp: kept_def)
    qed
  qed
qed (simp add: kept_def)

lemma low_populateBPFMap_kept:
  assumes "fresh_fds E" and "low_populateBPFMap E T name flds n fds st = Some (e, fds', st')"
  shows "kept e fds fds'"
proof (cases "low_GetMapsIDsByName E T name fds")
  case (Some y)
  obtain r fds1 where y: "y = (r, fds1)" by fastforce
  have k: "kept (err_of r) fds fds1" using low_search_kept [OF assms(1)] Some y by blast
  show ?thesis
  proof (cases r)
    case (Inr ids)
    then have "fds1 = fds" using k by (simp add: kept_None)
    obtain e2 closed fds2 st2 where p: "low_populate_ids E T flds n ids fds st = (e2, closed, fds2, st2)"
      by (metis prod_cases4)
    with low_populate_ids_kept [OF assms(1) p] assms(2) Some y Inr \<open>fds1 = fds\<close> show ?thesis
      by (cases e2) (auto simp: low_populateBPFMap_def kept_def split: if_splits)
  qed (use k Some y assms(2) in \<open>auto simp: low_populateBPFMap_def\<close>)
qed (use assms(2) in \<open>simp add: low_populateBPFMap_def\<close>)

lemma low_main_kept:
  assumes "fresh_fds E" and "low_main E T args fds st = Some (e, fds', st')"
  shows "kept e fds fds'"
proof (cases "filter_flags args")
  case (Some mp)
  obtain ms ps where mp: "mp = (ms, ps)" by fastforce
  note kept1 = low_populateBPFMap_kept [OF assms(1)]
  show ?thesis
  proof (cases "low_populateBPFMap E T ''filter_methods'' ms MaxMethodLen fds st")
    case (Some r)
    obtain e1 fds1 st1 where r: "r = (e1, fds1, st1)" by (metis prod_cases3)
    from kept1 [OF Some [unfolded r]] have k: "kept e1 fds fds1" .
    show ?thesis
    proof (cases e1)
      case None
      with k have "fds1 = fds" by (simp add: kept_None)
      with None r Some mp \<open>filter_flags args = Some mp\<close> assms(2)
      have "low_populateBPFMap E T ''filter_paths'' ps MaxPathLen fds st1 = Some (e, fds', st')"
        by (simp add: low_main_def)
      then show ?thesis by (rule kept1)
    qed (use k r Some mp \<open>filter_flags args = Some mp\<close> assms(2) in \<open>simp add: low_main_def\<close>)
  qed (use mp \<open>filter_flags args = Some mp\<close> assms(2) in \<open>simp add: low_main_def\<close>)
qed (use assms(2) in \<open>auto simp: low_main_def kept_def\<close>)

lemma of_nat_Suc_mod: "((unat i + 1) mod 2 ^ 32 :: nat) = unat (i + 1 :: u32)"
  by (simp add: unat_word_ariths)

lemma low_maps_from_sim:
  assumes "fresh_fds E" and "info_ids_ok E T" and "low_maps_from E T name start ids fds = Some y"
  shows "maps_from (abs_env E T (can_open E fds)) name (unat start) (map unat ids) =
      Some (map_sum abs_err (map unat) (fst y))"
proof -
  let ?P = "\<lambda>E T name start ids fds y. fresh_fds E \<longrightarrow> info_ids_ok E T \<longrightarrow>
    maps_from (abs_env E T (can_open E fds)) name (unat start) (map unat ids) = Some (map_sum abs_err (map unat) (fst y))"
  have "?P E T name start ids fds y"
  proof (rule low_maps_from.raw_induct [where P = ?P, OF _ assms(3)], intro impI)
    fix rec E T name start ids fds y
    assume rec: "\<And>E T name start ids fds y. rec E T name start ids fds = Some y \<Longrightarrow> ?P E T name start ids fds y"
      and body: "(case sys_next_id E start of
          Inl errno \<Rightarrow> Some (if errno = ENOENT_errno then Inr ids else Inl (Low_next errno), fds)
        | Inr nextId \<Rightarrow> (case GetMapByID E T nextId fds of
            (Inl e, fds) \<Rightarrow> Some (Inl e, fds)
          | (Inr m, fds) \<Rightarrow> (case close_fd E (low_fd m) fds of
              (ok, fds) \<Rightarrow> if \<not> ok then Some (Inl Low_close, fds)
                else rec E T name (nextId + 1)
                  (if info_Name (low_info m) \<noteq> name then ids else ids @ [info_ID (low_info m)]) fds))) = Some y"
      and ok: "fresh_fds E" "info_ids_ok E T"
    let ?goal = "maps_from (abs_env E T (can_open E fds)) name (unat start) (map unat ids) =
      Some (map_sum abs_err (map unat) (fst y))"
    show ?goal
    proof (cases "sys_next_id E start")
      case (Inl e)
      with body show ?thesis by (subst maps_from.simps) auto
    next
      case (Inr k)
      show ?thesis
      proof (rule GetMapByID_cases [OF ok, of k fds])
        fix m assume m: "GetMapByID E T k fds = (Inr m, (low_fd m, Map_file k) # fds)"
          "low_fd m \<notin> fst ` set fds" "name_behind E T (can_open E fds) k = Some (info_Name (low_info m))" "info_ID (low_info m) = k"
        show ?thesis
        proof (cases "sys_close E k")
          case True
          then have "rec E T name (k + 1) (if info_Name (low_info m) \<noteq> name then ids else ids @ [k]) fds = Some y"
            using body Inr m by (cases "info_Name (low_info m) = name") (simp_all add: close_fd_new)
          from rec [OF this] show ?thesis using True Inr m ok
            by (cases "info_Name (low_info m) = name")
              (subst maps_from.simps, simp add: of_nat_Suc_mod [simplified])+
        qed (use body Inr m in \<open>subst maps_from.simps, auto simp: close_fd_new\<close>)
      qed (use body Inr in \<open>subst maps_from.simps, auto\<close>)+
    qed
  qed
  with assms(1,2) show ?thesis by simp
qed

text \<open>The converse: when the loop over ids returns, so does the loop over descriptors.\<close>

lemma maps_from_sim:
  assumes "fresh_fds E" and "info_ids_ok E T" and "maps_from (abs_env E T (can_open E fds)) name k is = Some y"
    and "k = unat start" and "is = map unat ids"
  shows "low_maps_from E T name start ids fds \<noteq> None"
proof -
  let ?P = "\<lambda>A name k is y. \<forall>start ids. A = abs_env E T (can_open E fds) \<longrightarrow> k = unat start \<longrightarrow> is = map unat ids \<longrightarrow>
    low_maps_from E T name start ids fds \<noteq> None"
  have "?P (abs_env E T (can_open E fds)) name k is y"
  proof (rule maps_from.raw_induct [where P = ?P, OF _ assms(3)], intro allI impI)
    fix rec A name k "is" y and start :: u32 and ids :: "u32 list"
    assume rec: "\<And>A name k is y. rec A name k is = Some y \<Longrightarrow> ?P A name k is y"
      and body: "(case next_id A k of
          Inl errno \<Rightarrow> Some (if errno = ENOENT_errno then Inr is else Inl (Next_id errno))
        | Inr nextId \<Rightarrow> (case map_by_id A nextId of
            None \<Rightarrow> Some (Inl Get_map)
          | Some nm \<Rightarrow> if \<not> close_ok A nextId then Some (Inl Close_map)
              else rec A name ((nextId + 1) mod 2 ^ 32) (if nm \<noteq> name then is else is @ [nextId]))) = Some y"
      and eqs: "A = abs_env E T (can_open E fds)" "k = unat start" "is = map unat ids"
    show "low_maps_from E T name start ids fds \<noteq> None"
    proof (cases "sys_next_id E start")
      case (Inr j)
      show ?thesis
      proof (rule GetMapByID_cases [OF assms(1,2), of j fds])
        fix m assume m: "GetMapByID E T j fds = (Inr m, (low_fd m, Map_file j) # fds)"
          "low_fd m \<notin> fst ` set fds" "name_behind E T (can_open E fds) j = Some (info_Name (low_info m))" "info_ID (low_info m) = j"
        show ?thesis
        proof (cases "sys_close E j")
          case True
          let ?ids = "if info_Name (low_info m) \<noteq> name then ids else ids @ [j]"
          have "rec A name (unat (j + 1)) (map unat ?ids) = Some y"
            using body Inr m eqs True
            by (cases "info_Name (low_info m) = name") (simp_all add: of_nat_Suc_mod [simplified])
          then have "low_maps_from E T name (j + 1) ?ids fds \<noteq> None" using rec eqs(1) by blast
          then show ?thesis using Inr m True
            by (cases "info_Name (low_info m) = name") (subst low_maps_from.simps, simp add: close_fd_new)+
        qed (use Inr m in \<open>subst low_maps_from.simps, simp add: close_fd_new\<close>)
      qed (use Inr in \<open>subst low_maps_from.simps, simp\<close>)+
    qed (subst low_maps_from.simps, simp)
  qed
  with assms(4,5) show ?thesis by blast
qed

lemma low_search_refines:
  assumes "fresh_fds E" and "info_ids_ok E T"
  shows "GetMapsIDsByName (abs_env E T (can_open E fds)) name =
    map_option (\<lambda>(r, fds'). map_sum abs_err (map unat) r) (low_GetMapsIDsByName E T name fds)"
proof (cases "low_maps_from E T name 0 [] fds")
  case None
  then have "maps_from (abs_env E T (can_open E fds)) name 0 [] = None"
    using maps_from_sim [OF assms, of fds name 0 "[]" _ 0 "[]"] by fastforce
  with None show ?thesis by (simp add: GetMapsIDsByName_def low_GetMapsIDsByName_def)
next
  case (Some y)
  from low_maps_from_sim [OF assms Some] Some show ?thesis
    by (simp add: GetMapsIDsByName_def low_GetMapsIDsByName_def split: prod.splits)
qed

lemma low_update_fields_refines:
  assumes "map_of fds (low_fd m) = Some (Map_file i)"
  shows "case low_update_fields E m n j fs fds st of (e, st') \<Rightarrow>
    update_fields (abs_env E T can) n j fs (st (unat i)) = (map_option abs_err e, st' (unat i)) \<and>
    st(unat i := st' (unat i)) = st' \<and> (\<forall>x. e \<noteq> Some (Low_info x))"
proof (induction fs arbitrary: j st)
  case (Cons f fs)
  show ?case
  proof (cases "n < length f")
    case False
    show ?thesis
    proof (cases "sys_update E (st (unat i)) j (overwrite 0 (ascii f) (replicate n 0)) MapFlagUpdateAny")
      case (Inr vals)
      obtain e st' where r: "low_update_fields E m n (Suc j) fs fds (st(unat i := vals)) = (e, st')"
        by fastforce
      from Cons.IH [of "Suc j" "st(unat i := vals)", unfolded r prod.case fun_upd_upd fun_upd_same]
      show ?thesis using False assms Inr r
        by (simp add: low_updateMap_def low_Update_def UpdateValueFlags_def updateMap_def fun_upd_def)
    qed (use False assms in \<open>simp add: low_updateMap_def low_Update_def UpdateValueFlags_def updateMap_def fun_eq_iff\<close>)
  qed (simp add: low_updateMap_def updateMap_def fun_eq_iff)
qed simp

lemma low_populate_ids_refines:
  assumes "fresh_fds E" and "info_ids_ok E T"
  shows "case low_populate_ids E T flds n ks fds st of (e, closed, fds', st') \<Rightarrow>
    populate_ids (abs_env E T (can_open E fds)) flds n (map unat ks) st = (map_option abs_err e, closed, st')"
proof (induction ks arbitrary: st)
  case (Cons k ks)
  show ?case
  proof (rule GetMapByID_cases [OF assms, of k fds])
    fix m assume m: "GetMapByID E T k fds = (Inr m, (low_fd m, Map_file k) # fds)"
      "low_fd m \<notin> fst ` set fds" "name_behind E T (can_open E fds) k = Some (info_Name (low_info m))"
    let ?fds = "(low_fd m, Map_file k) # fds"
    have c: "closeMap E m ?fds = (sys_close E k, fds)" using m(2) by (simp add: closeMap_def close_fd_new)
    obtain e st' where u: "low_update_fields E m n 0 flds ?fds st = (e, st')" by fastforce
    then have a: "update_fields (abs_env E T (can_open E fds)) n 0 flds (st (unat k)) = (map_option abs_err e, st' (unat k))"
      "st(unat k := st' (unat k)) = st'"
      using low_update_fields_refines [where fds = ?fds and m = m and i = k and E = E and T = T and can = "can_open E fds"
          and n = n and j = 0 and fs = flds and st = st] by simp_all
    show ?thesis
    proof (cases e)
      case None
      with Cons.IH [of st'] a u m c show ?thesis by (auto split: prod.splits)
    next
      case (Some x)
      with a u m c show ?thesis by auto
    qed
  qed auto
qed simp

lemma low_populateBPFMap_refines:
  assumes "fresh_fds E" and "info_ids_ok E T"
  shows "populateBPFMap (abs_env E T (can_open E fds)) name flds n st =
      map_option (\<lambda>(e, fds', st'). (map_option abs_err e, st')) (low_populateBPFMap E T name flds n fds st)"
proof -
  let ?low = "low_GetMapsIDsByName E T name fds"
  have search: "GetMapsIDsByName (abs_env E T (can_open E fds)) name =
      map_option (\<lambda>(r, fds'). map_sum abs_err (map unat) r) ?low"
    by (rule low_search_refines [OF assms])
  show ?thesis
  proof (cases ?low)
    case (Some y)
    obtain r fds1 where y: "y = (r, fds1)" by fastforce
    have k: "kept (err_of r) fds fds1" using low_search_kept [OF assms(1)] Some y by blast
    show ?thesis
    proof (cases r)
      case (Inr ids)
      then have "fds1 = fds" using k by (simp add: kept_None)
      obtain e closed fds2 st2 where p: "low_populate_ids E T flds n ids fds st = (e, closed, fds2, st2)"
        by (metis prod_cases4)
      have "populate_ids (abs_env E T (can_open E fds)) flds n (map unat ids) st = (map_option abs_err e, closed, st2)"
        using low_populate_ids_refines [OF assms, where flds = flds and n = n and ks = ids and fds = fds and st = st] p
        by simp
      with \<open>fds1 = fds\<close> p search Some y Inr show ?thesis
        by (cases e) (simp_all add: populateBPFMap_def low_populateBPFMap_def)
    qed (use search Some y in \<open>auto simp: populateBPFMap_def low_populateBPFMap_def\<close>)
  qed (use search in \<open>simp add: populateBPFMap_def low_populateBPFMap_def\<close>)
qed

text \<open>
  C15: The map loader working on file descriptors and on the bytes of the map descriptions computes
  what the loader over map ids computes: it returns when that one does, with the same outcome and the
  same contents of the maps. The maps that can be opened are those the kernel opens beside the descriptors that
  were in use at the start, whatever these are.
\<close>

theorem low_main_refines:
  assumes "fresh_fds E" and "info_ids_ok E T"
  shows "filter_main (abs_env E T (can_open E fds)) args st =
    map_option (\<lambda>(e, fds', st'). (map_option abs_err e, st')) (low_main E T args fds st)"
proof (cases "filter_flags args")
  case (Some mp)
  obtain ms ps where mp: "mp = (ms, ps)" by fastforce
  note pop = low_populateBPFMap_refines [OF assms]
  show ?thesis
  proof (cases "low_populateBPFMap E T ''filter_methods'' ms MaxMethodLen fds st")
    case None
    with pop [of fds "''filter_methods''" ms MaxMethodLen st] Some mp show ?thesis
      by (simp add: filter_main_def low_main_def)
  next
    case (Some r)
    obtain e1 fds1 st1 where r: "r = (e1, fds1, st1)" by (metis prod_cases3)
    have "fds1 = fds" if "e1 = None"
      using low_populateBPFMap_kept [OF assms(1) Some [unfolded r]] that by (simp add: kept_None)
    with pop [of fds "''filter_methods''" ms MaxMethodLen st] Some r \<open>filter_flags args = Some mp\<close> mp
      pop [of fds "''filter_paths''" ps MaxPathLen st1]
    show ?thesis by (cases e1) (simp_all add: filter_main_def low_main_def)
  qed
qed (simp add: filter_main_def low_main_def)

section \<open>Decoding descriptions\<close>

text \<open>The bytes of a description, member after member, with the padding before the last one.\<close>

definition info_bytes :: "BPFMapInfo \<Rightarrow> bytes" where
  "info_bytes r = le_bytes 4 (info_Type r) @ le_bytes 4 (info_ID r) @ le_bytes 4 (info_KeySize r) @
     le_bytes 4 (info_ValueSize r) @ le_bytes 4 (info_MaxEntries r) @ le_bytes 4 (info_MapFlags r) @
     pad_to 16 (ascii (info_Name r)) @ le_bytes 4 (info_IfIndex r) @
     le_bytes 4 (info_BTFVmlinuxValueTypeID r) @ le_bytes 8 (info_NetnsDev r) @
     le_bytes 8 (info_NetnsIno r) @ le_bytes 4 (info_BTFID r) @ le_bytes 4 (info_BTFKeyTypeID r) @
     le_bytes 4 (info_BTFValueTypeID r) @ replicate 4 0 @ le_bytes 8 (info_MapExtra r)"

lemma info_field_place: "place T [n] = Some (k, w) \<Longrightarrow> info_field T n bs = le_word (slice k w bs)"
  by (simp add: info_field_def get_member_place)

lemma char_of_ascii: "map (char_of \<circ> unat) (ascii s) = s"
proof (induction s)
  case (Cons c s)
  have "unat (of_nat (of_char c) :: u8) = of_char c" by (simp add: unat_of_nat del: of_nat_of_char)
  then have "unat (of_char c :: u8) = of_char c" by (simp only: of_nat_of_char)
  with Cons show ?case by simp
qed simp

lemma go_string_info:
  assumes "length (info_Name r) < 16" and "CHR 0x00 \<notin> set (info_Name r)"
  shows "go_string bpf_map_info_amd64 ''name'' (info_bytes r) = info_Name r"
proof -
  obtain rest where "drop 24 (info_bytes r) = pad_to 16 (ascii (info_Name r)) @ rest"
    by (simp add: info_bytes_def)
  moreover have "pad_to 16 (ascii (info_Name r)) @ rest =
      ascii (info_Name r) @ 0 # replicate (15 - length (info_Name r)) 0 @ rest"
    using assms(1) by (simp add: pad_to_short Suc_diff_Suc [symmetric] flip: replicate_Suc) 
  ultimately show ?thesis
    by (simp add: go_string_def layout_simps c_str_terminated [OF ascii_no_nul [OF assms(2)]] char_of_ascii)
qed

lemma map_info_of_bytes:
  assumes "length (info_Name r) < 16" and "CHR 0x00 \<notin> set (info_Name r)"
  shows "map_info_of bpf_map_info_amd64 (info_bytes r) = r"
  by (simp add: map_info_of_def go_string_info [OF assms])
     (simp add: info_field_place place_def layout_simps info_bytes_def slice_append_left
       slice_append_right slice_all le_word_le_bytes)

text \<open>
  What \<open>GetMapInfoByFD\<close> makes of the bytes of \<open>struct bpf_map_info\<close> are the members the kernel
  stored: every field of the Go structure comes from its namesake, at the offset of the header, and the
  name is the text before its terminating NUL.
\<close>

theorem GetMapInfoByFD_roundtrip:
  assumes "map_of fds fd = Some (Map_file i)" and "sys_info E i = Inr (info_bytes r)"
    and "length (info_Name r) < 16" and "CHR 0x00 \<notin> set (info_Name r)"
  shows "GetMapInfoByFD E bpf_map_info_amd64 fd fds = Inr r"
  using map_info_of_bytes [OF assms(3,4)] assms(1,2) by (simp add: GetMapInfoByFD_def info_by_fd_def)

definition sample_info :: "u32 \<Rightarrow> string \<Rightarrow> BPFMapInfo" where
  "sample_info i name = \<lparr>info_Type = 2, info_ID = i, info_KeySize = 4, info_ValueSize = 90, info_MaxEntries = 20,
     info_MapFlags = 0, info_Name = name, info_IfIndex = 0, info_BTFVmlinuxValueTypeID = 0, info_NetnsDev = 0,
     info_NetnsIno = 0, info_BTFID = 7, info_BTFKeyTypeID = 0, info_BTFValueTypeID = 0, info_MapExtra = 0\<rparr>"

text \<open>
  A kernel with the two maps of the filters, under the ids 3 and 5; with \<open>broken\<close> the descriptions
  cannot be read.
\<close>

definition sample_kernel :: "bool \<Rightarrow> fd_env" where
  "sample_kernel broken = \<lparr>
     sys_next_id = \<lambda>k. if k < 3 then Inr 3 else if k < 5 then Inr 5 else Inl ENOENT_errno,
     sys_fd_by_id = \<lambda>fds i. if i = 3 \<or> i = 5 then Inr (Suc (foldr max (map fst fds) 2)) else Inl ENOENT_errno,
     sys_info = \<lambda>i. if broken then Inl EINVAL_errno
       else if i = 3 then Inr (info_bytes (sample_info 3 ''filter_methods''))
       else if i = 5 then Inr (info_bytes (sample_info 5 ''filter_paths'')) else Inl EBADF_errno,
     sys_close = \<lambda>i. True,
     sys_update = \<lambda>vals k v flags. if k < length vals then Inr (vals[k := v]) else Inl 7,
     sys_create = \<lambda>fds ty name ks vs n opts. Inr (Suc (foldr max (map fst fds) 2), 3),
     sys_open_root = \<lambda>fds. Inr (Suc (foldr max (map fst fds) 2)),
     sys_dup3 = \<lambda>fd newFD. None\<rparr>"

lemma foldr_max_fresh: "Suc (foldr max (map fst fds) n) \<notin> fst ` set (fds :: (nat \<times> 'b) list)"
proof -
  have "k \<le> foldr max (map fst fds) n" if "k \<in> fst ` set fds" for k using that
    by (induction fds) (force simp: le_max_iff_disj)+
  then show ?thesis using not_less_eq_eq by blast
qed

lemma map_info_sample:
  "length name < 16 \<Longrightarrow> CHR 0x00 \<notin> set name \<Longrightarrow>
     map_info_of bpf_map_info_amd64 (info_bytes (sample_info i name)) = sample_info i name"
  by (rule map_info_of_bytes) (simp_all add: sample_info_def)

lemma sample_kernel_ok:
  "fresh_fds (sample_kernel b)" "info_ids_ok (sample_kernel b) bpf_map_info_amd64"
  by (auto simp: fresh_fds_def info_ids_ok_def sample_kernel_def foldr_max_fresh map_info_sample split: if_splits)
    (simp_all add: sample_info_def)

theorem GetMapInfoByFD_roundtrip_witness:
  "GetMapInfoByFD (sample_kernel False) bpf_map_info_amd64 4 [(4, Map_file 3)] =
     Inr (sample_info 3 ''filter_methods'')"
  by (rule GetMapInfoByFD_roundtrip [where i = 3]) (simp_all add: sample_kernel_def sample_info_def)

theorem low_main_refines_witness:
  "(\<forall>i. can_open (sample_kernel False) [(0, Root_dir)] i \<longleftrightarrow> i = 3 \<or> i = 5) \<and>
   filter_main (abs_env (sample_kernel False) bpf_map_info_amd64 (can_open (sample_kernel False) [(0, Root_dir)]))
       [''--path'', ''/api''] (\<lambda>k. replicate 20 []) =
     map_option (\<lambda>(e, fds', st'). (map_option abs_err e, st'))
       (low_main (sample_kernel False) bpf_map_info_amd64 [''--path'', ''/api''] [(0, Root_dir)] (\<lambda>k. replicate 20 []))"
  by (rule conjI, simp add: can_open_def sample_kernel_def) (rule low_main_refines [OF sample_kernel_ok])

section \<open>Descriptors and memory that remain\<close>

text \<open>
  C16: The descriptors the map loader leaves open, on every path and also when no further descriptor can be
  had: those that were open before, and exactly one more, of a map, when the description of a map that was
  opened cannot be read or a field does not fit its entry and the program panics. After every other outcome,
  success or error, there is none.
\<close>

theorem low_main_no_leak:
  assumes "fresh_fds E" and "low_main E T args fds st = Some (e, fds', st')"
  shows "if e = Some Low_panic \<or> (\<exists>x. e = Some (Low_info x))
    then \<exists>fd i. fd \<notin> fst ` set fds \<and> fds' = (fd, Map_file i) # fds else fds' = fds"
proof -
  have "leaves_open e \<longleftrightarrow> e = Some Low_panic \<or> (\<exists>x. e = Some (Low_info x))"
    by (cases e rule: leaves_open.cases) auto
  then show ?thesis using low_main_kept [OF assms] by (simp add: kept_def)
qed

text \<open>
  When the description of a map cannot be read, \<open>GetMapByID\<close> returns an error and the descriptor
  it has opened stays open: the caller does not get to know it. \<open>CreateMap\<close> closes the descriptor in
  the same situation.
\<close>

theorem GetMapByID_leaks:
  assumes "sys_fd_by_id E fds i = Inr fd" and "sys_info E i = Inl e"
    and "sys_create E fds ty name ks vs n opts = Inr (fd, i)" and "fd \<notin> fst ` set fds"
  shows "GetMapByID E T i fds = (Inl (Low_info e), (fd, Map_file i) # fds) \<and>
    create_map_fd E T ty name ks vs n opts fds = (Inl (Low_info e), fds)"
  using assms by (simp add: GetMapByID_def GetMapFDByID_def GetMapInfoByFD_def info_by_fd_def
      create_map_fd_def close_fd_new)

lemma free_new:
  assumes "alloc x h = (p, h1)" and "heap_wf h" and "p \<noteq> 0" and "live h2 = live h1"
  shows "\<exists>h3. free p h2 = Some h3 \<and> live h3 = live h"
proof -
  have "p = next_ptr h" "live h1 = (live h)(p \<mapsto> x)"
    using assms(1,3) by (auto simp: alloc_def Let_def split: if_splits)
  moreover have "live h (next_ptr h) = None"
    using assms(2) by (cases "live h (next_ptr h)") (auto simp: heap_wf_def)
  ultimately show ?thesis using assms(3,4) by (auto simp: free_def)
qed

lemma heap_wf_alloc: "heap_wf h \<Longrightarrow> alloc x h = (p, h1) \<Longrightarrow> heap_wf h1"
  by (auto simp: alloc_def Let_def heap_wf_def less_Suc_eq split: if_splits)

lemma alloc_null: "alloc x h = (0, h1) \<Longrightarrow> heap_wf h \<Longrightarrow> live h1 = live h"
  by (auto simp: alloc_def Let_def heap_wf_def split: if_splits)

text \<open>An option object that is made and freed leaves the heap as it was.\<close>

lemma owned_free:
  fixes h h' :: heap
  assumes "live h' = live h ++ m" and "dom m \<inter> dom (live h) = {}" and "owns fr p m"
  shows "\<exists>h2. fr p h' = Some h2 \<and> live h2 = live h"
proof -
  have "m \<subseteq>\<^sub>m live h'" using assms(1) by simp
  then obtain h2 where "fr p h' = Some h2" "live h2 = live h' |` (- dom m)"
    using assms(3) by (auto simp: owns_def)
  moreover have "live h' |` (- dom m) = live h"
    using assms(1,2) by (intro restrict_added) (auto simp: map_le_def map_add_def dom_def disjoint_iff split: option.splits)
  ultimately show ?thesis by auto
qed

lemma null_owned:
  fixes h h' :: heap
  assumes "live h' = live h ++ m" and "dom m \<inter> dom (live h) = {}" and "owns free 0 m"
  shows "live h' = live h"
  using owned_free [OF assms] by (auto simp: free_def)

lemma create_map_fd_table:
  assumes "\<And>fd i. sys_create E fds ty nm ks vs n obj = Inr (fd, i) \<Longrightarrow> fd \<notin> fst ` set fds"
  shows "case create_map_fd E T ty nm ks vs n obj fds of (r, fds') \<Rightarrow> (case r of Inl e \<Rightarrow> fds' = fds
     | Inr m \<Rightarrow> low_fd m \<notin> fst ` set fds \<and> (\<exists>i. fds' = (low_fd m, Map_file i) # fds))"
proof (cases "sys_create E fds ty nm ks vs n obj")
  case (Inr b)
  obtain fd i where b: "b = (fd, i)" by fastforce
  with assms Inr have "fd \<notin> fst ` set fds" by blast
  with Inr b show ?thesis
    by (cases "sys_info E i") (simp_all add: create_map_fd_def GetMapInfoByFD_def info_by_fd_def close_fd_new)
qed (simp add: create_map_fd_def)

text \<open>
  C22: Creating a map leaks nothing on any path: the C string and the options are freed, also when
  memory runs out, and the table of descriptors changes by exactly the descriptor of the map returned.
\<close>

theorem CreateMap_no_leak:
  assumes "heap_wf h" and "\<forall>fds ty name ks vs n opts fd i. sys_create E fds ty name ks vs n opts = Inr (fd, i) \<longrightarrow>
      fd \<notin> fst ` set fds"
  shows "\<exists>r fds' h'. CreateMap E T sz ty name ks vs n opts fds h = Some (r, fds', h') \<and> live h' = live h \<and>
    (case r of Inl e \<Rightarrow> fds' = fds
     | Inr m \<Rightarrow> low_fd m \<notin> fst ` set fds \<and> (\<exists>i. fds' = (low_fd m, Map_file i) # fds))"
proof -
  let ?Q = "\<lambda>r fds'. case r of Inl e \<Rightarrow> fds' = fds
     | Inr m \<Rightarrow> low_fd m \<notin> fst ` set fds \<and> (\<exists>i. fds' = (low_fd m, Map_file i) # fds)"
  have q: "case create_map_fd E T ty nm ks' vs' n' obj fds of (r, fds') \<Rightarrow> ?Q r fds'" for nm ks' vs' n' obj
    by (rule create_map_fd_table) (use assms(2) in blast)
  obtain p h1 where a: "alloc (Buf (ascii name @ [0])) h = (p, h1)" by fastforce
  show ?thesis
  proof (cases "p = 0")
    case True
    with a alloc_null [of _ h h1] assms(1) show ?thesis by (simp add: CreateMap_def)
  next
    case False
    note freed = free_new [OF a assms(1) False]
    show ?thesis
    proof (cases opts)
      case None
      obtain r fds' where c: "create_map_fd E T ty (live h1 p) (of_int ks) (of_int vs) (of_int n) None fds = (r, fds')"
        by fastforce
      with q [of "live h1 p" "of_int ks" "of_int vs" "of_int n" None] freed [of h1] a False None show ?thesis
        by (auto simp: CreateMap_def)
    next
      case (Some t)
      obtain t1 t2 t3 t4 t5 t6 t7 t8 t9 where t: "t = (t1, t2, t3, t4, t5, t6, t7, t8, t9)" by (cases t) auto
      obtain po h2 m where o: "cgo_bpf_map_create_opts_new sz t1 t2 t3 t4 t5 t6 t7 t8 t9 h1 = Some (po, h2)"
        "live h2 = live h1 ++ m" "dom m \<inter> dom (live h1) = {}" "owns cgo_bpf_map_create_opts_free po m"
        using create_opts.new_owns [OF heap_wf_alloc [OF assms(1) a]] by blast
      have fr: "cgo_bpf_map_create_opts_free = free" by (intro ext) (rule cgo_bpf_map_create_opts_free_def)
      show ?thesis
      proof (cases "po = 0")
        case True
        with null_owned [OF o(2,3)] o(4) have "live h2 = live h1" by (simp add: fr)
        with freed [of h2] a False Some t o(1) True show ?thesis by (auto simp: CreateMap_def)
      next
        case po: False
        obtain h3 where h3: "cgo_bpf_map_create_opts_free po h2 = Some h3" "live h3 = live h1"
          using owned_free [OF o(2-4)] by blast
        obtain r fds' where
          c: "create_map_fd E T ty (live h2 p) (of_int ks) (of_int vs) (of_int n) (live h2 po) fds = (r, fds')"
          by fastforce
        with q [of "live h2 p" "of_int ks" "of_int vs" "of_int n" "live h2 po"] freed [OF h3(2)] a False Some t o(1) po h3
        show ?thesis by (auto simp: CreateMap_def)
      qed
    qed
  qed
qed

lemma sample_GetMapByID:
  "i = 3 \<or> i = 5 \<Longrightarrow> GetMapByID (sample_kernel False) bpf_map_info_amd64 i [(0, Root_dir)] =
     (Inr \<lparr>low_fd = 3, low_info = sample_info i (if i = 3 then ''filter_methods'' else ''filter_paths'')\<rparr>, [(3, Map_file i), (0, Root_dir)])"
  by (auto simp: GetMapByID_def GetMapFDByID_def GetMapInfoByFD_def info_by_fd_def sample_kernel_def map_info_sample)

lemma sample_kernel_simps:
  "sys_close (sample_kernel b) i"
  "sys_update (sample_kernel b) vals k v flags = (if k < length vals then Inr (vals[k := v]) else Inl 7)"
  "sys_next_id (sample_kernel b) 0 = Inr 3" "sys_next_id (sample_kernel b) 4 = Inr 5"
  "sys_next_id (sample_kernel b) 6 = Inl ENOENT_errno"
  by (simp_all add: sample_kernel_def)

lemma sample_search:
  "low_GetMapsIDsByName (sample_kernel False) bpf_map_info_amd64 name [(0, Root_dir)] =
     Some (Inr (if name = ''filter_methods'' then [3] else if name = ''filter_paths'' then [5] else []), [(0, Root_dir)])"
  unfolding low_GetMapsIDsByName_def
  by (subst low_maps_from.simps, subst low_maps_from.simps, subst low_maps_from.simps)
    (auto simp: sample_kernel_simps sample_GetMapByID close_fd_def sample_info_def)

theorem low_main_no_leak_witness:
  "(\<exists>e fds' st'. low_main (sample_kernel False) bpf_map_info_amd64 [''--path'', ''/api''] [(0, Root_dir)]
       (\<lambda>k. replicate 20 (replicate 90 0)) = Some (e, fds', st') \<and> e = None \<and> fds' = [(0, Root_dir)]) \<and>
   (\<exists>fd i. low_main (sample_kernel True) bpf_map_info_amd64 [''--path'', ''/api''] [(0, Root_dir)] (\<lambda>k. []) =
       Some (Some (Low_info 22), (fd, Map_file i) # [(0, Root_dir)], \<lambda>k. []))"
proof
  let ?E = "sample_kernel False" and ?st = "\<lambda>k. replicate 20 (replicate 90 0) :: bytes list"
  note sample = sample_search sample_kernel_simps sample_GetMapByID closeMap_def close_fd_def
  have "low_populateBPFMap ?E bpf_map_info_amd64 ''filter_methods'' [] MaxMethodLen [(0, Root_dir)] ?st =
      Some (None, [(0, Root_dir)], ?st)"
    by (simp add: low_populateBPFMap_def sample)
  moreover have "\<exists>st'. low_populateBPFMap ?E bpf_map_info_amd64 ''filter_paths'' [''/api''] MaxPathLen [(0, Root_dir)] ?st =
      Some (None, [(0, Root_dir)], st')"
    by (simp add: low_populateBPFMap_def sample low_updateMap_def low_Update_def UpdateValueFlags_def MaxPathLen_def)
  ultimately have "\<exists>st'. low_main ?E bpf_map_info_amd64 [''--path'', ''/api''] [(0, Root_dir)] ?st = Some (None, [(0, Root_dir)], st')"
    by (simp add: low_main_def filter_flags_def)
  then obtain fds' st' where r: "low_main ?E bpf_map_info_amd64 [''--path'', ''/api''] [(0, Root_dir)] ?st = Some (None, fds', st')"
    by blast
  from low_main_no_leak [OF sample_kernel_ok(1) r] r
  show "\<exists>e fds' st'. low_main ?E bpf_map_info_amd64 [''--path'', ''/api''] [(0, Root_dir)] ?st = Some (e, fds', st') \<and>
      e = None \<and> fds' = [(0, Root_dir)]" by auto
next
  let ?E = "sample_kernel True"
  have "low_GetMapsIDsByName ?E bpf_map_info_amd64 ''filter_methods'' [(0, Root_dir)] =
      Some (Inl (Low_info 22), [(3, Map_file 3), (0, Root_dir)])"
    unfolding low_GetMapsIDsByName_def
    by (subst low_maps_from.simps) (simp add: sample_kernel_simps,
        simp add: GetMapByID_def GetMapFDByID_def GetMapInfoByFD_def info_by_fd_def sample_kernel_def EINVAL_errno_def)
  then obtain fds' where r: "low_main ?E bpf_map_info_amd64 [''--path'', ''/api''] [(0, Root_dir)] (\<lambda>k. []) =
      Some (Some (Low_info 22), fds', \<lambda>k. [])"
    by (simp add: low_main_def filter_flags_def low_populateBPFMap_def)
  from low_main_no_leak [OF sample_kernel_ok(1) r] r
  show "\<exists>fd i. low_main ?E bpf_map_info_amd64 [''--path'', ''/api''] [(0, Root_dir)] (\<lambda>k. []) =
      Some (Some (Low_info 22), (fd, Map_file i) # [(0, Root_dir)], \<lambda>k. [])" by auto
qed

theorem GetMapByID_leaks_witness:
  "GetMapByID (sample_kernel True) bpf_map_info_amd64 3 [(0, Root_dir)] =
     (Inl (Low_info 22), [(3, Map_file 3), (0, Root_dir)]) \<and>
   create_map_fd (sample_kernel True) bpf_map_info_amd64 2 None 4 90 20 None [(0, Root_dir)] =
     (Inl (Low_info 22), [(0, Root_dir)])"
  by (rule GetMapByID_leaks) (simp_all add: sample_kernel_def EINVAL_errno_def)

theorem CreateMap_no_leak_witness:
  "\<exists>r fds' h'. CreateMap (sample_kernel True) bpf_map_info_amd64 72 2 ''filter_paths'' 4 90 20
      (Some (0, 0, 0, 0, 0, 0, 0, 0, 0)) [(0, Root_dir)] (empty_heap (\<lambda>k. k = 2)) = Some (r, fds', h') \<and>
    live h' = Map.empty \<and>
    (case r of Inl e \<Rightarrow> fds' = [(0, Root_dir)]
     | Inr m \<Rightarrow> low_fd m \<notin> fst ` set [(0, Root_dir)] \<and> (\<exists>i. fds' = [(low_fd m, Map_file i), (0, Root_dir)]))"
proof -
  have "\<forall>fds ty name ks vs n opts fd i. sys_create (sample_kernel True) fds ty name ks vs n opts = Inr (fd, i) \<longrightarrow>
      fd \<notin> fst ` set fds"
    by (auto simp: sample_kernel_def foldr_max_fresh)
  from CreateMap_no_leak [OF empty_heap_wf [of "\<lambda>k. k = 2"] this, of bpf_map_info_amd64 72 2 "''filter_paths''" 4 90 20
      "Some (0, 0, 0, 0, 0, 0, 0, 0, 0)" "[(0, Root_dir)]"]
  show ?thesis by (simp add: empty_heap_def)
qed

lemma length_delete_present:
  "distinct (map fst al) \<Longrightarrow> map_of al k = Some v \<Longrightarrow> length al = Suc (length (AList.delete k al))"
proof (induction al)
  case (Cons a al)
  show ?case
  proof (cases "fst a = k")
    case True
    with Cons.prems(1) have "k \<notin> fst ` set al" by auto
    with True show ?thesis by (cases a) simp
  qed (use Cons in \<open>cases a, auto\<close>)
qed simp

text \<open>
  After \<open>ReuseFD\<close> has succeeded the map object refers to the file of the given descriptor, its own
  former descriptor is closed and as many descriptors are open as before. After a failure the object is
  unchanged and so are the descriptors, unless closing the former descriptor reported the error.
\<close>

theorem ReuseFD_descriptors:
  assumes "distinct (map fst fds)" and "map_of fds (low_fd m) = Some f"
    and "\<And>newFD. sys_open_root E fds = Inr newFD \<Longrightarrow> newFD \<notin> fst ` set fds"
  shows "case ReuseFD E T m fd fds of
      (None, m', fds') \<Rightarrow> map_of fds' (low_fd m') = map_of fds fd \<and> map_of fds' (low_fd m) = None \<and>
        length fds' = length fds \<and> GetMapInfoByFD E T fd fds = Inr (low_info m')
    | (Some e, m', fds') \<Rightarrow> m' = m \<and> (fds' = fds \<or> e = Low_close \<and> fds' = AList.delete (low_fd m) fds)"
proof (cases "\<exists>info newFD. GetMapInfoByFD E T fd fds = Inr info \<and> sys_open_root E fds = Inr newFD")
  case True
  then obtain info newFD where i: "GetMapInfoByFD E T fd fds = Inr info" "sys_open_root E fds = Inr newFD" by blast
  have new: "newFD \<notin> fst ` set fds" using assms(3) i(2) by blast
  obtain j where j: "map_of fds fd = Some (Map_file j)"
    using i(1) by (auto simp: GetMapInfoByFD_def info_by_fd_def split: option.splits open_file.splits)
  have ne: "fd \<noteq> newFD" "low_fd m \<noteq> newFD"
    using new j assms(2) by (auto dest!: map_of_SomeD simp: image_iff)
  have len: "length fds = Suc (length (AList.delete (low_fd m) fds))"
    using assms(1,2) by (rule length_delete_present)
  have new': "newFD \<notin> fst ` set (AList.delete (low_fd m) fds)"
    using new by (auto simp: AList.delete_eq)
  show ?thesis
  proof (cases "sys_dup3 E fd newFD")
    case (Some e)
    with i new show ?thesis by (simp add: ReuseFD_def close_fd_new)
  next
    case None
    have gone: "map_of (AList.delete (low_fd m) fds) (low_fd m) = None" by (simp add: delete_conv)
    obtain ok where c: "close_fd E (low_fd m) ((newFD, Map_file j) # fds) =
        (ok, (newFD, Map_file j) # AList.delete (low_fd m) fds)"
      using assms(2) ne by (cases f) (auto simp: close_fd_def)
    show ?thesis
      by (cases ok) (use i None new new' ne j c len gone in \<open>simp_all add: ReuseFD_def close_fd_new\<close>)
  qed
qed (auto simp: ReuseFD_def split: sum.splits)

theorem ReuseFD_descriptors_witness:
  "case ReuseFD (sample_kernel False) bpf_map_info_amd64 \<lparr>low_fd = 5, low_info = sample_info 5 ''filter_paths''\<rparr> 4
      [(4, Map_file 3), (5, Map_file 5)] of
      (None, m', fds') \<Rightarrow> map_of fds' (low_fd m') = Some (Map_file 3) \<and> map_of fds' 5 = None \<and>
        length fds' = 2 \<and> Inr (sample_info 3 ''filter_methods'') = (Inr (low_info m') :: low_error + BPFMapInfo)
    | (Some e, m', fds') \<Rightarrow> False"
proof -
  let ?E = "sample_kernel False" and ?m = "\<lparr>low_fd = 5, low_info = sample_info 5 ''filter_paths''\<rparr>"
    and ?fds = "[(4, Map_file 3), (5, Map_file 5)]"
  have info: "GetMapInfoByFD ?E bpf_map_info_amd64 4 ?fds = Inr (sample_info 3 ''filter_methods'')"
    by (simp add: GetMapInfoByFD_def info_by_fd_def sample_kernel_def map_info_sample)
  have open_root: "sys_open_root ?E ?fds = Inr 6" by (simp add: sample_kernel_def)
  have "fst (ReuseFD ?E bpf_map_info_amd64 ?m 4 ?fds) = None"
    unfolding ReuseFD_def info open_root by (simp add: sample_kernel_def close_fd_def)
  with ReuseFD_descriptors [of ?fds ?m "Map_file 5" ?E 4 bpf_map_info_amd64] info open_root
  show ?thesis by (auto split: prod.splits option.splits)
qed

section \<open>Values\<close>

text \<open>
  Rounding up gives the least multiple that is not below the argument, as long as the sum does not
  wrap.
\<close>

theorem roundUp_least:
  assumes "0 < y" and "unat x + unat y \<le> 2 ^ 64"
  shows "unat y dvd unat (roundUp x y)" and "unat x \<le> unat (roundUp x y)"
    and "\<And>k. unat y dvd k \<Longrightarrow> unat x \<le> k \<Longrightarrow> unat (roundUp x y) \<le> k"
proof -
  let ?x = "unat x" and ?y = "unat y"
  have y: "0 < ?y" using assms(1) by (simp add: word_less_nat_alt)
  have s: "unat (x + (y - 1)) = ?x + ?y - 1"
  proof -
    have "unat (y - 1) = ?y - 1" using y by (simp add: unat_sub word_le_nat_alt)
    then show ?thesis using assms(2) y by (subst unat_add_lem [THEN iffD1]) auto
  qed
  have "(?x + ?y - 1) div ?y * ?y \<le> ?x + ?y - 1" by (rule div_times_less_eq_dividend)
  also have "\<dots> < 2 ^ LENGTH(64)" using assms(2) y by simp
  finally have "unat ((x + (y - 1)) div y) * ?y < 2 ^ LENGTH(64)" by (simp only: unat_div s)
  then have eq: "unat (roundUp x y) = (?x + ?y - 1) div ?y * ?y"
    unfolding roundUp_def unat_mult_lem by (simp add: unat_div s)
  show "?y dvd unat (roundUp x y)" by (simp add: eq)
  have m: "(?x + ?y - 1) div ?y * ?y + (?x + ?y - 1) mod ?y = ?x + ?y - 1" by (rule div_mult_mod_eq)
  moreover have "(?x + ?y - 1) mod ?y < ?y" using y by simp
  ultimately show le: "?x \<le> unat (roundUp x y)" unfolding eq by linarith
  show "unat (roundUp x y) \<le> k" if d: "?y dvd k" and le: "?x \<le> k" for k
  proof -
    obtain c where c: "k = ?y * c" using d by (auto simp: dvd_def)
    have "?x + ?y - 1 < ?y * c + ?y" using le c y by linarith
    then have "(?x + ?y - 1) div ?y < c + 1" using y by (simp add: less_mult_imp_div_less algebra_simps)
    then show ?thesis unfolding eq c by (simp add: mult.commute)
  qed
qed

lemma collect_from_chunks:
  assumes "0 < n" and "c * n \<le> length values" and "k \<le> c"
  shows "collect_from values (c * n) n (k * n) = Inr (map (\<lambda>j. slice (j * n) n values) [k..<c])"
  using assms(3)
proof (induction "c - k" arbitrary: k)
  case 0
  then show ?case by (subst collect_from.simps) simp
next
  case (Suc d)
  then have "Suc k \<le> c" by simp
  then have "Suc k * n \<le> c * n" by (rule mult_le_mono1)
  moreover from this have "k * n < c * n" "k * n + n \<le> length values"
    using assms(1,2) \<open>Suc k \<le> c\<close> by simp_all
  moreover have "collect_from values (c * n) n (Suc k * n) = Inr (map (\<lambda>j. slice (j * n) n values) [Suc k..<c])"
    by (rule Suc.hyps(1)) (use Suc.hyps(2) in simp_all)
  moreover have "[k..<c] = k # [Suc k..<c]" using \<open>Suc k \<le> c\<close> by (simp add: upt_conv_Cons)
  ultimately show ?case using assms(1) by (subst collect_from.simps) (simp add: add.commute)
qed

text \<open>
  Collecting a batch: when the product of count and size fits in 32 bits, the result are the values
  in order, one per element the kernel reports, and together they are what the kernel wrote. When the
  product is \<open>2 ^ 32\<close> the bound of the loop is 0 and all values are lost.
\<close>

theorem collectBatchValues_chunks:
  assumes "0 < n" and "n < 2 ^ 32" and "unat c * n \<le> length values"
  shows "(unat c * n < 2 ^ 32 \<longrightarrow>
      collectBatchValues values c n = Inr (map (\<lambda>j. slice (j * n) n values) [0..<unat c])) \<and>
    (unat c * n = 2 ^ 32 \<longrightarrow> collectBatchValues values c n = Inr [])"
proof -
  have u: "unat (c * of_nat n) = unat c * n mod 2 ^ 32"
    using assms(2) by (simp add: unat_word_ariths unat_of_nat)
  have "collectBatchValues values c n = Inr (map (\<lambda>j. slice (j * n) n values) [0..<unat c])"
    if "unat c * n < 2 ^ 32"
    using collect_from_chunks [OF assms(1,3), of 0] u that by (simp add: collectBatchValues_def)
  moreover have "collectBatchValues values c n = Inr []" if "unat c * n = 2 ^ 32"
    unfolding collectBatchValues_def u that by (subst collect_from.simps) simp
  ultimately show ?thesis by blast
qed

theorem collectBatchValues_chunks_witness:
  "collectBatchValues [1, 2, 3, 4, 5, 6] 2 3 = Inr [[1, 2, 3], [4, 5, 6]] \<and>
   collectBatchValues (replicate (2 ^ 32) 7) 65536 65536 = Inr []"
proof
  show "collectBatchValues [1, 2, 3, 4, 5, 6] 2 3 = Inr [[1, 2, 3], [4, 5, 6]]"
    using collectBatchValues_chunks [of 3 2 "[1, 2, 3, 4, 5, 6]"] by (simp add: slice_def upt_rec)
  show "collectBatchValues (replicate (2 ^ 32) 7) 65536 65536 = Inr []"
    using collectBatchValues_chunks [of 65536 65536 "replicate (2 ^ 32) 7"] by simp
qed

text \<open>Options made and freed around a batch operation.\<close>

lemma with_batch_opts_freed:
  assumes "heap_wf h"
  shows "\<exists>r' h'. with_batch_opts sz h r = Some (r', h') \<and> live h' = live h"
proof -
  obtain p h1 m where o: "cgo_bpf_map_batch_opts_new sz 0 0 h = Some (p, h1)" "live h1 = live h ++ m"
    "dom m \<inter> dom (live h) = {}" "owns cgo_bpf_map_batch_opts_free p m"
    using batch_opts.new_owns [OF assms] by blast
  have fr: "cgo_bpf_map_batch_opts_free = free" by (intro ext) (rule cgo_bpf_map_batch_opts_free_def)
  show ?thesis
  proof (cases "p = 0")
    case True
    with null_owned [OF o(2,3)] o(1,4) show ?thesis by (simp add: with_batch_opts_def fr)
  next
    case False
    with owned_free [OF o(2-4)] o(1) show ?thesis by (auto simp: with_batch_opts_def)
  qed
qed

text \<open>
  The batch operations free the options they allocate on every path, also when the allocation or the
  system call fails.
\<close>

theorem batch_ops_no_leak:
  assumes "heap_wf h"
  shows "(\<exists>r h'. GetValueBatch cpus sz rd m c h = Some (r, h') \<and> live h' = live h) \<and>
    (\<exists>r h'. GetValueAndDeleteBatch cpus sz rd m c h = Some (r, h') \<and> live h' = live h) \<and>
    (\<exists>r h'. UpdateBatch sz wr c h = Some (r, h') \<and> live h' = live h) \<and>
    (\<exists>r h'. DeleteKeyBatch sz wr c h = Some (r, h') \<and> live h' = live h)"
  by (auto simp: GetValueBatch_def GetValueAndDeleteBatch_def read_batch_def UpdateBatch_def DeleteKeyBatch_def
      with_batch_opts_freed [OF assms] split: sum.splits prod.splits)

theorem batch_ops_no_leak_witness:
  "\<exists>r h'. UpdateBatch 24 (\<lambda>c. (-14, 0)) 3 (empty_heap (\<lambda>k. k = 1)) = Some (r, h') \<and> live h' = Map.empty"
  using batch_ops_no_leak [OF empty_heap_wf [of "\<lambda>k. k = 1"], of _ 24 _ _ 3 "\<lambda>c. (-14, 0)"]
  by (simp add: empty_heap_def)

text \<open>
  The map types of libbpfgo are those of the kernel, number by number and with the kernel's names;
  of the update flags the first three are, while \<open>MapFlagFLock\<close>, counted as 3, is none of the kernel's
  flags: its lock flag is 4.
\<close>

theorem map_constants_agree:
  "map prod.swap mapTypeToString = bpf_map_type_amd64 \<and>
   map_of bpf_update_flags_amd64 ''BPF_ANY'' = Some MapFlagUpdateAny \<and>
   map_of bpf_update_flags_amd64 ''BPF_NOEXIST'' = Some MapFlagUpdateNoExist \<and>
   map_of bpf_update_flags_amd64 ''BPF_EXIST'' = Some MapFlagUpdateExist \<and>
   map_of bpf_update_flags_amd64 ''BPF_F_LOCK'' \<noteq> Some MapFlagFLock \<and>
   MapFlagFLock \<notin> snd ` set bpf_update_flags_amd64 \<and>
   bpf_update_flags_aarch64 = bpf_update_flags_amd64"
  by (simp add: mapTypeToString_def bpf_map_type_amd64_def bpf_update_flags_amd64_def bpf_update_flags_aarch64_def
      MapFlagUpdateAny_def MapFlagUpdateNoExist_def MapFlagUpdateExist_def MapFlagFLock_def)

end
