(* ===== verification/Float64.thy ===== *)
theory Float64
  imports Main
begin

text \<open>
  The floating point arithmetic the Go code uses on non-negative numbers, exactly: a number is a mantissa and a
  negative exponent of 2, and every operation rounds to 53 significant bits, ties to even. The numbers of the
  program are far from the largest and the smallest exponent. The rounding error is bounded, and
  dividing a natural number by 100 and rounding up is shown to give the exact result below \<open>2 ^ 46\<close>.
\<close>

section \<open>Numbers and operations\<close>

fun bit_len :: "nat \<Rightarrow> nat" where
  "bit_len n = (if n = 0 then 0 else Suc (bit_len (n div 2)))"

declare bit_len.simps [simp del]

definition round53 :: "nat \<Rightarrow> nat" where
  "round53 n =
     (let k = bit_len n - 53; q = n div 2 ^ k; r = n mod 2 ^ k
      in (if k = 0 then n
          else if 2 * r > 2 ^ k \<or> 2 * r = 2 ^ k \<and> odd q then (q + 1) * 2 ^ k else q * 2 ^ k))"

text \<open>The pair \<open>(m, e)\<close> is the number \<open>m / 2 ^ e\<close>.\<close>

type_synonym f64 = "nat \<times> nat"

definition f64_nat :: "nat \<Rightarrow> f64" where
  "f64_nat n = (round53 n, 0)"

definition f64_mult :: "f64 \<Rightarrow> f64 \<Rightarrow> f64" where
  "f64_mult = (\<lambda>(m, e) (m', e'). (round53 (m * m'), e + e'))"

text \<open>
  The quotient of two integers: enough bits of it, and a last bit that says whether it goes on, decide the
  rounding.
\<close>

definition f64_quot :: "nat \<Rightarrow> nat \<Rightarrow> f64" where
  "f64_quot m n =
     (let k = 64 + bit_len n; q = m * 2 ^ k div n
      in (round53 (2 * q + (if n dvd m * 2 ^ k then 0 else 1)), Suc k))"

definition f64_trunc :: "f64 \<Rightarrow> nat" where
  "f64_trunc = (\<lambda>(m, e). m div 2 ^ e)"

definition f64_div :: "f64 \<Rightarrow> nat \<Rightarrow> f64" where
  "f64_div x n = (case x of (m, e) \<Rightarrow> (case f64_quot m n of (q, k) \<Rightarrow> (q, e + k)))"

definition f64_ceil :: "f64 \<Rightarrow> nat" where
  "f64_ceil = (\<lambda>(m, e). (m + 2 ^ e - 1) div 2 ^ e)"

section \<open>Rounding\<close>

lemma bit_len_pos: "0 < bit_len n \<Longrightarrow> 0 < n"
  by (cases n) (simp_all add: bit_len.simps)

lemma bit_len_bounds: "n < 2 ^ bit_len n \<and> (n > 0 \<longrightarrow> 2 ^ bit_len n \<le> 2 * n)"
proof (induction n rule: bit_len.induct)
  case (1 n)
  show ?case
  proof (cases "n = 0")
    case False
    then have "n div 2 < 2 ^ bit_len (n div 2)" "n div 2 > 0 \<longrightarrow> 2 ^ bit_len (n div 2) \<le> 2 * (n div 2)" using 1 by simp_all
    moreover have "bit_len (n div 2) = 0" if "n div 2 = 0" using that by (simp add: bit_len.simps)
    ultimately show ?thesis using False by (subst (1 2) bit_len.simps) auto
  qed (simp add: bit_len.simps)
qed

text \<open>Rounding changes a number by at most one part in \<open>2 ^ 53\<close>, and not past a number with few bits.\<close>

lemma round53_cases:
  obtains k where "k = bit_len n - 53" and "k = 0" and "round53 n = n"
  | k Q r where "k = bit_len n - 53" and "0 < k" and "Q = n div 2 ^ k * 2 ^ k" and "n = Q + r" and "r < 2 ^ k"
    and "round53 n = Q + 2 ^ k \<and> 2 ^ k \<le> 2 * r \<or> round53 n = Q \<and> 2 * r \<le> 2 ^ k"
    and "2 ^ 53 * 2 ^ k \<le> 2 * n"
proof (cases "bit_len n - 53 = 0")
  case False
  define k where "k = bit_len n - 53"
  have "n > 0" using False by (simp add: bit_len_pos)
  then have "2 ^ bit_len n \<le> 2 * n" using bit_len_bounds by blast
  moreover have "bit_len n = 53 + k" using False by (simp add: k_def)
  ultimately have "2 ^ 53 * 2 ^ k \<le> 2 * n" by (simp only: power_add)
  moreover have "round53 n = n div 2 ^ k * 2 ^ k + 2 ^ k \<and> 2 ^ k \<le> 2 * (n mod 2 ^ k) \<or>
      round53 n = n div 2 ^ k * 2 ^ k \<and> 2 * (n mod 2 ^ k) \<le> 2 ^ k"
    using False unfolding round53_def Let_def k_def [symmetric] by (auto simp: add.commute)
  moreover have "0 < k" "n = n div 2 ^ k * 2 ^ k + n mod 2 ^ k" "n mod 2 ^ k < 2 ^ k" using False by (simp_all add: k_def div_mult_mod_eq)
  ultimately show ?thesis by (intro that(2) [OF k_def _ refl])
next
  case True
  then have "round53 n = n" unfolding round53_def Let_def by (simp only: if_True refl)
  with True show ?thesis by (intro that(1) [OF refl])
qed

lemma round53_error: "9007199254740992 * round53 n \<le> 9007199254740993 * n" "9007199254740991 * n \<le> 9007199254740992 * round53 n"
proof -
  have "9007199254740992 * round53 n \<le> 9007199254740993 * n \<and> 9007199254740991 * n \<le> 9007199254740992 * round53 n"
  proof (cases n rule: round53_cases)
    case (2 k Q r)
    define K :: nat where "K = 2 ^ k"
    have "(2 :: nat) ^ 53 = 9007199254740992" by simp
    then have "9007199254740992 * K \<le> 2 * Q + 2 * r" "r < K" using 2(4,5,7) unfolding K_def by (simp_all only: add_mult_distrib2)
    moreover have "round53 n = Q + K \<and> K \<le> 2 * r \<or> round53 n = Q \<and> 2 * r \<le> K" using 2(6) unfolding K_def .
    ultimately show ?thesis using 2(4) by (elim disjE conjE; intro conjI; linarith)
  qed simp
  then show "9007199254740992 * round53 n \<le> 9007199254740993 * n" "9007199254740991 * n \<le> 9007199254740992 * round53 n" by blast+
qed

lemma bit_len_le: "n < 2 ^ k \<Longrightarrow> bit_len n \<le> k"
proof (rule ccontr)
  assume n: "n < 2 ^ k" and "\<not> bit_len n \<le> k"
  then have "Suc k \<le> bit_len n" "0 < n" by (simp_all add: bit_len_pos)
  then have "(2 :: nat) ^ Suc k \<le> 2 ^ bit_len n" "0 < n" using power_increasing [of "Suc k" "bit_len n" "2 :: nat"] by simp_all
  then show False using bit_len_bounds [of n] n by simp
qed

lemma round53_small: "n < 2 ^ 53 \<Longrightarrow> round53 n = n"
proof -
  assume "n < 2 ^ 53"
  then have "bit_len n - 53 = 0" using bit_len_le by (metis diff_is_0_eq)
  then show ?thesis unfolding round53_def Let_def by (simp only: if_True refl)
qed

lemma round53_above:
  assumes "v * 2 ^ j \<le> n" and "n < 2 ^ (j + 53)"
  shows "v * 2 ^ j \<le> round53 n"
proof (cases n rule: round53_cases)
  case (2 k Q r)
  have "k \<le> j" using bit_len_le [OF assms(2)] 2(1) by simp
  then have v: "v * 2 ^ j = (v * 2 ^ (j - k)) * 2 ^ k" by (simp flip: power_add)
  have "v * 2 ^ (j - k) \<le> n div 2 ^ k" using assms(1) unfolding v by (simp only: less_eq_div_iff_mult_less_eq zero_less_power zero_less_numeral)
  then have "v * 2 ^ j \<le> Q" unfolding v 2(3) by (rule mult_le_mono1)
  then show ?thesis using 2(6) by auto
qed (use assms in simp)

lemma round53_shift:
  assumes "c < 2 ^ 53"
  shows "round53 (c * 2 ^ j) = c * 2 ^ j"
proof (cases "c * 2 ^ j" rule: round53_cases)
  case (2 k Q r)
  have "c * 2 ^ j < 2 ^ (j + 53)" using assms by (simp add: power_add)
  then have "bit_len (c * 2 ^ j) \<le> j + 53" by (rule bit_len_le)
  then have "k \<le> j" using 2(1) by simp
  then have "2 ^ k dvd c * 2 ^ j" by (simp add: le_imp_power_dvd)
  then have "2 ^ k dvd Q + r" by (simp only: 2(4))
  moreover have "2 ^ k dvd Q" unfolding 2(3) by simp
  ultimately have "2 ^ k dvd r" by (simp only: dvd_add_right_iff)
  then have "r = 0" using 2(5) nat_dvd_not_less [of r "2 ^ k"] by blast
  then show ?thesis using 2(4,6) by auto
qed simp

lemma f64_quot_100:
  obtains P X where "f64_quot j 100 = (P, 72)" and "100 * X \<le> 4722366482869645213696 * j + 100"
    and "4722366482869645213696 * j \<le> 100 * X + 100"
    and "9007199254740992 * P \<le> 9007199254740993 * X" and "9007199254740991 * X \<le> 9007199254740992 * P"
proof -
  let ?X = "2 * (j * 2 ^ 71 div 100) + (if 100 dvd j * 2 ^ 71 then 0 else 1)"
  have "bit_len 100 = 7" by (simp add: bit_len.simps)
  then have "f64_quot j 100 = (round53 ?X, 72)" by (simp add: f64_quot_def)
  moreover have "100 * ?X \<le> 4722366482869645213696 * j + 100" "4722366482869645213696 * j \<le> 100 * ?X + 100"
    by (auto simp: dvd_eq_mod_eq_0)
  ultimately show ?thesis using that round53_error [of ?X] by blast
qed

section \<open>Percentages, rounded up\<close>

lemma ceil_linear:
  fixes P X j c :: nat
  assumes "9007199254740992 * P \<le> 9007199254740993 * X" and "9007199254740991 * X \<le> 9007199254740992 * P"
    and "100 * X \<le> 4722366482869645213696 * j + 100" and "4722366482869645213696 * j \<le> 100 * X + 100"
    and "j < 70368744177664" and "100 * c < j + 100" and "j < 100 * c"
  shows "4722366482869645213696 * c < P + 4722366482869645213696" and "P \<le> 4722366482869645213696 * c"
  using assms(2,4-6) apply linarith
  using assms(1,3,5,7) by linarith

lemma f64_ceil_percent:
  assumes "j < 2 ^ 46"
  shows "f64_ceil (f64_div (f64_nat j) 100) = (j + 99) div 100"
proof -
  define c where "c = (j + 99) div 100"
  have j: "round53 j = j" using assms by (intro round53_small) simp
  obtain P X where q: "f64_quot j 100 = (P, 72)"
    and X: "100 * X \<le> 4722366482869645213696 * j + 100" "4722366482869645213696 * j \<le> 100 * X + 100"
    and P: "9007199254740992 * P \<le> 9007199254740993 * X" "9007199254740991 * X \<le> 9007199254740992 * P"
    using f64_quot_100 .
  have "P \<le> 4722366482869645213696 * c \<and> 4722366482869645213696 * c < P + 4722366482869645213696"
  proof (cases "100 dvd j")
    case True
    then have jc: "j = 100 * c" by (auto simp: c_def)
    have "bit_len 100 = 7" by (simp add: bit_len.simps)
    then have "P = round53 (2 ^ 72 * c)" using q by (simp add: f64_quot_def jc)
    also have "\<dots> = round53 (c * 2 ^ 72)" by (simp only: mult.commute)
    also have "\<dots> = c * 2 ^ 72" using assms jc by (intro round53_shift) simp
    finally show ?thesis by simp
  next
    case False
    then have "j \<noteq> 100 * c" by auto
    moreover have "100 * c + (j + 99) mod 100 = j + 99" "(j + 99) mod 100 < 100" unfolding c_def by simp_all
    ultimately have "100 * c < j + 100" "j < 100 * c" by linarith+
    then show ?thesis using ceil_linear [OF P X] assms by simp
  qed
  then have "(P + 4722366482869645213695) div 4722366482869645213696 = c"
    by (intro div_nat_eqI) auto
  then show ?thesis by (simp add: f64_ceil_def f64_div_def f64_nat_def j q c_def)
qed

end
