(* ===== verification/Traffic_Control.thy ===== *)
theory Traffic_Control
  imports Disk_Driver Filter_Driver Float64 "HOL-Library.Sublist"
begin

text \<open>
  The traffic controller: the commands given to the program \<open>tc\<close> (\<open>src/network/tc.go\<close> with its executor
  in \<open>executor.go\<close>), the protocols (\<open>protocol.go\<close>) and the selection of a share of the addresses
  (\<open>selection.go\<close>).

  The program \<open>tc\<close> is a parameter: from the commands it has run before and the new one it gives the exit
  code and whether it failed. The state of the controller is the last priority and the commands run.
  Addresses are carried as the text \<open>IPNet.String\<close> gives.
\<close>

section \<open>Text\<close>

text \<open>\<open>strings.Split\<close> at blanks, \<open>strings.ToLower\<close> on ASCII letters, decimal numbers with a sign.\<close>

fun Split :: "string \<Rightarrow> string list" where
  "Split [] = [[]]"
| "Split (c # s) =
     (if c = CHR '' '' then [] # Split s
      else (case Split s of [] \<Rightarrow> [[c]] | w # ws \<Rightarrow> (c # w) # ws))"

definition to_lower :: "char \<Rightarrow> char" where
  "to_lower c = (if 65 \<le> (of_char c :: nat) \<and> (of_char c :: nat) \<le> 90 then char_of ((of_char c :: nat) + 32) else c)"

definition show_int :: "int \<Rightarrow> string" where
  "show_int i = (if i < 0 then ''-'' @ Itoa (nat (- i)) else Itoa (nat i))"

section \<open>Protocols and connection states\<close>

definition TCP :: string where "TCP = ''tcp''"
definition UDP :: string where "UDP = ''udp''"
definition ARP :: string where "ARP = ''arp''"
definition ALL_protocol :: string where "ALL_protocol = ''*''"

definition newProtocol :: "string \<Rightarrow> string" where
  "newProtocol p =
     (let s = map to_lower p
      in if s = UDP then UDP else if s = ARP then ARP else if s = TCP then TCP else ALL_protocol)"

definition AllProtocols :: "string \<Rightarrow> string list" where
  "AllProtocols p = (let prtcl = newProtocol p in if prtcl = ALL_protocol then [TCP, UDP] else [prtcl])"

definition ConnStateUndefined :: string where "ConnStateUndefined = ''''"
definition ConnStateNew :: string where "ConnStateNew = ''+trk+new''"
definition ConnStateEstablished :: string where "ConnStateEstablished = ''+trk+est''"

definition NewConnState :: "string \<Rightarrow> string" where
  "NewConnState s =
     (if s = ''new'' then ConnStateNew else if s = ''est'' then ConnStateEstablished else ConnStateUndefined)"

section \<open>The controller\<close>

type_synonym executor = "string list list \<Rightarrow> string list \<Rightarrow> int \<times> bool"

record tc =
  tcFilterPriority :: u32
  tc_dryRun :: bool
  tc_log :: "string list list"

datatype tc_error = Exec_error | Bad_protocol string | Empty_filter | Too_many_filters

definition tcPriority :: u32 where "tcPriority = 1000"
definition MaximumTCFilters :: u32 where "MaximumTCFilters = 2048"

definition NewTrafficController :: "bool \<Rightarrow> tc" where
  "NewTrafficController dryRun = \<lparr>tcFilterPriority = tcPriority, tc_dryRun = dryRun, tc_log = []\<rparr>"

text \<open>\<open>Run\<close>: exit code, whether it failed, and the controller with the command logged.\<close>

definition tc_Run :: "executor \<Rightarrow> string list \<Rightarrow> tc \<Rightarrow> int \<times> bool \<times> tc" where
  "tc_Run X args t =
     (if tc_dryRun t then (0, False, t)
      else (case X (tc_log t) args of (code, failed) \<Rightarrow> (code, failed, t\<lparr>tc_log := tc_log t @ [args]\<rparr>)))"

definition buildCmd ::
  "string \<Rightarrow> string \<Rightarrow> string \<Rightarrow> string \<Rightarrow> u32 \<Rightarrow> string \<Rightarrow> string \<Rightarrow> string \<Rightarrow> string list" where
  "buildCmd module iface parent protocol priority handle kind parameters =
     Split (module @ '' add dev '' @ iface @
       (if protocol \<noteq> '''' then '' protocol '' @ protocol else []) @
       (if priority \<noteq> 0 then '' priority '' @ Itoa (unat priority) else []) @
       (if parent = ''root'' then '' root'' else '' parent '' @ parent) @
       (if handle \<noteq> '''' then '' handle '' @ handle else []) @
       '' '' @ kind @
       (if parameters \<noteq> '''' then '' '' @ parameters else []))"

text \<open>The loop over the interfaces: it ends at the first command that fails.\<close>

fun run_ifaces :: "executor \<Rightarrow> (string \<Rightarrow> string list) \<Rightarrow> string list \<Rightarrow> tc \<Rightarrow> tc_error option \<times> tc" where
  "run_ifaces X mk [] t = (None, t)"
| "run_ifaces X mk (iface # ifaces) t =
     (case tc_Run X (mk iface) t of
        (code, failed, t) \<Rightarrow> if failed then (Some Exec_error, t) else run_ifaces X mk ifaces t)"

text \<open>Durations are nanoseconds.\<close>

definition Milliseconds :: "nat \<Rightarrow> nat" where "Milliseconds d = d div 1000000"

definition TrimPrefixBlank :: "string \<Rightarrow> string" where
  "TrimPrefixBlank s = (case s of c # cs \<Rightarrow> if c = CHR '' '' then cs else s | [] \<Rightarrow> [])"

definition netem_params :: "nat \<Rightarrow> nat \<Rightarrow> int \<Rightarrow> int \<Rightarrow> int \<Rightarrow> string" where
  "netem_params delay delayJitter drp corrupt duplicate = TrimPrefixBlank (
     (if Milliseconds delay \<noteq> 0
      then '' delay '' @ Itoa (Milliseconds delay) @ ''ms '' @ Itoa (Milliseconds delayJitter) @ ''ms'' else []) @
     (if drp \<noteq> 0 then '' loss '' @ show_int drp @ ''%'' else []) @
     (if duplicate \<noteq> 0 then '' duplicate '' @ show_int duplicate @ ''%'' else []) @
     (if corrupt \<noteq> 0 then '' corrupt '' @ show_int corrupt @ ''%'' else []))"

definition AddNetem ::
  "executor \<Rightarrow> string list \<Rightarrow> string \<Rightarrow> string \<Rightarrow> nat \<Rightarrow> nat \<Rightarrow> int \<Rightarrow> int \<Rightarrow> int \<Rightarrow> tc \<Rightarrow> tc_error option \<times> tc" where
  "AddNetem X ifaces parent handle delay delayJitter drp corrupt duplicate t =
     run_ifaces X (\<lambda>iface. buildCmd ''qdisc'' iface parent '''' 0 handle ''netem''
       (netem_params delay delayJitter drp corrupt duplicate)) ifaces t"

definition prio_params :: "nat \<Rightarrow> nat list \<Rightarrow> string" where
  "prio_params bands priomap =
     ''bands '' @ Itoa bands @ '' priomap '' @ TrimPrefixBlank (concat (map (\<lambda>b. '' '' @ Itoa b) priomap))"

definition AddPrio ::
  "executor \<Rightarrow> string list \<Rightarrow> string \<Rightarrow> string \<Rightarrow> nat \<Rightarrow> nat list \<Rightarrow> tc \<Rightarrow> tc_error option \<times> tc" where
  "AddPrio X ifaces parent handle bands priomap t =
     run_ifaces X (\<lambda>iface. buildCmd ''qdisc'' iface parent '''' 0 handle ''prio'' (prio_params bands priomap)) ifaces t"

definition AddOutputLimit ::
  "executor \<Rightarrow> string list \<Rightarrow> string \<Rightarrow> string \<Rightarrow> nat \<Rightarrow> tc \<Rightarrow> tc_error option \<times> tc" where
  "AddOutputLimit X ifaces parent handle bytesPerSec t =
     run_ifaces X (\<lambda>iface. buildCmd ''qdisc'' iface parent '''' 0 handle ''tbf''
       (''rate '' @ Itoa bytesPerSec @ '' latency 50ms burst '' @ Itoa bytesPerSec)) ifaces t"

text \<open>Exit code 2 is a qdisc that does not exist any more.\<close>

fun ClearQdisc :: "executor \<Rightarrow> string list \<Rightarrow> tc \<Rightarrow> tc_error option \<times> tc" where
  "ClearQdisc X [] t = (None, t)"
| "ClearQdisc X (iface # ifaces) t =
     (case tc_Run X (Split (''qdisc del dev '' @ iface @ '' root'')) t of
        (code, failed, t) \<Rightarrow> if failed \<and> code \<noteq> 2 then (Some Exec_error, t) else ClearQdisc X ifaces t)"

definition getNewPriority :: "tc \<Rightarrow> (tc_error + u32) \<times> tc" where
  "getNewPriority t =
     (let priority = tcFilterPriority t + 1; t = t\<lparr>tcFilterPriority := priority\<rparr>
      in if priority \<ge> MaximumTCFilters + tcPriority then (Inl Too_many_filters, t) else (Inr priority, t))"

definition filter_params ::
  "string option \<Rightarrow> string option \<Rightarrow> int \<Rightarrow> int \<Rightarrow> string \<Rightarrow> string \<Rightarrow> string \<Rightarrow> string" where
  "filter_params srcIP dstIP srcPort dstPort protocol connState flowid =
     (if protocol = ARP then [] else ''ip_proto '' @ protocol @ '' '') @
     (case srcIP of Some ip \<Rightarrow> if ip \<noteq> ''0.0.0.0/0'' then ''src_ip '' @ ip @ '' '' else [] | None \<Rightarrow> []) @
     (case dstIP of Some ip \<Rightarrow> if ip \<noteq> ''0.0.0.0/0'' then ''dst_ip '' @ ip @ '' '' else [] | None \<Rightarrow> []) @
     (if srcPort \<noteq> 0 then ''src_port '' @ show_int srcPort @ '' '' else []) @
     (if dstPort \<noteq> 0 then ''dst_port '' @ show_int dstPort @ '' '' else []) @
     (if connState \<noteq> ConnStateUndefined then ''ct_state '' @ connState @ '' '' else []) @
     ''flowid '' @ flowid"

definition AddFilter ::
  "executor \<Rightarrow> string list \<Rightarrow> string \<Rightarrow> string \<Rightarrow> string option \<Rightarrow> string option \<Rightarrow> int \<Rightarrow> int \<Rightarrow> string \<Rightarrow> string \<Rightarrow>
     string \<Rightarrow> tc \<Rightarrow> (tc_error + u32) \<times> tc" where
  "AddFilter X ifaces parent handle srcIP dstIP srcPort dstPort protocol connState flowid t =
     (if protocol \<notin> {TCP, UDP, ARP} then (Inl (Bad_protocol protocol), t)
      else if srcIP = None \<and> dstIP = None \<and> srcPort = 0 \<and> dstPort = 0 \<and> protocol = '''' then (Inl Empty_filter, t)
      else (case getNewPriority t of
          (Inl e, t) \<Rightarrow> (Inl e, t)
        | (Inr priority, t) \<Rightarrow>
            (case run_ifaces X (\<lambda>iface. buildCmd ''filter'' iface parent
                (if protocol = ARP then ''arp'' else ''ip'') priority handle ''flower''
                (filter_params srcIP dstIP srcPort dstPort protocol connState flowid)) ifaces t of
               (Some e, t) \<Rightarrow> (Inl e, t)
             | (None, t) \<Rightarrow> (Inr priority, t))))"

definition AddBPFFilter ::
  "executor \<Rightarrow> string list \<Rightarrow> string \<Rightarrow> string \<Rightarrow> string \<Rightarrow> string \<Rightarrow> tc \<Rightarrow> tc_error option \<times> tc" where
  "AddBPFFilter X ifaces parent obj flowid sec t =
     run_ifaces X (\<lambda>iface.
       if sec = '''' then buildCmd ''filter'' iface parent '''' 0 '''' ''bpf'' (''obj '' @ obj @ '' flowid '' @ flowid)
       else buildCmd ''filter'' iface parent '''' 0 '''' ''bpf''
         (''obj '' @ obj @ '' sec '' @ sec @ '' flowid '' @ flowid)) ifaces t"

definition DeleteFilter :: "executor \<Rightarrow> string \<Rightarrow> u32 \<Rightarrow> tc \<Rightarrow> tc_error option \<times> tc" where
  "DeleteFilter X iface priority t =
     (case tc_Run X [''filter'', ''delete'', ''dev'', iface, ''priority'', Itoa (unat priority)] t of
        (code, failed, t) \<Rightarrow> (if failed then Some Exec_error else None, t))"

definition AddFlowerFilter ::
  "executor \<Rightarrow> string list \<Rightarrow> string \<Rightarrow> string \<Rightarrow> string \<Rightarrow> tc \<Rightarrow> tc_error option \<times> tc" where
  "AddFlowerFilter X ifaces parent handle flowid t =
     run_ifaces X (\<lambda>iface. buildCmd ''filter'' iface parent ''ip'' 0 handle ''flower'' (''flowid '' @ flowid)) ifaces t"

section \<open>Selecting a share of the addresses\<close>

text \<open>
  \<open>hash\<close> is \<open>hashIPWithSeed\<close>. The count is computed in floating point. \<open>sort.Slice\<close> orders by
  hash; addresses with equal hashes may come in either order, and the model keeps their order.
\<close>

definition select_count :: "nat \<Rightarrow> int \<Rightarrow> nat" where
  "select_count n percentage = f64_ceil (f64_div (f64_mult (f64_nat n) (f64_nat (nat percentage))) 100)"

definition SelectIPsByPercentage ::
  "(string \<Rightarrow> string \<Rightarrow> u64) \<Rightarrow> string list \<Rightarrow> int \<Rightarrow> string \<Rightarrow> string list" where
  "SelectIPsByPercentage hash ips percentage seed =
     (if percentage \<le> 0 \<or> percentage > 100 then ips
      else if ips = [] then ips
      else if percentage = 100 then ips
      else (let cnt = select_count (length ips) percentage
        in if cnt \<ge> length ips then ips else take cnt (sort_key (\<lambda>ip. hash ip seed) ips)))"

section \<open>Commands\<close>

definition blank_free :: "string \<Rightarrow> bool" where
  "blank_free w \<longleftrightarrow> CHR '' '' \<notin> set w"

lemma blank_free_simps [simp]:
  "blank_free []" "blank_free (c # w) \<longleftrightarrow> c \<noteq> CHR '' '' \<and> blank_free w"
  "blank_free (v @ w) \<longleftrightarrow> blank_free v \<and> blank_free w"
  by (auto simp: blank_free_def)

lemma Split_word: "blank_free w \<Longrightarrow> Split w = [w]"
  by (induction w) auto

lemma Split_word_blank: "blank_free w \<Longrightarrow> Split (w @ CHR '' '' # s) = w # Split s"
  by (induction w) auto

lemma digit_not_blank: "k < 10 \<Longrightarrow> char_of (48 + k :: nat) \<noteq> CHR '' ''"
proof
  assume k: "k < 10" and "char_of (48 + k :: nat) = CHR '' ''"
  then have "of_char (char_of (48 + k :: nat)) = (of_char (CHR '' '') :: nat)" by simp
  then show False using k by (simp del: of_char_eq_iff)
qed

lemma blank_free_Itoa [simp]: "blank_free (Itoa n)"
proof (induction n rule: Itoa.induct)
  case (1 n)
  then show ?case using digit_not_blank [of n] digit_not_blank [of "n mod 10"]
    by (subst Itoa.simps) simp
qed

lemma Itoa_nonempty [simp]: "Itoa n \<noteq> []"
  using Itoa_hd [of n] by simp

text \<open>
  The command line a \<open>tc\<close> operation executes: split at blanks, the built text gives back exactly the
  words it was put together from, each in its place, as long as none of them contains a blank.
\<close>

lemma buildCmd_tokens:
  assumes "blank_free module" and "blank_free iface" and "blank_free parent" and "blank_free protocol"
    and "blank_free handle" and "blank_free kind"
  shows "buildCmd module iface parent protocol priority handle kind parameters =
    [module, ''add'', ''dev'', iface] @ (if protocol \<noteq> '''' then [''protocol'', protocol] else []) @
    (if priority \<noteq> 0 then [''priority'', Itoa (unat priority)] else []) @
    (if parent = ''root'' then [''root''] else [''parent'', parent]) @
    (if handle \<noteq> '''' then [''handle'', handle] else []) @ [kind] @
    (if parameters \<noteq> '''' then Split parameters else [])"
  using assms by (simp add: buildCmd_def Split_word Split_word_blank)

text \<open>What a loop over the interfaces has run, and that it keeps the priority.\<close>

lemma run_ifaces_log:
  assumes "\<not> tc_dryRun t"
  shows "\<exists>k \<le> length ifaces. snd (run_ifaces X mk ifaces t) = t\<lparr>tc_log := tc_log t @ map mk (take k ifaces)\<rparr> \<and>
    (fst (run_ifaces X mk ifaces t) = None \<longrightarrow> k = length ifaces) \<and>
    (fst (run_ifaces X mk ifaces t) \<noteq> None \<longrightarrow> 0 < k \<and> fst (run_ifaces X mk ifaces t) = Some Exec_error)"
  using assms
proof (induction ifaces arbitrary: t)
  case (Cons i ifaces)
  obtain code failed where x: "X (tc_log t) (mk i) = (code, failed)" by fastforce
  let ?t = "t\<lparr>tc_log := tc_log t @ [mk i]\<rparr>"
  show ?case
  proof (cases failed)
    case True
    with x Cons.prems show ?thesis by (intro exI [of _ 1]) (simp add: tc_Run_def)
  next
    case False
    obtain k where k: "k \<le> length ifaces"
      "snd (run_ifaces X mk ifaces ?t) = ?t\<lparr>tc_log := tc_log ?t @ map mk (take k ifaces)\<rparr>"
      "fst (run_ifaces X mk ifaces ?t) = None \<longrightarrow> k = length ifaces"
      "fst (run_ifaces X mk ifaces ?t) \<noteq> None \<longrightarrow> 0 < k \<and> fst (run_ifaces X mk ifaces ?t) = Some Exec_error"
      using Cons.IH [of ?t] Cons.prems by auto
    with x False Cons.prems show ?thesis by (intro exI [of _ "Suc k"]) (simp add: tc_Run_def)
  qed
qed (rule exI [of _ 0], simp)

text \<open>When no command fails, the loop runs one command per interface.\<close>

definition never_fails :: "executor \<Rightarrow> bool" where
  "never_fails X \<longleftrightarrow> (\<forall>lg cmd. \<not> snd (X lg cmd))"

lemma run_ifaces_all:
  assumes "never_fails X" and "\<not> tc_dryRun t"
  shows "run_ifaces X mk ifaces t = (None, t\<lparr>tc_log := tc_log t @ map mk ifaces\<rparr>)"
  using assms(2)
proof (induction ifaces arbitrary: t)
  case (Cons i ifaces)
  obtain code failed where x: "X (tc_log t) (mk i) = (code, failed)" by fastforce
  moreover have "\<not> failed" using assms(1) x unfolding never_fails_def by (metis snd_conv)
  ultimately show ?case using Cons by (simp add: tc_Run_def)
qed simp

lemma run_ifaces_dry: "tc_dryRun t \<Longrightarrow> run_ifaces X mk ifaces t = (None, t)"
  by (induction ifaces) (simp_all add: tc_Run_def)

text \<open>The words of a filter command for one interface.\<close>

definition filter_words ::
  "string \<Rightarrow> u32 \<Rightarrow> string option \<Rightarrow> string option \<Rightarrow> int \<Rightarrow> int \<Rightarrow> string \<Rightarrow> string \<Rightarrow> string \<Rightarrow> string list" where
  "filter_words iface prio srcIP dstIP srcPort dstPort protocol connState flowid =
     [''filter'', ''add'', ''dev'', iface, ''protocol'', if protocol = ARP then ''arp'' else ''ip'',
      ''priority'', Itoa (unat prio), ''parent'', ''1:0'', ''flower''] @
     (if protocol = ARP then [] else [''ip_proto'', protocol]) @
     (case srcIP of Some ip \<Rightarrow> if ip \<noteq> ''0.0.0.0/0'' then [''src_ip'', ip] else [] | None \<Rightarrow> []) @
     (case dstIP of Some ip \<Rightarrow> if ip \<noteq> ''0.0.0.0/0'' then [''dst_ip'', ip] else [] | None \<Rightarrow> []) @
     (if srcPort \<noteq> 0 then [''src_port'', show_int srcPort] else []) @
     (if dstPort \<noteq> 0 then [''dst_port'', show_int dstPort] else []) @
     (if connState \<noteq> ConnStateUndefined then [''ct_state'', connState] else []) @ [''flowid'', flowid]"

definition ip_ok :: "string option \<Rightarrow> bool" where
  "ip_ok ip \<longleftrightarrow> (case ip of None \<Rightarrow> True | Some s \<Rightarrow> blank_free s)"

lemma blank_free_show_int [simp]: "blank_free (show_int i)"
  by (simp add: show_int_def)

lemma Split_filter_params:
  assumes "ip_ok srcIP" and "ip_ok dstIP" and "blank_free protocol" and "blank_free connState" and "blank_free flowid"
  shows "Split (filter_params srcIP dstIP srcPort dstPort protocol connState flowid) =
     (if protocol = ARP then [] else [''ip_proto'', protocol]) @
     (case srcIP of Some ip \<Rightarrow> if ip \<noteq> ''0.0.0.0/0'' then [''src_ip'', ip] else [] | None \<Rightarrow> []) @
     (case dstIP of Some ip \<Rightarrow> if ip \<noteq> ''0.0.0.0/0'' then [''dst_ip'', ip] else [] | None \<Rightarrow> []) @
     (if srcPort \<noteq> 0 then [''src_port'', show_int srcPort] else []) @
     (if dstPort \<noteq> 0 then [''dst_port'', show_int dstPort] else []) @
     (if connState \<noteq> ConnStateUndefined then [''ct_state'', connState] else []) @ [''flowid'', flowid]"
proof -
  have conn: "Split ((if connState \<noteq> ConnStateUndefined then ''ct_state '' @ connState @ '' '' else []) @ ''flowid '' @ flowid) =
      (if connState \<noteq> ConnStateUndefined then [''ct_state'', connState] else []) @ [''flowid'', flowid]"
    using assms by (simp add: Split_word Split_word_blank)
  have sp: "Split ((if srcPort \<noteq> 0 then ''src_port '' @ show_int srcPort @ '' '' else []) @ s) =
      (if srcPort \<noteq> 0 then [''src_port'', show_int srcPort] else []) @ Split s" for s
    by (simp add: Split_word_blank)
  have dp: "Split ((if dstPort \<noteq> 0 then ''dst_port '' @ show_int dstPort @ '' '' else []) @ s) =
      (if dstPort \<noteq> 0 then [''dst_port'', show_int dstPort] else []) @ Split s" for s
    by (simp add: Split_word_blank)
  have src: "Split ((case srcIP of Some ip \<Rightarrow> if ip \<noteq> ''0.0.0.0/0'' then ''src_ip '' @ ip @ '' '' else [] | None \<Rightarrow> []) @ s) =
      (case srcIP of Some ip \<Rightarrow> if ip \<noteq> ''0.0.0.0/0'' then [''src_ip'', ip] else [] | None \<Rightarrow> []) @ Split s" for s
    using assms(1,2) by (cases srcIP) (simp_all add: Split_word_blank ip_ok_def)
  have dst: "Split ((case dstIP of Some ip \<Rightarrow> if ip \<noteq> ''0.0.0.0/0'' then ''dst_ip '' @ ip @ '' '' else [] | None \<Rightarrow> []) @ s) =
      (case dstIP of Some ip \<Rightarrow> if ip \<noteq> ''0.0.0.0/0'' then [''dst_ip'', ip] else [] | None \<Rightarrow> []) @ Split s" for s
    using assms(1,2) by (cases dstIP) (simp_all add: Split_word_blank ip_ok_def)
  have proto: "Split ((if protocol = ARP then [] else ''ip_proto '' @ protocol @ '' '') @ s) =
      (if protocol = ARP then [] else [''ip_proto'', protocol]) @ Split s" for s
    using assms(3) by (simp add: Split_word_blank)
  show ?thesis unfolding filter_params_def by (simp only: proto src dst sp dp conn)
qed

lemma filter_cmd_words:
  assumes "blank_free iface" and "ip_ok srcIP" and "ip_ok dstIP" and "protocol \<in> {TCP, UDP, ARP}"
    and "blank_free connState" and "blank_free flowid" and "prio \<noteq> 0"
  shows "buildCmd ''filter'' iface ''1:0'' (if protocol = ARP then ''arp'' else ''ip'') prio '''' ''flower''
      (filter_params srcIP dstIP srcPort dstPort protocol connState flowid) =
    filter_words iface prio srcIP dstIP srcPort dstPort protocol connState flowid"
proof -
  have p: "blank_free protocol" using assms(4) by (auto simp: TCP_def UDP_def ARP_def)
  have ne: "filter_params srcIP dstIP srcPort dstPort protocol connState flowid \<noteq> []" by (simp add: filter_params_def)
  show ?thesis
    by (subst buildCmd_tokens)
      (use assms ne p in \<open>simp_all add: Split_filter_params filter_words_def\<close>)
qed

lemma getNewPriority_state [simp]:
  "tcFilterPriority (snd (getNewPriority t)) = tcFilterPriority t + 1"
  "tc_log (snd (getNewPriority t)) = tc_log t" "tc_dryRun (snd (getNewPriority t)) = tc_dryRun t"
  by (simp_all add: getNewPriority_def Let_def)

lemma getNewPriority_nonzero:
  "tcFilterPriority t \<noteq> -1 \<Longrightarrow> getNewPriority t = (Inr p, t') \<Longrightarrow> p \<noteq> 0 \<and> p = tcFilterPriority t + 1"
  by (auto simp: getNewPriority_def Let_def eq_neg_iff_add_eq_0 split: if_splits)

text \<open>
  C24: Adding a filter: each interface up to the first failure gets one command with the same new priority,
  and the command consists of the criteria that are set, in a fixed order, with the target class last. A
  filter is reported as added only when all interfaces have it.
\<close>

theorem AddFilter_commands:
  assumes "\<not> tc_dryRun t" and "tcFilterPriority t \<noteq> -1" and "protocol \<in> {TCP, UDP, ARP}"
    and "\<forall>i \<in> set ifaces. blank_free i" and "ip_ok srcIP" and "ip_ok dstIP" and "blank_free connState" and "blank_free flowid"
    and "AddFilter X ifaces ''1:0'' '''' srcIP dstIP srcPort dstPort protocol connState flowid t = (r, t')"
  shows "\<exists>k \<le> length ifaces. tc_log t' = tc_log t @
      map (\<lambda>i. filter_words i (tcFilterPriority t + 1) srcIP dstIP srcPort dstPort protocol connState flowid) (take k ifaces) \<and>
    tcFilterPriority t' = tcFilterPriority t + 1 \<and>
    (\<forall>p. r = Inr p \<longrightarrow> k = length ifaces \<and> p = tcFilterPriority t + 1)"
proof (cases "getNewPriority t")
  case (Pair q t1)
  have t1: "tcFilterPriority t1 = tcFilterPriority t + 1" "tc_log t1 = tc_log t" "\<not> tc_dryRun t1"
    using Pair getNewPriority_state [of t] assms(1) by simp_all
  have ne: "protocol \<noteq> ''''" using assms(3) by (auto simp: TCP_def UDP_def ARP_def)
  show ?thesis
  proof (cases q)
    case (Inl e)
    then have "(r, t') = (Inl e, t1)"
      unfolding assms(9) [symmetric] AddFilter_def Pair Inl prod.case sum.case using assms(3) ne by simp
    with t1 show ?thesis by (intro exI [of _ 0]) simp
  next
    case (Inr p)
    have p: "p \<noteq> 0" "p = tcFilterPriority t + 1" 
      using getNewPriority_nonzero [OF assms(2) Pair [unfolded Inr]] by (rule conjunct1, rule conjunct2)
    define mk where "mk = (\<lambda>i. buildCmd ''filter'' i ''1:0'' (if protocol = ARP then ''arp'' else ''ip'') p '''' ''flower''
      (filter_params srcIP dstIP srcPort dstPort protocol connState flowid))"
    from run_ifaces_log [OF t1(3), of ifaces X mk] obtain k where kk: "k \<le> length ifaces \<and>
      snd (run_ifaces X mk ifaces t1) = t1\<lparr>tc_log := tc_log t1 @ map mk (take k ifaces)\<rparr> \<and>
      (fst (run_ifaces X mk ifaces t1) = None \<longrightarrow> k = length ifaces) \<and>
      (fst (run_ifaces X mk ifaces t1) \<noteq> None \<longrightarrow> 0 < k \<and> fst (run_ifaces X mk ifaces t1) = Some Exec_error)" ..
    note k = kk [THEN conjunct1] kk [THEN conjunct2, THEN conjunct1] kk [THEN conjunct2, THEN conjunct2, THEN conjunct1]
    have w: "map mk (take k ifaces) =
        map (\<lambda>i. filter_words i p srcIP dstIP srcPort dstPort protocol connState flowid) (take k ifaces)"
    proof (intro map_cong refl)
      fix i assume "i \<in> set (take k ifaces)"
      then have "blank_free i" using assms(4) by (meson in_set_takeD)
      then show "mk i = filter_words i p srcIP dstIP srcPort dstPort protocol connState flowid"
        unfolding mk_def by (rule filter_cmd_words) (rule assms p(1))+
    qed
    obtain e t2 where r: "run_ifaces X mk ifaces t1 = (e, t2)" by fastforce
    have res: "(r, t') = (case e of None \<Rightarrow> Inr p | Some x \<Rightarrow> Inl x, t2)"
      unfolding assms(9) [symmetric] AddFilter_def Pair Inr prod.case sum.case mk_def [symmetric] r
      using assms(3) ne by (cases e) simp_all
    have t2: "t2 = t1\<lparr>tc_log := tc_log t1 @ map (\<lambda>i. filter_words i p srcIP dstIP srcPort dstPort protocol connState flowid)
        (take k ifaces)\<rparr>" "e = None \<longrightarrow> k = length ifaces"
      using k(2,3) unfolding r w by simp_all
    show ?thesis
      by (rule exI [of _ k]) (use k(1) t2 res t1 in \<open>cases e, simp_all add: p(2)\<close>)
  qed
qed

definition example_tc :: executor where "example_tc lg cmd = (if length lg \<ge> 2 then 1 else 0, length lg \<ge> 2)"

theorem AddFilter_commands_witness:
  "AddFilter example_tc [''eth0'', ''eth1''] ''1:0'' '''' None (Some ''10.0.0.1/32'') 0 80 TCP '''' ''1:4''
      (NewTrafficController False) =
    (Inr 1001, \<lparr>tcFilterPriority = 1001, tc_dryRun = False, tc_log = [
      [''filter'', ''add'', ''dev'', ''eth0'', ''protocol'', ''ip'', ''priority'', ''1001'', ''parent'', ''1:0'',
       ''flower'', ''ip_proto'', ''tcp'', ''dst_ip'', ''10.0.0.1/32'', ''dst_port'', ''80'', ''flowid'', ''1:4''],
      [''filter'', ''add'', ''dev'', ''eth1'', ''protocol'', ''ip'', ''priority'', ''1001'', ''parent'', ''1:0'',
       ''flower'', ''ip_proto'', ''tcp'', ''dst_ip'', ''10.0.0.1/32'', ''dst_port'', ''80'', ''flowid'', ''1:4'']]\<rparr>)"
  (is "?L = ?R")
proof -
  have r: "fst ?L = Inr 1001" "tc_dryRun (snd ?L) = False"
    by (simp_all add: AddFilter_def getNewPriority_def NewTrafficController_def tcPriority_def MaximumTCFilters_def
        TCP_def UDP_def ARP_def tc_Run_def example_tc_def)
  obtain q t' where L: "?L = (q, t')" by fastforce
  have "\<exists>k \<le> length [''eth0'', ''eth1'']. tc_log t' = [] @ map (\<lambda>i. filter_words i 1001 None (Some ''10.0.0.1/32'') 0 80 TCP '''' ''1:4'')
      (take k [''eth0'', ''eth1'']) \<and> tcFilterPriority t' = 1001 \<and>
    (\<forall>p. q = Inr p \<longrightarrow> k = length [''eth0'', ''eth1''] \<and> p = 1001)"
    using AddFilter_commands [OF _ _ _ _ _ _ _ _ L] by (simp add: NewTrafficController_def tcPriority_def ip_ok_def)
  then have "tc_log t' = map (\<lambda>i. filter_words i 1001 None (Some ''10.0.0.1/32'') 0 80 TCP '''' ''1:4'') [''eth0'', ''eth1'']"
    "tcFilterPriority t' = 1001" "tc_dryRun t' = False" "q = Inr 1001"
    using r L by auto
  then show ?thesis unfolding L
    by (cases t') (simp add: filter_words_def TCP_def ARP_def ConnStateUndefined_def show_int_def Itoa.simps char_of_def bit_0)
qed

text \<open>Adding a filter when no command fails and priorities are left.\<close>

lemma AddFilter_all:
  assumes "never_fails X" and "\<not> tc_dryRun t" and "tcFilterPriority t < 3047" and "protocol \<in> {TCP, UDP, ARP}"
    and "\<forall>i \<in> set ifaces. blank_free i" and "ip_ok srcIP" and "ip_ok dstIP" and "blank_free connState" and "blank_free flowid"
  shows "AddFilter X ifaces ''1:0'' '''' srcIP dstIP srcPort dstPort protocol connState flowid t =
    (Inr (tcFilterPriority t + 1), t\<lparr>tcFilterPriority := tcFilterPriority t + 1, tc_log := tc_log t @
      map (\<lambda>i. filter_words i (tcFilterPriority t + 1) srcIP dstIP srcPort dstPort protocol connState flowid) ifaces\<rparr>)"
proof -
  let ?p = "tcFilterPriority t + 1" and ?t = "t\<lparr>tcFilterPriority := tcFilterPriority t + 1\<rparr>"
  have u: "unat ?p = unat (tcFilterPriority t) + 1"
    using assms(3) by (simp add: word_less_nat_alt unat_word_ariths)
  have g: "getNewPriority t = (Inr ?p, ?t)"
    using assms(3) u by (simp add: getNewPriority_def Let_def MaximumTCFilters_def tcPriority_def
        word_less_nat_alt word_le_nat_alt)
  have ne: "?p \<noteq> 0" using u by (metis add_eq_0_iff_both_eq_0 unat_0 zero_neq_one)
  have p: "protocol \<noteq> ''''" using assms(4) by (auto simp: TCP_def UDP_def ARP_def)
  have w: "map (\<lambda>i. buildCmd ''filter'' i ''1:0'' (if protocol = ARP then ''arp'' else ''ip'') ?p '''' ''flower''
        (filter_params srcIP dstIP srcPort dstPort protocol connState flowid)) ifaces =
      map (\<lambda>i. filter_words i ?p srcIP dstIP srcPort dstPort protocol connState flowid) ifaces"
    by (intro map_cong refl filter_cmd_words) (use assms ne in auto)
  have r: "run_ifaces X (\<lambda>i. buildCmd ''filter'' i ''1:0'' (if protocol = ARP then ''arp'' else ''ip'') ?p '''' ''flower''
        (filter_params srcIP dstIP srcPort dstPort protocol connState flowid)) ifaces ?t =
      (None, ?t\<lparr>tc_log := tc_log ?t @ map (\<lambda>i. filter_words i ?p srcIP dstIP srcPort dstPort protocol connState flowid) ifaces\<rparr>)"
    using run_ifaces_all [OF assms(1), of ?t] assms(2) w by simp
  show ?thesis unfolding AddFilter_def g prod.case sum.case r using assms(4) p by simp
qed

section \<open>Priorities\<close>

lemma priority_after:
  "tcFilterPriority (((\<lambda>t. snd (getNewPriority t)) ^^ k) (NewTrafficController d)) = of_nat (1000 + k)"
  by (induction k) (simp_all add: NewTrafficController_def tcPriority_def)

text \<open>
  The priorities of the filters: the first 2047 requests get 1001, 1002 and so on, so that every filter
  has a priority of its own; from the 2048th on a request fails although 2048 filters are announced as
  the limit. The counter goes on counting and after \<open>2 ^ 32\<close> it hands out 0, which the command omits.
\<close>

theorem getNewPriority_limit:
  fixes d :: bool and k :: nat
  defines "t \<equiv> ((\<lambda>t. snd (getNewPriority t)) ^^ k) (NewTrafficController d)"
  shows "(k < 2047 \<longrightarrow> fst (getNewPriority t) = Inr (of_nat (1001 + k))) \<and>
    (2047 \<le> k \<and> k < 2 ^ 32 - 1001 \<longrightarrow> fst (getNewPriority t) = Inl Too_many_filters) \<and>
    (k = 2 ^ 32 - 1001 \<longrightarrow> fst (getNewPriority t) = Inr 0)"
proof -
  have p: "tcFilterPriority t + 1 = of_nat (1001 + k)"
    unfolding t_def priority_after by simp
  have "unat (of_nat (1001 + k) :: u32) = 1001 + k" if "k < 2 ^ 32 - 1001"
    using that by (subst unat_of_nat) simp
  then have le: "MaximumTCFilters + tcPriority \<le> of_nat (1001 + k) \<longleftrightarrow> 2047 \<le> k" if "k < 2 ^ 32 - 1001"
    using that by (simp add: word_le_nat_alt MaximumTCFilters_def tcPriority_def)
  have "of_nat (1001 + k) = (0 :: u32)" if "k = 2 ^ 32 - 1001"
    unfolding that by (simp add: word_of_nat_eq_0_iff)
  then show ?thesis
    using le p by (auto simp: getNewPriority_def Let_def MaximumTCFilters_def tcPriority_def)
qed

theorem getNewPriority_limit_witness:
  "fst (getNewPriority (((\<lambda>t. snd (getNewPriority t)) ^^ 2046) (NewTrafficController False))) = Inr 3047 \<and>
   fst (getNewPriority (((\<lambda>t. snd (getNewPriority t)) ^^ 2047) (NewTrafficController False))) = Inl Too_many_filters"
proof
  have "fst (getNewPriority (((\<lambda>t. snd (getNewPriority t)) ^^ 2046) (NewTrafficController False))) =
      Inr (of_nat (1001 + 2046))"
    by (rule getNewPriority_limit [of 2046 False, THEN conjunct1, THEN mp]) simp
  moreover have "of_nat (1001 + 2046) = (3047 :: u32)" by simp
  ultimately show "fst (getNewPriority (((\<lambda>t. snd (getNewPriority t)) ^^ 2046) (NewTrafficController False))) = Inr 3047"
    by (simp only:)
  show "fst (getNewPriority (((\<lambda>t. snd (getNewPriority t)) ^^ 2047) (NewTrafficController False))) = Inl Too_many_filters"
    by (rule getNewPriority_limit [of 2047 False, THEN conjunct2, THEN conjunct1, THEN mp]) simp
qed

section \<open>The selection\<close>

lemma sort_key_mset:
  assumes "mset xs = mset ys" and "inj_on f (set xs)"
  shows "sort_key f xs = sort_key f ys"
proof (rule properties_for_sort_key [symmetric])
  show "mset (sort_key f xs) = mset ys" using assms(1) by simp
  show "sorted (map f (sort_key f xs))" by simp
  show "filter (\<lambda>x. f k = f x) (sort_key f xs) = filter (\<lambda>x. f k = f x) ys" if "k \<in> set (sort_key f xs)" for k
  proof -
    have s: "set ys = set xs" using assms(1) by (metis mset_eq_setD)
    have k: "k \<in> set xs" using that by simp
    have one: "filter (\<lambda>x. f k = f x) zs = replicate (count (mset zs) k) k" if "set zs = set xs" for zs
    proof -
      have "filter (\<lambda>x. f k = f x) zs = filter (\<lambda>x. k = x) zs"
        using assms(2) k that by (intro filter_cong) (auto dest: inj_onD)
      moreover have "filter (\<lambda>x. k = x) zs = replicate (count (mset zs) k) k" by (induction zs) auto
      ultimately show ?thesis by simp
    qed
    have "count (mset (sort_key f xs)) k = count (mset ys) k" using assms(1) by simp
    then show ?thesis using one [of "sort_key f xs"] one [of ys] s by simp
  qed
qed

text \<open>For fewer than \<open>2 ^ 32\<close> addresses no rounding shows: the count is the exact share, rounded up.\<close>

lemma select_count_eq:
  assumes "n < 2 ^ 32" and "p < 100"
  shows "select_count n p = (n * nat p + 99) div 100"
proof -
  have "n * nat p \<le> 2 ^ 32 * 100" using assms by (intro mult_le_mono) auto
  then have "n * nat p < 2 ^ 46" by simp
  moreover have "round53 n = n" "round53 (nat p) = nat p" "round53 (n * nat p) = n * nat p"
    using assms \<open>n * nat p < 2 ^ 46\<close> by (intro round53_small; simp)+
  ultimately show ?thesis
    using f64_ceil_percent [of "n * nat p"] by (simp add: select_count_def f64_mult_def f64_nat_def)
qed

lemma share_bounds:
  assumes "0 < n" and "0 < p" and "p < 100"
  shows "0 < (n * nat p + 99) div 100" and "(n * nat p + 99) div 100 \<le> n"
proof -
  have "0 < n * nat p" "n * nat p \<le> n * 99" using assms by simp_all
  then show "0 < (n * nat p + 99) div 100" "(n * nat p + 99) div 100 \<le> n" using assms(1) by linarith+
qed

lemma share_mono: "p \<le> q \<Longrightarrow> (n * nat p + 99) div 100 \<le> (n * nat q + 99) div 100"
  by (intro div_le_mono add_mono mult_le_mono nat_mono) auto

text \<open>
  C32: The selection of a share of the addresses depends on the addresses, not on the order in which they
  were resolved, when their hashes differ: every injector of a disruption selects the same ones. Of \<open>n\<close> addresses
  (fewer than \<open>2 ^ 32\<close>) and a share of \<open>p\<close> percent, below 100, it takes \<open>n * p / 100\<close> rounded up, so at least one,
  and a larger share contains a smaller one.
\<close>

theorem SelectIPsByPercentage_consistent:
  assumes "mset ips = mset ips'" and "inj_on (\<lambda>ip. hash ip seed) (set ips)" and "ips \<noteq> []"
    and "0 < p" and "p \<le> q" and "q < 100" and "length ips < 2 ^ 32"
  shows "set (SelectIPsByPercentage hash ips p seed) = set (SelectIPsByPercentage hash ips' p seed) \<and>
    length (SelectIPsByPercentage hash ips p seed) = (length ips * nat p + 99) div 100 \<and>
    SelectIPsByPercentage hash ips p seed \<noteq> [] \<and>
    set (SelectIPsByPercentage hash ips p seed) \<subseteq> set (SelectIPsByPercentage hash ips q seed)"
proof -
  let ?S = "sort_key (\<lambda>ip. hash ip seed) ips" and ?c = "\<lambda>r. (length ips * nat r + 99) div 100"
  have l: "length ips' = length ips" "set ips' = set ips" using assms(1) by (metis size_mset, metis mset_eq_setD)
  have s: "sort_key (\<lambda>ip. hash ip seed) ips' = ?S" using sort_key_mset [OF assms(1,2)] by simp
  have n: "ips' \<noteq> []" using l(1) assms(3) by auto
  have eq: "SelectIPsByPercentage hash ips r seed = (if ?c r \<ge> length ips then ips else take (?c r) ?S)"
    if "0 < r" "r < 100" for r
    using that assms(3) by (simp add: SelectIPsByPercentage_def Let_def select_count_eq [OF assms(7)])
  have eq': "SelectIPsByPercentage hash ips' p seed = (if ?c p \<ge> length ips then ips' else take (?c p) ?S)"
    using assms(4-6) n by (simp add: SelectIPsByPercentage_def Let_def l s select_count_eq [OF assms(7)])
  have pos: "0 < ?c p" "?c p \<le> length ips" using share_bounds [of "length ips" p] assms(3-6) by auto
  have le: "?c p \<le> ?c q" by (rule share_mono [OF assms(5)])
  have "set (SelectIPsByPercentage hash ips p seed) \<subseteq> set (SelectIPsByPercentage hash ips q seed)"
    using le eq [of p] eq [of q] assms(4-6) set_take_subset_set_take [OF le, of ?S] set_take_subset [of _ ?S] by auto
  moreover have "?S \<noteq> []" using assms(3) by (metis length_0_conv length_sort)
  moreover have "length (SelectIPsByPercentage hash ips p seed) = ?c p" using eq [of p] assms(4-6) pos by auto
  moreover have "SelectIPsByPercentage hash ips p seed \<noteq> []" using calculation(3) pos(1) by (metis length_0_conv not_gr0)
  ultimately show ?thesis using eq [of p] eq' assms(4-6) l by auto
qed

theorem SelectIPsByPercentage_consistent_witness:
  "let hash = (\<lambda>ip seed. of_nat (length ip)); ips = [''::2'', ''10.0.0.1'', ''10.0.0.21'']
   in set (SelectIPsByPercentage hash ips 34 ''s'') = set (SelectIPsByPercentage hash (rev ips) 34 ''s'') \<and>
     length (SelectIPsByPercentage hash ips 34 ''s'') = 2"
  using SelectIPsByPercentage_consistent [of "[''::2'', ''10.0.0.1'', ''10.0.0.21'']" "rev [''::2'', ''10.0.0.1'', ''10.0.0.21'']"
      "\<lambda>ip seed. of_nat (length ip)" "''s''" 34 34]
  by (simp add: inj_on_def add_mset_commute)

end
