(* ===== verification/Host_Resolver.thy ===== *)
theory Host_Resolver
  imports Traffic_Control
begin

text \<open>
  The resolution of a host to networks (\<open>src/injector/ipresolver.go\<close>), with what it uses of Go's package
  \<open>net\<close>: parsing addresses and networks, and the text of a network. Addresses are byte sequences of
  length 4 or 16, a nil address is the empty one. The DNS client is a parameter.
\<close>

unbundle bit_operations_syntax

section \<open>Addresses of the package net\<close>

text \<open>
  Four decimal fs of at most 255 without leading zeros. The state is the fs read so far, the value
  of the current one and its number of digits; a dot must follow a digit and be followed by something.
\<close>

fun v4_loop :: "string \<Rightarrow> bytes \<Rightarrow> nat \<Rightarrow> nat \<Rightarrow> bytes option" where
  "v4_loop [] fs val digLen = (if length fs < 3 then None else Some (fs @ [of_nat val]))"
| "v4_loop (c # s) fs val digLen =
     (case digit c of
        Some d \<Rightarrow>
          if digLen = 1 \<and> val = 0 then None
          else if val * 10 + d > 255 then None
          else v4_loop s fs (val * 10 + d) (digLen + 1)
      | None \<Rightarrow>
          if c = CHR ''.''
          then if digLen = 0 \<or> s = [] then None
               else if length fs = 3 then None
               else v4_loop s (fs @ [of_nat val]) 0 0
          else None)"

definition parseIPv4 :: "string \<Rightarrow> bytes option" where
  "parseIPv4 s = v4_loop s [] 0 0"

definition hex_digit :: "char \<Rightarrow> nat option" where
  "hex_digit c =
     (let n = of_char c :: nat
      in if 48 \<le> n \<and> n \<le> 57 then Some (n - 48)
         else if 97 \<le> n \<and> n \<le> 102 then Some (n - 87)
         else if 65 \<le> n \<and> n \<le> 70 then Some (n - 55)
         else None)"

text \<open>A group of hexadecimal digits: their number, the value and the rest; more than four are an error.\<close>

fun hex_group :: "string \<Rightarrow> nat \<Rightarrow> nat \<Rightarrow> (nat \<times> nat \<times> string) option" where
  "hex_group [] n acc = Some (n, acc, [])"
| "hex_group (c # s) n acc =
     (case hex_digit c of
        None \<Rightarrow> Some (n, acc, c # s)
      | Some h \<Rightarrow> if n > 3 then None else hex_group s (n + 1) (acc * 16 + h))"

text \<open>
  The loop over the groups: \<open>k\<close> is how many groups there is room for. The result is the bytes, the place of
  the ellipsis and the text left. A text with a zone ends in an error, since neither \<open>ParseIP\<close> nor
  \<open>ParseCIDR\<close> takes one.
\<close>

fun v6_loop :: "nat \<Rightarrow> bytes \<Rightarrow> nat option \<Rightarrow> string \<Rightarrow> (bytes \<times> nat option \<times> string) option" where
  "v6_loop 0 ip ellipsis s = Some (ip, ellipsis, s)"
| "v6_loop (Suc k) ip ellipsis s =
     (case hex_group s 0 0 of
        None \<Rightarrow> None
      | Some (n, acc, rest) \<Rightarrow>
          if n = 0 then None
          else if rest \<noteq> [] \<and> hd rest = CHR ''.''
          then if ellipsis = None \<and> length ip \<noteq> 12 then None
               else if length ip + 4 > 16 then None
               else (case parseIPv4 s of None \<Rightarrow> None | Some b \<Rightarrow> Some (ip @ b, ellipsis, []))
          else (let ip = ip @ [of_nat (acc div 256), of_nat acc]
            in case rest of
                 [] \<Rightarrow> Some (ip, ellipsis, [])
               | c # s \<Rightarrow>
                   if c \<noteq> CHR '':'' \<or> s = [] then None
                   else if hd s = CHR '':''
                   then if ellipsis \<noteq> None then None
                        else if tl s = [] then Some (ip, Some (length ip), [])
                        else v6_loop k ip (Some (length ip)) (tl s)
                   else v6_loop k ip ellipsis s))"

definition parseIPv6 :: "string \<Rightarrow> bytes option" where
  "parseIPv6 s =
     (if s = ''::'' then Some (replicate 16 0)
      else (case (if take 2 s = ''::'' then v6_loop 8 [] (Some 0) (drop 2 s) else v6_loop 8 [] None s) of
          None \<Rightarrow> None
        | Some (ip, ellipsis, rest) \<Rightarrow>
            if rest \<noteq> [] then None
            else (case ellipsis of
                None \<Rightarrow> if length ip < 16 then None else Some ip
              | Some e \<Rightarrow>
                  if length ip < 16 then Some (take e ip @ replicate (16 - length ip) 0 @ drop e ip) else None)))"

text \<open>\<open>netip.ParseAddr\<close>: the first dot, colon or percent sign decides.\<close>

definition ParseAddr :: "string \<Rightarrow> bytes option" where
  "ParseAddr s =
     (case filter (\<lambda>c. c \<in> {CHR ''.'', CHR '':'', CHR ''%''}) s of
        c # _ \<Rightarrow> if c = CHR ''.'' then parseIPv4 s else if c = CHR '':'' then parseIPv6 s else None
      | [] \<Rightarrow> None)"

definition v4InV6Prefix :: bytes where "v4InV6Prefix = replicate 10 0 @ [0xff, 0xff]"

definition As16 :: "bytes \<Rightarrow> bytes" where
  "As16 ip = (if length ip = 4 then v4InV6Prefix @ ip else ip)"

definition ParseIP :: "string \<Rightarrow> bytes option" where "ParseIP s = map_option As16 (ParseAddr s)"

definition To4 :: "bytes \<Rightarrow> bytes option" where
  "To4 ip = (if length ip = 4 then Some ip
     else if length ip = 16 \<and> take 12 ip = v4InV6Prefix then Some (drop 12 ip) else None)"

section \<open>Networks\<close>

record ipnet =
  net_IP :: bytes
  net_Mask :: bytes

definition CIDRMask :: "nat \<Rightarrow> nat \<Rightarrow> bytes" where
  "CIDRMask ones bits = map (\<lambda>i. let n = min 8 (ones - 8 * i) in 256 - 2 ^ (8 - n)) [0..<bits div 8]"

text \<open>\<open>IP.Mask\<close>; the mask of an IPv4 network has four bytes.\<close>

definition Mask_ip :: "bytes \<Rightarrow> bytes \<Rightarrow> bytes" where
  "Mask_ip msk ip =
     (let msk = (if length msk = 16 \<and> length ip = 4 \<and> take 12 msk = replicate 12 0xff then drop 12 msk else msk);
          ip = (if length msk = 4 \<and> length ip = 16 \<and> take 12 ip = v4InV6Prefix then drop 12 ip else ip)
      in if length ip \<noteq> length msk then [] else map2 (AND) ip msk)"

text \<open>\<open>dtoi\<close>: the number at the start of a text, which must be all of it here.\<close>

definition mask_bits :: "string \<Rightarrow> nat option" where
  "mask_bits s = (if s = [] then None
     else (case parse_digits 10 s 0 of Some n \<Rightarrow> if n < 0xFFFFFF then Some n else None | None \<Rightarrow> None))"

definition ParseCIDR :: "string \<Rightarrow> ipnet option" where
  "ParseCIDR s =
     (if CHR ''/'' \<notin> set s then None
      else (let addr = takeWhile (\<lambda>c. c \<noteq> CHR ''/'') s; msk = tl (dropWhile (\<lambda>c. c \<noteq> CHR ''/'') s)
        in case ParseAddr addr of
             None \<Rightarrow> None
           | Some ip \<Rightarrow>
               (case mask_bits msk of
                  None \<Rightarrow> None
                | Some n \<Rightarrow>
                    if n > 8 * length ip then None
                    else (let m = CIDRMask n (8 * length ip)
                      in Some \<lparr>net_IP = Mask_ip m (As16 ip), net_Mask = m\<rparr>))))"

text \<open>The texts of addresses.\<close>

definition v4_text :: "bytes \<Rightarrow> string" where
  "v4_text ip = Itoa (unat (ip ! 0)) @ ''.'' @ Itoa (unat (ip ! 1)) @ ''.'' @ Itoa (unat (ip ! 2)) @ ''.'' @
     Itoa (unat (ip ! 3))"

definition hex_char :: "nat \<Rightarrow> char" where
  "hex_char d = (if d < 10 then char_of (48 + d) else char_of (87 + d))"

definition hex_text :: "nat \<Rightarrow> string" where
  "hex_text n =
     (if n \<ge> 0x1000 then [hex_char (n div 0x1000)] else []) @ (if n \<ge> 0x100 then [hex_char (n div 0x100 mod 16)] else []) @
     (if n \<ge> 0x10 then [hex_char (n div 0x10 mod 16)] else []) @ [hex_char (n mod 16)]"

definition v6_groups :: "bytes \<Rightarrow> nat list" where
  "v6_groups ip = map (\<lambda>i. unat (ip ! (2 * i)) * 256 + unat (ip ! (2 * i + 1))) [0..<8]"

text \<open>The first longest run of at least two zero groups: its start and end.\<close>

definition zero_run :: "nat list \<Rightarrow> nat \<times> nat" where
  "zero_run gs = foldl (\<lambda>(a, b) i. let l = length (takeWhile (\<lambda>g. g = 0) (drop i gs))
     in if l \<ge> 2 \<and> l > b - a then (i, i + l) else (a, b)) (255, 255) [0..<8]"

definition v6_text :: "bytes \<Rightarrow> string" where
  "v6_text ip =
     (let gs = v6_groups ip; join = (\<lambda>xs. concat (map (\<lambda>(i, g). (if i = 0 then [] else '':'') @ hex_text g) (enumerate 0 xs)))
      in case zero_run gs of (a, b) \<Rightarrow>
           if a = 255 then join gs else join (take a gs) @ ''::'' @ join (drop b gs))"

text \<open>The length of a mask of ones followed by zeros; a byte of \<open>n\<close> ones is \<open>256 - 2 ^ (8 - n)\<close>.\<close>

definition byte_ones :: "u8 \<Rightarrow> nat option" where
  "byte_ones v = find (\<lambda>n. v = 256 - 2 ^ (8 - n)) [0..<8]"

fun simpleMaskLength :: "bytes \<Rightarrow> nat option" where
  "simpleMaskLength [] = Some 0"
| "simpleMaskLength (v # m) =
     (if v = 0xff then map_option ((+) 8) (simpleMaskLength m)
      else if \<forall>w \<in> set m. w = 0 then byte_ones v else None)"

text \<open>
  \<open>networkNumberAndMask\<close> and \<open>IPNet.String\<close>. A mask that does not consist of ones followed by zeros
  would print in hexadecimal; no network here has one.
\<close>

definition networkNumberAndMask :: "ipnet \<Rightarrow> (bytes \<times> bytes) option" where
  "networkNumberAndMask n =
     (case (case To4 (net_IP n) of Some ip \<Rightarrow> Some ip | None \<Rightarrow> if length (net_IP n) = 16 then Some (net_IP n) else None) of
        None \<Rightarrow> None
      | Some ip \<Rightarrow>
          if length (net_Mask n) = 4 then if length ip = 4 then Some (ip, net_Mask n) else None
          else if length (net_Mask n) = 16 then Some (ip, if length ip = 4 then drop 12 (net_Mask n) else net_Mask n)
          else None)"

definition ipnet_String :: "ipnet \<Rightarrow> string" where
  "ipnet_String n =
     (case networkNumberAndMask n of
        None \<Rightarrow> ''<nil>''
      | Some (ip, m) \<Rightarrow>
          (case simpleMaskLength m of
             None \<Rightarrow> ''<nil>''
           | Some l \<Rightarrow> (if length ip = 4 then v4_text ip else v6_text ip) @ ''/'' @ Itoa l))"

section \<open>resolveHost\<close>

text \<open>The DNS client gives the addresses of a name, or an error.\<close>

type_synonym dns_client = "string \<Rightarrow> string \<Rightarrow> bytes list option"

definition single_net :: "bytes \<Rightarrow> ipnet" where
  "single_net ip = \<lparr>net_IP = ip, net_Mask = CIDRMask 32 32\<rparr>"

definition null_net :: ipnet where
  "null_net = \<lparr>net_IP = [0, 0, 0, 0], net_Mask = [0, 0, 0, 0]\<rparr>"

definition resolveHost :: "dns_client \<Rightarrow> string \<Rightarrow> string \<Rightarrow> ipnet list option" where
  "resolveHost client host dnsStrategy =
     (if host = '''' then Some [null_net]
      else (case ParseCIDR host of
          Some n \<Rightarrow> Some [n]
        | None \<Rightarrow>
            (case ParseIP host of
               None \<Rightarrow>
                 (case client host dnsStrategy of
                    None \<Rightarrow> None
                  | Some ips \<Rightarrow> if ips = [] then None else Some (map single_net ips))
             | Some ip \<Rightarrow>
                 if take 12 ip \<noteq> replicate 10 0 @ [0xff, 0xff] then None
                 else Some [single_net (slice 12 4 ip)])))"

section \<open>Addresses and their texts\<close>

lemma v4_loop_Itoa:
  "n < 256 \<Longrightarrow> v4_loop (Itoa n @ s) fs 0 0 = v4_loop s fs n (length (Itoa n))"
proof (induction n arbitrary: s rule: Itoa.induct)
  case (1 n)
  show ?case
  proof (cases "n < 10")
    case True
    then show ?thesis by (subst (1 2) Itoa.simps) (simp add: digit_char_of)
  next
    case False
    then have "Itoa n = Itoa (n div 10) @ [char_of (48 + n mod 10)]" by (subst Itoa.simps) simp
    moreover have "v4_loop (Itoa (n div 10) @ char_of (48 + n mod 10) # s) fs 0 0 =
        v4_loop (char_of (48 + n mod 10) # s) fs (n div 10) (length (Itoa (n div 10)))"
      using 1 False by auto
    moreover have "n div 10 \<noteq> 0" using False by auto
    moreover have "n div 10 * 10 + n mod 10 = n" by simp
    ultimately show ?thesis using 1(2) by (simp add: digit_char_of del: div_mult_mod_eq)
  qed
qed

lemma dot_no_digit [simp]: "digit (CHR ''.'') = None" by (simp add: digit_def)

lemma parseIPv4_text: "parseIPv4 (v4_text [a, b, c, d]) = Some [a, b, c, d]"
proof -
  have lt: "unat w < 256" for w :: u8 using unsigned_less [of w] by simp
  have last: "v4_loop (Itoa (unat w)) fs 0 0 = v4_loop [] fs (unat w) (length (Itoa (unat w)))" for w :: u8 and fs
    using v4_loop_Itoa [OF lt, of w "[]"] by simp
  show ?thesis
    by (simp add: parseIPv4_def v4_text_def v4_loop_Itoa lt last)
qed

text \<open>The characters of a number are digits.\<close>

lemma Itoa_digits: "\<forall>c \<in> set (Itoa n). digit c \<noteq> None"
proof (induction n rule: Itoa.induct)
  case (1 n)
  then show ?case by (subst Itoa.simps) (auto simp: digit_char_of)
qed

lemma digit_not [simp]: "digit (CHR ''/'') = None" "digit (CHR '':'') = None" "digit (CHR ''%'') = None"
  by (simp_all add: digit_def)

lemma Itoa_free: "digit c = None \<Longrightarrow> c \<notin> set (Itoa n)"
  using Itoa_digits by blast

lemma filter_Itoa: "filter (\<lambda>c. c = CHR ''.'' \<or> c = CHR '':'' \<or> c = CHR ''%'') (Itoa n) = []"
  using Itoa_free by (auto simp: filter_empty_conv)

lemma ParseAddr_text: "ParseAddr (v4_text [a, b, c, d]) = Some [a, b, c, d]"
  unfolding ParseAddr_def parseIPv4_text
  by (simp add: v4_text_def filter_Itoa parseIPv4_text [unfolded v4_text_def, simplified])

lemma v4_text_no_slash: "CHR ''/'' \<notin> set (v4_text ip)"
  by (simp add: v4_text_def Itoa_free)

lemma simpleMaskLength_CIDRMask: "k \<le> 32 \<Longrightarrow> simpleMaskLength (CIDRMask k 32) = Some k"
proof -
  have "list_all (\<lambda>k. simpleMaskLength (CIDRMask k 32) = Some k) [0..<33]" by code_simp
  then show "k \<le> 32 \<Longrightarrow> simpleMaskLength (CIDRMask k 32) = Some k" by (simp add: list_all_iff)
qed

lemma length_CIDRMask [simp]: "length (CIDRMask k b) = b div 8"
  by (simp add: CIDRMask_def)

lemma mask_bits_Itoa: "k \<le> 128 \<Longrightarrow> mask_bits (Itoa k) = Some k"
  by (simp add: mask_bits_def parse_Itoa)

lemma ipnet_String_v4:
  "length ip = 4 \<Longrightarrow> k \<le> 32 \<Longrightarrow> ipnet_String \<lparr>net_IP = ip, net_Mask = CIDRMask k 32\<rparr> = v4_text ip @ ''/'' @ Itoa k"
  by (simp add: ipnet_String_def networkNumberAndMask_def To4_def simpleMaskLength_CIDRMask)

text \<open>
  C31: IPv4 addresses and networks reach the filters as written: an address in dotted notation becomes the
  network of this address alone, a network becomes the network with the host bits cleared, and the text of
  either, which is what the filter commands contain, is its canonical notation.
\<close>

theorem resolveHost_ipv4:
  assumes "k \<le> 32"
  shows "map_option (map ipnet_String) (resolveHost client (v4_text [a, b, c, d]) strategy) =
      Some [v4_text [a, b, c, d] @ ''/32''] \<and>
    map_option (map ipnet_String) (resolveHost client (v4_text [a, b, c, d] @ ''/'' @ Itoa k) strategy) =
      Some [v4_text (map2 (AND) [a, b, c, d] (CIDRMask k 32)) @ ''/'' @ Itoa k]"
proof
  let ?t = "v4_text [a, b, c, d]"
  have ne: "?t \<noteq> []" by (simp add: v4_text_def)
  have "ParseCIDR ?t = None" by (simp add: ParseCIDR_def v4_text_no_slash)
  moreover have "ParseIP ?t = Some (v4InV6Prefix @ [a, b, c, d])" by (simp add: ParseIP_def ParseAddr_text As16_def)
  moreover have "Itoa 32 = ''32''" by (simp add: Itoa.simps char_of_def bit_0)
  ultimately show "map_option (map ipnet_String) (resolveHost client ?t strategy) = Some [?t @ ''/32'']"
    using ne by (simp add: resolveHost_def single_net_def ipnet_String_v4 v4InV6Prefix_def slice_def)
  have tw: "takeWhile (\<lambda>c. c \<noteq> CHR ''/'') (?t @ CHR ''/'' # Itoa k) = ?t"
    "dropWhile (\<lambda>c. c \<noteq> CHR ''/'') (?t @ CHR ''/'' # Itoa k) = CHR ''/'' # Itoa k"
    using v4_text_no_slash by (subst takeWhile_append2 dropWhile_append2; fastforce)+
  have "Mask_ip (CIDRMask k 32) (v4InV6Prefix @ [a, b, c, d]) = map2 (AND) [a, b, c, d] (CIDRMask k 32)"
    by (simp add: Mask_ip_def v4InV6Prefix_def)
  then have "ParseCIDR (?t @ ''/'' @ Itoa k) =
      Some \<lparr>net_IP = map2 (AND) [a, b, c, d] (CIDRMask k 32), net_Mask = CIDRMask k 32\<rparr>"
    using assms by (simp add: ParseCIDR_def tw ParseAddr_text mask_bits_Itoa As16_def Let_def)
  then show "map_option (map ipnet_String) (resolveHost client (?t @ ''/'' @ Itoa k) strategy) =
      Some [v4_text (map2 (AND) [a, b, c, d] (CIDRMask k 32)) @ ''/'' @ Itoa k]"
    using ne assms by (simp add: resolveHost_def ipnet_String_v4)
qed

theorem resolveHost_ipv4_witness:
  "map_option (map ipnet_String) (resolveHost (\<lambda>_ _. None) (v4_text [10, 1, 2, 3]) ''pod'') = Some [v4_text [10, 1, 2, 3] @ ''/32''] \<and>
   map_option (map ipnet_String) (resolveHost (\<lambda>_ _. None) (v4_text [10, 1, 2, 3] @ ''/'' @ Itoa 8) ''pod'') =
     Some [v4_text (map2 (AND) [10, 1, 2, 3] (CIDRMask 8 32)) @ ''/'' @ Itoa 8]"
  by (rule resolveHost_ipv4) simp

lemma upt_8: "[0..<8] = [0, 1, 2, 3, 4, 5, 6, 7]"
  by (simp add: upt_conv_Cons)

lemma ParseAddr_sample:
  "ParseAddr ''2001:db8::'' = Some [0x20, 1, 0x0d, 0xb8, 0, 0, 0, 0, 0, 0, 0, 0, 0, 0, 0, 0]"
  "ParseAddr ''2001:db8::1'' = Some [0x20, 1, 0x0d, 0xb8, 0, 0, 0, 0, 0, 0, 0, 0, 0, 0, 0, 1]"
  by (simp_all add: ParseAddr_def parseIPv6_def hex_digit_def Let_def v6_loop.simps(2) [of 7, simplified]
    v6_loop.simps(2) [of 6, simplified] v6_loop.simps(2) [of 5, simplified]) (simp_all add: eval_nat_numeral)

text \<open>
  A single IPv6 address is refused, but an IPv6 network is accepted and its text is put into a filter
  for the protocol \<open>ip\<close>, where no IPv6 packet can match.
\<close>

theorem resolveHost_ipv6_network:
  "resolveHost client ''2001:db8::1'' strategy = None \<and>
   map_option (map ipnet_String) (resolveHost client ''2001:db8::/32'' strategy) = Some [''2001:db8::/32'']"
proof -
  let ?ip = "[0x20, 1, 0x0d, 0xb8, 0, 0, 0, 0, 0, 0, 0, 0, 0, 0, 0, 0] :: bytes"
  have digits: "hex_char 0 = CHR ''0''" "hex_char 1 = CHR ''1''" "hex_char (Suc 0) = CHR ''1''" "hex_char 2 = CHR ''2''"
    "hex_char 8 = CHR ''8''" "hex_char 11 = CHR ''b''" "hex_char 13 = CHR ''d''"
    by code_simp+
  have groups: "v6_groups ?ip = [0x2001, 0xdb8, 0, 0, 0, 0, 0, 0]" by (simp add: v6_groups_def upt_8)
  have run: "zero_run [0x2001, 0xdb8, 0, 0, 0, 0, 0, 0] = (2, 8)" by (simp add: zero_run_def upt_8 Let_def)
  have text6: "v6_text ?ip = ''2001:db8::''" by (simp add: v6_text_def groups run Let_def hex_text_def digits)
  have thirty_two: "Itoa 32 = ''32''" by (simp add: Itoa.simps char_of_def bit_0)
  then have bits: "mask_bits ''32'' = Some 32" using mask_bits_Itoa [of 32] by simp
  have m: "simpleMaskLength (CIDRMask 32 128) = Some 32" "Mask_ip (CIDRMask 32 128) ?ip = ?ip" by code_simp+
  have net: "ParseCIDR ''2001:db8::/32'' = Some \<lparr>net_IP = ?ip, net_Mask = CIDRMask 32 128\<rparr>"
    by (simp add: ParseCIDR_def ParseAddr_sample bits m As16_def Let_def)
  have "ipnet_String \<lparr>net_IP = ?ip, net_Mask = CIDRMask 32 128\<rparr> = ''2001:db8::/32''"
    by (simp add: ipnet_String_def networkNumberAndMask_def To4_def v4InV6Prefix_def m text6 thirty_two)
  moreover have "ParseCIDR ''2001:db8::1'' = None" by (simp add: ParseCIDR_def)
  moreover have "ParseIP ''2001:db8::1'' = Some [0x20, 1, 0x0d, 0xb8, 0, 0, 0, 0, 0, 0, 0, 0, 0, 0, 0, 1]"
    by (simp add: ParseIP_def ParseAddr_sample As16_def)
  ultimately show ?thesis by (simp add: resolveHost_def net)
qed

section \<open>The texts have no blanks\<close>

lemma hex_char_not_blank: "d < 16 \<Longrightarrow> hex_char d \<noteq> CHR '' ''"
proof
  assume d: "d < 16" and "hex_char d = CHR '' ''"
  then have "of_char (hex_char d) = (of_char (CHR '' '') :: nat)" by simp
  then show False using d by (simp add: hex_char_def del: of_char_eq_iff split: if_splits)
qed

lemma blank_free_hex_text: "n < 0x10000 \<Longrightarrow> blank_free (hex_text n)"
  by (simp add: hex_text_def hex_char_not_blank less_mult_imp_div_less)

lemma blank_free_concat: "(\<And>x. x \<in> set xs \<Longrightarrow> blank_free x) \<Longrightarrow> blank_free (concat xs)"
  by (induction xs) simp_all

lemma v6_groups_small: "g \<in> set (v6_groups ip) \<Longrightarrow> g < 0x10000"
proof -
  have lt: "unat w \<le> 255" for w :: u8 using unsigned_less [of w, where 'a = nat] by simp
  assume "g \<in> set (v6_groups ip)"
  then obtain i where g: "g = unat (ip ! (2 * i)) * 256 + unat (ip ! (2 * i + 1))" by (auto simp: v6_groups_def)
  then show "g < 0x10000" using lt [of "ip ! (2 * i)"] lt [of "ip ! (2 * i + 1)"] by linarith
qed

lemma blank_free_join:
  assumes "\<forall>g \<in> set gs. g < 0x10000"
  shows "blank_free (concat (map (\<lambda>(i, g). (if i = 0 then [] else '':'') @ hex_text g) (enumerate k gs)))"
  by (rule blank_free_concat) (use assms in \<open>auto simp: blank_free_hex_text dest!: in_set_enumerate_eq [THEN iffD1]\<close>)

lemma blank_free_v6_text: "blank_free (v6_text ip)"
proof -
  have "\<forall>g \<in> set (v6_groups ip). g < 0x10000" using v6_groups_small by blast
  then show ?thesis
    unfolding v6_text_def Let_def
    by (auto intro!: blank_free_join dest: in_set_takeD in_set_dropD split: prod.split)
qed

lemma blank_free_ipnet_String: "blank_free (ipnet_String n)"
  by (auto simp: ipnet_String_def v4_text_def blank_free_v6_text split: option.splits)

text \<open>The text of the network in a notation, if it is one.\<close>

definition cidr_String :: "string \<Rightarrow> string option" where
  "cidr_String s = map_option ipnet_String (ParseCIDR s)"

lemma ip_ok_cidr_String [simp]: "ip_ok (cidr_String s)"
  by (cases "ParseCIDR s") (simp_all add: ip_ok_def cidr_String_def blank_free_ipnet_String)

end
