(* ===== verification/Service_Filters.thy ===== *)
theory Service_Filters
  imports Host_Resolver
begin

text \<open>
  The filters for Kubernetes services in the network injector
  (\<open>src/injector/network_disruption.go\<close>): building, adding and removing filters, and the handlers of the
  changes of a service and of its pods. The list of filters is a Go slice that is changed in place: the
  removal is modelled on the backing arrays, because two of its calls pass the same slice as the list and
  as the filters to remove.

  The state of a handler is the watcher and the traffic controller with whether the thread is in the
  target's network namespace. The answers of the Kubernetes client, the namespaces and \<open>tc\<close> are parameters.
\<close>

section \<open>Services and filters\<close>

text \<open>\<open>networkDisruptionService\<close> and \<open>tcServiceFilter\<close>; an address is the text of its network.\<close>

record service_addr =
  sa_ip :: "string option"
  sa_port :: int
  sa_protocol :: string

record service_filter =
  sf_service :: service_addr
  sf_priority :: u32

definition service_String :: "service_addr \<Rightarrow> string" where
  "service_String n = ''ip='' @ (case sa_ip n of None \<Rightarrow> [] | Some ip \<Rightarrow> ip) @
     ''; port='' @ show_int (sa_port n) @ ''; protocol='' @ sa_protocol n"

text \<open>\<open>findServiceFilter\<close>: the first index, where the code returns -1 for \<^term>\<open>None\<close>.\<close>

fun findServiceFilter :: "service_filter list \<Rightarrow> service_filter \<Rightarrow> nat option" where
  "findServiceFilter [] toFind = None"
| "findServiceFilter (f # fs) toFind =
     (if service_String (sf_service f) = service_String (sf_service toFind) then Some 0
      else map_option Suc (findServiceFilter fs toFind))"

section \<open>Adding and removing filters\<close>

text \<open>One filter per protocol of a service; the filter keeps the priority of the last one.\<close>

fun add_protocols ::
  "executor \<Rightarrow> string list \<Rightarrow> string \<Rightarrow> service_filter \<Rightarrow> string list \<Rightarrow> tc \<Rightarrow> (tc_error + service_filter) \<times> tc" where
  "add_protocols X ifaces flowid f [] t = (Inr f, t)"
| "add_protocols X ifaces flowid f (p # ps) t =
     (case AddFilter X ifaces ''1:0'' '''' None (sa_ip (sf_service f)) 0 (sa_port (sf_service f)) p
        ConnStateUndefined flowid t of
        (Inl e, t) \<Rightarrow> (Inl e, t)
      | (Inr priority, t) \<Rightarrow> add_protocols X ifaces flowid (f\<lparr>sf_priority := priority\<rparr>) ps t)"

fun addServiceFilters ::
  "executor \<Rightarrow> service_filter list \<Rightarrow> string list \<Rightarrow> string \<Rightarrow> tc \<Rightarrow> (tc_error + service_filter list) \<times> tc" where
  "addServiceFilters X [] ifaces flowid t = (Inr [], t)"
| "addServiceFilters X (f # fs) ifaces flowid t =
     (case add_protocols X ifaces flowid f (AllProtocols (sa_protocol (sf_service f))) t of
        (Inl e, t) \<Rightarrow> (Inl e, t)
      | (Inr f, t) \<Rightarrow>
          (case addServiceFilters X fs ifaces flowid t of
             (Inl e, t) \<Rightarrow> (Inl e, t)
           | (Inr built, t) \<Rightarrow> (Inr (f # built), t)))"

fun removeTcFilter :: "executor \<Rightarrow> string list \<Rightarrow> u32 \<Rightarrow> tc \<Rightarrow> tc_error option \<times> tc" where
  "removeTcFilter X [] priority t = (None, t)"
| "removeTcFilter X (iface # ifaces) priority t =
     (case DeleteFilter X iface priority t of
        (Some e, t) \<Rightarrow> (Some e, t)
      | (None, t) \<Rightarrow> removeTcFilter X ifaces priority t)"

definition removeServiceFilter :: "executor \<Rightarrow> string list \<Rightarrow> service_filter \<Rightarrow> tc \<Rightarrow> tc_error option \<times> tc" where
  "removeServiceFilter X ifaces f t = removeTcFilter X ifaces (sf_priority f) t"

text \<open>
  \<open>append(s[:idx], s[idx+1:]...)\<close> on a slice of length \<open>n\<close>: the elements behind \<open>idx\<close> move down by one in
  the backing array, whose last used place keeps its element.
\<close>

definition del_at :: "nat \<Rightarrow> nat \<Rightarrow> 'a list \<Rightarrow> 'a list" where
  "del_at idx n A = take idx A @ slice (idx + 1) (n - idx - 1) A @ drop (n - 1) A"

text \<open>
  \<open>removeServiceFiltersInList\<close>: \<open>mem\<close> holds the backing arrays, \<open>a\<close> is the array of the list with \<open>n\<close>
  elements in use, \<open>b\<close> the array of the filters to remove; the loop visits the indices left. The
  array of the list afterwards is part of the result: the caller's slice still refers to it.
\<close>

type_synonym arrays = "nat \<Rightarrow> service_filter list"

fun remove_loop ::
  "executor \<Rightarrow> string list \<Rightarrow> nat \<Rightarrow> nat \<Rightarrow> nat list \<Rightarrow> arrays \<Rightarrow> nat \<Rightarrow> tc \<Rightarrow>
     (tc_error + service_filter list) \<times> service_filter list \<times> tc" where
  "remove_loop X ifaces a b [] mem n t = (Inr (take n (mem a)), mem a, t)"
| "remove_loop X ifaces a b (i # is) mem n t =
     (case findServiceFilter (take n (mem a)) (mem b ! i) of
        None \<Rightarrow> remove_loop X ifaces a b is mem n t
      | Some idx \<Rightarrow>
          (case removeServiceFilter X ifaces (mem a ! idx) t of
             (Some e, t) \<Rightarrow> (Inl e, mem a, t)
           | (None, t) \<Rightarrow> remove_loop X ifaces a b is (mem(a := del_at idx n (mem a))) (n - 1) t))"

text \<open>Called with two slices, and called with one slice for both arguments.\<close>

definition removeServiceFiltersInList ::
  "executor \<Rightarrow> string list \<Rightarrow> service_filter list \<Rightarrow> service_filter list \<Rightarrow> tc \<Rightarrow>
     (tc_error + service_filter list) \<times> service_filter list \<times> tc" where
  "removeServiceFiltersInList X ifaces tcFilters toRemove t =
     remove_loop X ifaces 0 1 [0..<length toRemove] (\<lambda>k. if k = 0 then tcFilters else toRemove) (length tcFilters) t"

definition removeServiceFiltersInList_same ::
  "executor \<Rightarrow> string list \<Rightarrow> service_filter list \<Rightarrow> tc \<Rightarrow>
     (tc_error + service_filter list) \<times> service_filter list \<times> tc" where
  "removeServiceFiltersInList_same X ifaces tcFilters t =
     remove_loop X ifaces 0 0 [0..<length tcFilters] (\<lambda>k. tcFilters) (length tcFilters) t"

section \<open>Building filters\<close>

record service_port =
  sp_name :: string
  sp_port :: int
  sp_target :: int
  sp_protocol :: string

record pod =
  pod_name :: string
  pod_ip :: string
  pod_version :: string

record service =
  sv_name :: string
  sv_cluster_ip :: string
  sv_selector :: string
  sv_version :: string
  sv_ports :: "service_port list"

text \<open>Adding a filter to the list unless one of the same service is there.\<close>

definition add_new :: "service_filter list \<Rightarrow> service_filter \<Rightarrow> service_filter list" where
  "add_new fs f = (if findServiceFilter fs f = None then fs @ [f] else fs)"

text \<open>The network of an address alone; an address that does not parse gives no network.\<close>

definition buildServiceFiltersFromPod ::
  "pod \<Rightarrow> service_port list \<Rightarrow> service_filter list" where
  "buildServiceFiltersFromPod p servicePorts =
     foldl (\<lambda>fs port. add_new fs \<lparr>sf_service = \<lparr>sa_ip = cidr_String (pod_ip p @ ''/32''), sa_port = sp_target port,
       sa_protocol = sp_protocol port\<rparr>, sf_priority = 0\<rparr>) [] servicePorts"

definition isHeadless :: "service \<Rightarrow> bool" where
  "isHeadless s \<longleftrightarrow> sv_cluster_ip s = '''' \<or> map to_lower (sv_cluster_ip s) = ''none''"

definition buildServiceFiltersFromService ::
  "service \<Rightarrow> service_port list \<Rightarrow> service_filter list" where
  "buildServiceFiltersFromService s servicePorts =
     (if isHeadless s then []
      else foldl (\<lambda>fs port. add_new fs \<lparr>sf_service = \<lparr>sa_ip = cidr_String (sv_cluster_ip s @ ''/32''), sa_port = sp_port port,
        sa_protocol = sp_protocol port\<rparr>, sf_priority = 0\<rparr>) [] servicePorts)"

record port_spec =
  ps_name :: string
  ps_port :: int

record service_spec =
  ss_name :: string
  ss_namespace :: string
  ss_ports :: "port_spec list"
  ss_percentage :: "int option"

text \<open>
  \<open>ExtractAffectedPortsInServicePorts\<close>: of two ports with the same number or name the dictionary keeps the
  last one.
\<close>

definition port_by :: "(service_port \<Rightarrow> bool) \<Rightarrow> service_port list \<Rightarrow> service_port option" where
  "port_by P ports = find P (rev ports)"

fun affected_ports :: "service_port list \<Rightarrow> port_spec list \<Rightarrow> service_port list" where
  "affected_ports ports [] = []"
| "affected_ports ports (allowed # rest) =
     (if ps_port allowed \<noteq> 0
      then (case port_by (\<lambda>p. sp_port p = ps_port allowed) ports of
          None \<Rightarrow> affected_ports ports rest
        | Some p \<Rightarrow> if ps_name allowed \<noteq> '''' \<and> ps_name allowed \<noteq> sp_name p then affected_ports ports rest
            else p # affected_ports ports rest)
      else if ps_name allowed \<noteq> ''''
      then (case port_by (\<lambda>p. sp_name p = ps_name allowed) ports of
          None \<Rightarrow> affected_ports ports rest
        | Some p \<Rightarrow> if sp_port p = ps_port allowed then affected_ports ports rest
            else p # affected_ports ports rest)
      else affected_ports ports rest)"

definition ExtractAffectedPortsInServicePorts :: "service_spec \<Rightarrow> service \<Rightarrow> service_port list" where
  "ExtractAffectedPortsInServicePorts s k8s =
     (if ss_ports s = [] then sv_ports k8s else affected_ports (sv_ports k8s) (ss_ports s))"

text \<open>
  \<open>selectServiceFiltersByPercentage\<close>: the addresses in the order they first occur, a share of them, and
  their filters. An address that did not parse prints as a nil network.
\<close>

definition filter_ip :: "service_filter \<Rightarrow> string" where
  "filter_ip f = (case sa_ip (sf_service f) of None \<Rightarrow> ''<nil>'' | Some ip \<Rightarrow> ip)"

definition selectServiceFiltersByPercentage ::
  "(string \<Rightarrow> string \<Rightarrow> u64) \<Rightarrow> string \<Rightarrow> service_filter list \<Rightarrow> int \<Rightarrow> string \<Rightarrow> string \<Rightarrow> service_filter list" where
  "selectServiceFiltersByPercentage hash uid filters percentage serviceName serviceNamespace =
     (if percentage \<le> 0 \<or> percentage \<ge> 100 \<or> filters = [] then filters
      else (let ips = rev (remdups (rev (map filter_ip filters)));
                selected = SelectIPsByPercentage hash ips percentage (serviceName @ ''-'' @ serviceNamespace @ ''-'' @ uid)
        in concat (map (\<lambda>ip. filter (\<lambda>f. filter_ip f = ip) filters) selected)))"

section \<open>The handlers\<close>

record watcher =
  w_spec :: service_spec
  w_ports :: "service_port list"
  w_pod_filters :: "service_filter list"
  w_pods_without_ip :: "string list"
  w_pods_version :: string
  w_service_filters :: "service_filter list"
  w_services_version :: string

datatype event_type = Added | Modified | Deleted | Bookmark | Error_event

datatype watch_error = Watch_failed | Wrong_object | Enter_failed | List_failed | No_endpoints
  | Exit_failed | Tc_failed tc_error

text \<open>
  The environment of a handler: \<open>tc\<close>, the interfaces, the target class, the hash
  with the id of the disruption, whether the namespace can be entered and left, and the pods with the
  labels of a service.
\<close>

record watch_env =
  we_exec :: executor
  we_ifaces :: "string list"
  we_flowid :: string
  we_hash :: "string \<Rightarrow> string \<Rightarrow> u64"
  we_uid :: string
  we_enter :: bool
  we_exit :: bool
  we_pods :: "string \<Rightarrow> pod list option"

text \<open>The state: the watcher, the controller and whether the thread is in the target's namespace.\<close>

type_synonym watch_state = "watcher \<times> tc \<times> bool"

text \<open>The loop over the old filters: those still wanted are kept, the others are removed.\<close>

fun keep_or_remove ::
  "executor \<Rightarrow> string list \<Rightarrow> service_filter list \<Rightarrow> service_filter list \<Rightarrow> service_filter list \<Rightarrow> tc \<Rightarrow>
     (tc_error + service_filter list \<times> service_filter list) \<times> tc" where
  "keep_or_remove X ifaces [] wanted kept_fs t = (Inr (kept_fs, wanted), t)"
| "keep_or_remove X ifaces (old # olds) wanted kept_fs t =
     (case findServiceFilter wanted old of
        Some idx \<Rightarrow> keep_or_remove X ifaces olds (take idx wanted @ drop (idx + 1) wanted) (kept_fs @ [old]) t
      | None \<Rightarrow>
          (case removeServiceFilter X ifaces old t of
             (Some e, t) \<Rightarrow> (Inl e, t)
           | (None, t) \<Rightarrow> keep_or_remove X ifaces olds wanted kept_fs t))"

definition handlePodEndpointsOnServiceChanges ::
  "watch_env \<Rightarrow> service_spec \<Rightarrow> service_filter list \<Rightarrow> pod list \<Rightarrow> service_port list \<Rightarrow> tc \<Rightarrow>
     (tc_error + service_filter list) \<times> tc" where
  "handlePodEndpointsOnServiceChanges W spec oldFilters pods servicePorts t =
     (let wanted = concat (map (\<lambda>p. if pod_ip p \<noteq> '''' then buildServiceFiltersFromPod p servicePorts else []) pods);
          wanted = (case ss_percentage spec of
              Some q \<Rightarrow> if q < 100 \<and> q > 0
                then selectServiceFiltersByPercentage (we_hash W) (we_uid W) wanted q (ss_name spec) (ss_namespace spec)
                else wanted
            | None \<Rightarrow> wanted)
      in case keep_or_remove (we_exec W) (we_ifaces W) oldFilters wanted [] t of
           (Inl e, t) \<Rightarrow> (Inl e, t)
         | (Inr (kept_fs, missing), t) \<Rightarrow>
             (case addServiceFilters (we_exec W) missing (we_ifaces W) (we_flowid W) t of
                (Inl e, t) \<Rightarrow> (Inl e, t)
              | (Inr created, t) \<Rightarrow> (Inr (kept_fs @ created), t)))"

text \<open>Leaving the namespace at the end of a handler.\<close>

definition leave_ns :: "watch_env \<Rightarrow> watcher \<Rightarrow> tc \<Rightarrow> watch_error option \<times> watch_state" where
  "leave_ns W w t = (if we_exit W then (None, w, t, False) else (Some Exit_failed, w, t, True))"

text \<open>The change of the service's own filters.\<close>

definition change_service_filters ::
  "watch_env \<Rightarrow> event_type \<Rightarrow> service_filter list \<Rightarrow> watcher \<Rightarrow> tc \<Rightarrow> watch_error option \<times> watcher \<times> tc" where
  "change_service_filters W ty new w t =
     (case ty of
        Added \<Rightarrow>
          (case addServiceFilters (we_exec W) new (we_ifaces W) (we_flowid W) t of
             (Inl e, t) \<Rightarrow> (Some (Tc_failed e), w, t)
           | (Inr created, t) \<Rightarrow> (None, w\<lparr>w_service_filters := w_service_filters w @ created\<rparr>, t))
      | Modified \<Rightarrow>
          (case removeServiceFiltersInList_same (we_exec W) (we_ifaces W) (w_service_filters w) t of
             (Inl e, arr, t) \<Rightarrow> (Some (Tc_failed e), w\<lparr>w_service_filters := arr\<rparr>, t)
           | (Inr _, arr, t) \<Rightarrow>
               (case addServiceFilters (we_exec W) new (we_ifaces W) (we_flowid W) t of
                  (Inl e, t) \<Rightarrow> (Some (Tc_failed e), w\<lparr>w_service_filters := []\<rparr>, t)
                | (Inr created, t) \<Rightarrow> (None, w\<lparr>w_service_filters := created\<rparr>, t)))
      | Deleted \<Rightarrow>
          (case removeServiceFiltersInList (we_exec W) (we_ifaces W) (w_service_filters w) new t of
             (Inl e, _, t) \<Rightarrow> (Some (Tc_failed e), w\<lparr>w_service_filters := []\<rparr>, t)
           | (Inr rest, _, t) \<Rightarrow> (None, w\<lparr>w_service_filters := rest\<rparr>, t))
      | _ \<Rightarrow> (None, w, t))"

definition handleKubernetesServiceChanges ::
  "watch_env \<Rightarrow> event_type \<Rightarrow> service option \<Rightarrow> watch_state \<Rightarrow> watch_error option \<times> watch_state" where
  "handleKubernetesServiceChanges W ty obj st =
     (case st of (w, t, ns) \<Rightarrow>
        if ty = Error_event then (Some Watch_failed, st)
        else (case obj of
            None \<Rightarrow> (Some Wrong_object, st)
          | Some s \<Rightarrow>
              if ty = Bookmark then (None, w\<lparr>w_services_version := sv_version s\<rparr>, t, ns)
              else if ss_name (w_spec w) \<noteq> sv_name s then (None, st)
              else if \<not> we_enter W then (Some Enter_failed, st)
              else (case we_pods W (sv_selector s) of
                  None \<Rightarrow> (Some List_failed, w, t, True)
                | Some pods \<Rightarrow>
                    (let ports = (if isHeadless s
                           then w_ports w @ [\<lparr>sp_name = '''', sp_port = 0, sp_target = 0, sp_protocol = ''''\<rparr>]
                           else ExtractAffectedPortsInServicePorts (w_spec w) s);
                         w = w\<lparr>w_ports := ports\<rparr>
                     in case handlePodEndpointsOnServiceChanges W (w_spec w) (w_pod_filters w) pods ports t of
                          (Inl e, t) \<Rightarrow> (Some (Tc_failed e), w\<lparr>w_pod_filters := []\<rparr>, t, True)
                        | (Inr fs, t) \<Rightarrow>
                            (case change_service_filters W ty (buildServiceFiltersFromService s ports)
                                (w\<lparr>w_pod_filters := fs\<rparr>) t of
                               (Some e, w, t) \<Rightarrow> (Some e, w, t, True)
                             | (None, w, t) \<Rightarrow> leave_ns W w t)))))"

text \<open>The change of the filters of one pod; \<open>fs\<close> are its filters.\<close>

definition change_pod_filters ::
  "watch_env \<Rightarrow> event_type \<Rightarrow> pod \<Rightarrow> service_filter list \<Rightarrow> watcher \<Rightarrow> tc \<Rightarrow> watch_error option \<times> watcher \<times> tc" where
  "change_pod_filters W ty p fs w t =
     (case ty of
        Added \<Rightarrow>
          if findServiceFilter (w_pod_filters w) (fs ! 0) \<noteq> None then (None, w, t)
          else if pod_ip p \<noteq> ''''
          then (case addServiceFilters (we_exec W) fs (we_ifaces W) (we_flowid W) t of
              (Inl e, t) \<Rightarrow> (Some (Tc_failed e), w, t)
            | (Inr created, t) \<Rightarrow> (None, w\<lparr>w_pod_filters := w_pod_filters w @ created\<rparr>, t))
          else (None, w\<lparr>w_pods_without_ip := w_pods_without_ip w @ [pod_name p]\<rparr>, t)
      | Modified \<Rightarrow>
          if pod_name p \<in> set (w_pods_without_ip w) \<and> pod_ip p \<noteq> ''''
          then (case addServiceFilters (we_exec W) fs (we_ifaces W) (we_flowid W) t of
              (Inl e, t) \<Rightarrow> (Some (Tc_failed e), w, t)
            | (Inr created, t) \<Rightarrow> (None, w\<lparr>w_pod_filters := w_pod_filters w @ created,
                w_pods_without_ip := remove1 (pod_name p) (w_pods_without_ip w)\<rparr>, t))
          else (None, w, t)
      | Deleted \<Rightarrow>
          (case removeServiceFiltersInList (we_exec W) (we_ifaces W) (w_pod_filters w) fs t of
             (Inl e, _, t) \<Rightarrow> (Some (Tc_failed e), w\<lparr>w_pod_filters := []\<rparr>, t)
           | (Inr rest, _, t) \<Rightarrow> (None, w\<lparr>w_pod_filters := rest\<rparr>, t))
      | _ \<Rightarrow> (None, w, t))"

definition handleKubernetesPodsChanges ::
  "watch_env \<Rightarrow> event_type \<Rightarrow> pod option \<Rightarrow> watch_state \<Rightarrow> watch_error option \<times> watch_state" where
  "handleKubernetesPodsChanges W ty obj st =
     (case st of (w, t, ns) \<Rightarrow>
        if ty = Error_event then (Some Watch_failed, st)
        else (case obj of
            None \<Rightarrow> (Some Wrong_object, st)
          | Some p \<Rightarrow>
              if ty = Bookmark then (None, w\<lparr>w_pods_version := pod_version p\<rparr>, t, ns)
              else if \<not> we_enter W then (Some Enter_failed, st)
              else (let fs = buildServiceFiltersFromPod p (w_ports w)
                in if fs = [] then (Some No_endpoints, w, t, True)
                   else (case change_pod_filters W ty p fs w t of
                       (Some e, w, t) \<Rightarrow> (Some e, w, t, True)
                     | (None, w, t) \<Rightarrow> leave_ns W w t))))"

text \<open>
  One round of \<open>watchServiceChanges\<close>: after an error the filters of that kind are removed and forgotten.
\<close>

definition watch_service_event ::
  "watch_env \<Rightarrow> event_type \<Rightarrow> service option \<Rightarrow> watch_state \<Rightarrow> watch_state" where
  "watch_service_event W ty obj st =
     (case handleKubernetesServiceChanges W ty obj st of
        (None, st) \<Rightarrow> st
      | (Some e, w, t, ns) \<Rightarrow>
          (w\<lparr>w_service_filters := []\<rparr>,
           snd (snd (removeServiceFiltersInList_same (we_exec W) (we_ifaces W) (w_service_filters w) t)), ns))"

definition watch_pods_event ::
  "watch_env \<Rightarrow> event_type \<Rightarrow> pod option \<Rightarrow> watch_state \<Rightarrow> watch_state" where
  "watch_pods_event W ty obj st =
     (case handleKubernetesPodsChanges W ty obj st of
        (None, st) \<Rightarrow> st
      | (Some e, w, t, ns) \<Rightarrow>
          (w\<lparr>w_pod_filters := []\<rparr>,
           snd (snd (removeServiceFiltersInList_same (we_exec W) (we_ifaces W) (w_pod_filters w) t)), ns))"

section \<open>Removing filters\<close>

definition del_cmds :: "string list \<Rightarrow> service_filter \<Rightarrow> string list list" where
  "del_cmds ifaces f =
     map (\<lambda>i. [''filter'', ''delete'', ''dev'', i, ''priority'', Itoa (unat (sf_priority f))]) ifaces"

lemma removeServiceFilter_all:
  assumes "never_fails X" and "\<not> tc_dryRun t"
  shows "removeServiceFilter X ifaces f t = (None, t\<lparr>tc_log := tc_log t @ del_cmds ifaces f\<rparr>)"
proof -
  have "removeTcFilter X ifaces q t = (None, t\<lparr>tc_log := tc_log t @
      map (\<lambda>i. [''filter'', ''delete'', ''dev'', i, ''priority'', Itoa (unat q)]) ifaces\<rparr>)" for q
    using assms(2)
  proof (induction ifaces arbitrary: t)
    case (Cons i ifaces)
    obtain code failed where
      x: "X (tc_log t) [''filter'', ''delete'', ''dev'', i, ''priority'', Itoa (unat q)] = (code, failed)" by fastforce
    moreover have "\<not> failed" using assms(1) x unfolding never_fails_def by (metis snd_conv)
    ultimately show ?case using Cons by (simp add: DeleteFilter_def tc_Run_def)
  qed simp
  then show ?thesis by (simp add: removeServiceFilter_def del_cmds_def)
qed

abbreviation svc :: "service_filter \<Rightarrow> string" where
  "svc f \<equiv> service_String (sf_service f)"

lemma find_append:
  assumes "svc f \<notin> svc ` set xs"
  shows "findServiceFilter (xs @ ys) f = map_option ((+) (length xs)) (findServiceFilter ys f)"
  using assms by (induction xs) (cases "findServiceFilter ys f"; force)+

lemma find_None_iff: "findServiceFilter xs f = None \<longleftrightarrow> svc f \<notin> svc ` set xs"
  by (induction xs) auto

lemma find_SomeD:
  "findServiceFilter xs f = Some k \<Longrightarrow> k < length xs \<and> svc (xs ! k) = svc f"
  by (induction xs arbitrary: k) (auto split: if_splits)

lemma del_at_split: "length xs = k \<Longrightarrow> n = k + 1 + length ys \<Longrightarrow>
    take (n - 1) (del_at k n (xs @ x # ys @ zs)) = xs @ ys"
  by (simp add: del_at_def slice_def)

lemma del_at_split_all: "length xs = k \<Longrightarrow> n = k + 1 + length ys \<Longrightarrow>
    del_at k n (xs @ x # ys @ zs) = xs @ ys @ last (x # ys) # zs"
  by (cases ys rule: rev_cases) (simp_all add: del_at_def slice_def)

text \<open>
  The loop with two arrays: each filter to remove takes its first namesake out of the list.
\<close>

fun remove_svc :: "service_filter \<Rightarrow> service_filter list \<Rightarrow> service_filter list" where
  "remove_svc y [] = []"
| "remove_svc y (x # xs) = (if svc x = svc y then xs else x # remove_svc y xs)"

lemma remove_svc_find:
  "findServiceFilter xs y = Some k \<Longrightarrow> remove_svc y xs = take k xs @ drop (Suc k) xs"
  "findServiceFilter xs y = None \<Longrightarrow> remove_svc y xs = xs"
  by (induction xs arbitrary: k) (auto split: if_splits)

lemma take_split:
  assumes "k < n" and "n \<le> length A"
  shows "take n A = take k A @ A ! k # slice (Suc k) (n - k - 1) A"
proof -
  have "take n A = take k A @ take (n - k) (drop k A)"
    using assms take_add [of k "n - k" A] by simp
  moreover have "drop k A = A ! k # drop (Suc k) A" using assms by (simp add: Cons_nth_drop_Suc)
  moreover obtain d where "n - k = Suc d" using assms(1) by (metis Suc_diff_Suc)
  ultimately show ?thesis by (simp add: slice_def)
qed

lemma remove_loop_two:
  assumes "never_fails X" and "a \<noteq> b" and "\<not> tc_dryRun t" and "mem b = ys" and "n \<le> length (mem a)"
    and "\<forall>i \<in> set js. i < length ys"
  shows "\<exists>ds arr. remove_loop X ifaces a b js mem n t =
      (Inr (fold remove_svc (map (\<lambda>i. ys ! i) js) (take n (mem a))), arr,
       t\<lparr>tc_log := tc_log t @ concat (map (del_cmds ifaces) ds)\<rparr>) \<and>
    mset (take n (mem a)) = mset ds + mset (fold remove_svc (map (\<lambda>i. ys ! i) js) (take n (mem a)))"
  using assms(3-6)
proof (induction js arbitrary: mem n t)
  case Nil
  show ?case by (rule exI [of _ "[]"]) simp
next
  case (Cons i js)
  show ?case
  proof (cases "findServiceFilter (take n (mem a)) (ys ! i)")
    case None
    then show ?thesis using Cons.IH [of t mem n] Cons.prems by (simp add: remove_svc_find)
  next
    case (Some k)
    let ?f = "mem a ! k" and ?mem = "mem(a := del_at k n (mem a))"
    have k: "k < n" "n \<le> length (mem a)" using find_SomeD [OF Some] Cons.prems(3) by auto
    have rest: "take (n - 1) (del_at k n (mem a)) = take k (mem a) @ slice (Suc k) (n - k - 1) (mem a)"
      using k by (simp add: del_at_def slice_def)
    have tk: "take n (mem a) = take k (mem a) @ ?f # slice (Suc k) (n - k - 1) (mem a)"
      using k by (rule take_split)
    have r: "remove_svc (ys ! i) (take n (mem a)) = take (n - 1) (del_at k n (mem a))"
      using remove_svc_find(1) [OF Some] k rest by (simp add: slice_def drop_take)
    have len: "n - 1 \<le> length (?mem a)" using k by (simp add: del_at_def slice_def)
    let ?t = "t\<lparr>tc_log := tc_log t @ del_cmds ifaces ?f\<rparr>"
    have "\<not> tc_dryRun ?t" "?mem b = ys" "\<forall>i \<in> set js. i < length ys"
      using Cons.prems assms(2) by simp_all
    from Cons.IH [OF this(1,2) len this(3)] obtain ds arr where ih: "remove_loop X ifaces a b js ?mem (n - 1) ?t =
        (Inr (fold remove_svc (map (\<lambda>i. ys ! i) js) (take (n - 1) (?mem a))), arr,
         ?t\<lparr>tc_log := tc_log ?t @ concat (map (del_cmds ifaces) ds)\<rparr>) \<and>
      mset (take (n - 1) (?mem a)) = mset ds + mset (fold remove_svc (map (\<lambda>i. ys ! i) js) (take (n - 1) (?mem a)))"
      by (elim exE) (rule that)
    have "remove_loop X ifaces a b (i # js) mem n t = remove_loop X ifaces a b js ?mem (n - 1) ?t"
      using Some Cons.prems(1,2) by (simp add: removeServiceFilter_all [OF assms(1)])
    then have l: "remove_loop X ifaces a b (i # js) mem n t =
        (Inr (fold remove_svc (map (\<lambda>i. ys ! i) (i # js)) (take n (mem a))), arr,
         t\<lparr>tc_log := tc_log t @ concat (map (del_cmds ifaces) (?f # ds))\<rparr>)"
      using ih r by simp
    have "mset (take n (mem a)) = add_mset ?f (mset (take (n - 1) (?mem a)))" by (simp add: tk rest [simplified])
    then have "mset (take n (mem a)) =
        mset (?f # ds) + mset (fold remove_svc (map (\<lambda>i. ys ! i) (i # js)) (take n (mem a)))"
      using ih r by simp
    with l show ?thesis by blast
  qed
qed

lemma remove_svc_distinct:
  "distinct (map svc xs) \<Longrightarrow> remove_svc y xs = filter (\<lambda>x. svc x \<noteq> svc y) xs"
  by (induction xs) (auto intro!: filter_True [symmetric] simp: image_iff)

lemma fold_remove_svc:
  "distinct (map svc xs) \<Longrightarrow> fold remove_svc ys xs = filter (\<lambda>x. svc x \<notin> svc ` set ys) xs"
proof (induction ys arbitrary: xs)
  case (Cons y ys)
  have "distinct (map svc (filter (\<lambda>x. svc x \<noteq> svc y) xs))" using Cons.prems by (rule distinct_map_filter)
  then show ?case using Cons by (simp add: remove_svc_distinct)
qed simp

lemma removeServiceFiltersInList_removes':
  assumes "never_fails X" and "\<not> tc_dryRun t" and "distinct (map svc xs)"
  shows "\<exists>ds arr. removeServiceFiltersInList X ifaces xs ys t =
      (Inr (filter (\<lambda>x. svc x \<notin> svc ` set ys) xs), arr, t\<lparr>tc_log := tc_log t @ concat (map (del_cmds ifaces) ds)\<rparr>) \<and>
    mset ds = mset (filter (\<lambda>x. svc x \<in> svc ` set ys) xs)"
proof -
  let ?mem = "\<lambda>k :: nat. if k = 0 then xs else ys"
  have p: "?mem 1 = ys" "length xs \<le> length (?mem 0)" "\<forall>i \<in> set [0..<length ys]. i < length ys" by simp_all
  from remove_loop_two [OF assms(1) zero_neq_one assms(2) p, of ifaces]
  obtain ds arr where l: "remove_loop X ifaces 0 1 [0..<length ys] ?mem (length xs) t =
      (Inr (fold remove_svc (map (\<lambda>i. ys ! i) [0..<length ys]) (take (length xs) (?mem 0))), arr,
       t\<lparr>tc_log := tc_log t @ concat (map (del_cmds ifaces) ds)\<rparr>) \<and>
    mset (take (length xs) (?mem 0)) =
      mset ds + mset (fold remove_svc (map (\<lambda>i. ys ! i) [0..<length ys]) (take (length xs) (?mem 0)))"
    by (elim exE) (rule that)
  have f: "fold remove_svc (map (\<lambda>i. ys ! i) [0..<length ys]) (take (length xs) (?mem 0)) =
      filter (\<lambda>x. svc x \<notin> svc ` set ys) xs"
    by (simp add: map_nth fold_remove_svc [OF assms(3)])
  have "mset xs = mset (filter (\<lambda>x. svc x \<in> svc ` set ys) xs) + mset (filter (\<lambda>x. svc x \<notin> svc ` set ys) xs)"
    using multiset_partition [of "mset xs" "\<lambda>x. svc x \<in> svc ` set ys"] by (simp only: mset_filter)
  moreover have "mset xs = mset ds + mset (filter (\<lambda>x. svc x \<notin> svc ` set ys) xs)"
    using l [THEN conjunct2] unfolding f by simp
  ultimately have "mset ds = mset (filter (\<lambda>x. svc x \<in> svc ` set ys) xs)" by (metis add_right_imp_eq)
  moreover have "removeServiceFiltersInList X ifaces xs ys t = (Inr (filter (\<lambda>x. svc x \<notin> svc ` set ys) xs), arr,
      t\<lparr>tc_log := tc_log t @ concat (map (del_cmds ifaces) ds)\<rparr>)"
    unfolding removeServiceFiltersInList_def using l [THEN conjunct1] unfolding f .
  ultimately show ?thesis by (intro exI conjI)
qed

text \<open>
  C28: Removing a list of filters that is not the list itself leaves exactly the filters of the other
  services, and the filters that have gone are deleted from every interface with their own priority.
\<close>

theorem removeServiceFiltersInList_removes:
  assumes "never_fails X" and "\<not> tc_dryRun t" and "distinct (map svc xs)"
  shows "\<exists>ds arr. removeServiceFiltersInList X ifaces xs ys t =
      (Inr (filter (\<lambda>x. svc x \<notin> svc ` set ys) xs), arr, t\<lparr>tc_log := tc_log t @ concat (map (del_cmds ifaces) ds)\<rparr>) \<and>
    mset ds = mset (filter (\<lambda>x. svc x \<in> svc ` set ys) xs)"
  by (rule removeServiceFiltersInList_removes' [OF assms])

text \<open>
  The loop over one array for both: a removal moves the elements behind it down, so the next index skips
  one. What survives are the elements at odd places, but for the last element of the list.
\<close>

fun every_second :: "'a list \<Rightarrow> 'a list" where
  "every_second (x # y # zs) = y # every_second zs"
| "every_second _ = []"

text \<open>Places that hold an element which is no longer in the list change nothing.\<close>

lemma remove_loop_junk:
  assumes "\<forall>j \<in> set js. findServiceFilter (take n (mem a)) (mem a ! j) = None"
  shows "remove_loop X ifaces a a js mem n t = (Inr (take n (mem a)), mem a, t)"
  using assms by (induction js) auto

lemma remove_loop_step:
  assumes "never_fails X" and "\<not> tc_dryRun t" and "mem a = os @ y # ys @ zs" and "distinct (map svc (os @ y # ys))"
    and "mem a ! j = y" and "n = Suc (length os + length ys)"
  shows "remove_loop X ifaces a a (j # js) mem n t =
    remove_loop X ifaces a a js (mem(a := os @ ys @ last (y # ys) # zs)) (n - 1)
      (t\<lparr>tc_log := tc_log t @ del_cmds ifaces y\<rparr>)"
proof -
  have "svc y \<notin> svc ` set os" using assms(4) by auto
  then have "findServiceFilter (take n (mem a)) y = Some (length os)"
    using assms(3,6) by (simp add: find_append)
  moreover have "mem a ! length os = y" using assms(3) by simp
  moreover have "del_at (length os) n (mem a) = os @ ys @ last (y # ys) # zs"
    unfolding assms(3) using assms(6) by (intro del_at_split_all) simp_all
  ultimately show ?thesis
    using assms(5) by (simp add: removeServiceFilter_all [OF assms(1,2)])
qed

lemma nth_after: "length os \<le> j \<Longrightarrow> j < length os + length zs \<Longrightarrow> \<forall>z \<in> set zs. z = v \<Longrightarrow> (os @ zs) ! j = v"
  by (simp add: nth_append)

lemma remove_loop_same:
  assumes "never_fails X" and "\<not> tc_dryRun t" and "mem a = os @ ys @ zs" and "distinct (map svc (os @ ys))"
    and "ys \<noteq> []" and "\<forall>z \<in> set zs. z = last ys"
  shows "\<exists>ds arr. remove_loop X ifaces a a [length os..<length os + length ys + length zs] mem (length os + length ys) t =
      (Inr (os @ every_second (butlast ys)), arr, t\<lparr>tc_log := tc_log t @ concat (map (del_cmds ifaces) ds)\<rparr>) \<and>
    mset ys = mset ds + mset (every_second (butlast ys))"
  supply remove_loop.simps [simp del] upt_Suc [simp del]
  using assms(2-6)
proof (induction ys arbitrary: os zs mem t rule: every_second.induct [case_names pair none single])
  case (pair y y2 rest)
  let ?v = "last (y # y2 # rest)" and ?t = "t\<lparr>tc_log := tc_log t @ del_cmds ifaces y\<rparr>"
  let ?mem = "mem(a := os @ (y2 # rest) @ ?v # zs)"
  have idx: "[length os..<length os + length (y # y2 # rest) + length zs] =
      length os # [Suc (length os)..<length os + length (y # y2 # rest) + length zs]"
    by (rule upt_conv_Cons) simp
  have step: "remove_loop X ifaces a a [length os..<length os + length (y # y2 # rest) + length zs] mem
      (length os + length (y # y2 # rest)) t =
    remove_loop X ifaces a a [Suc (length os)..<length os + length (y # y2 # rest) + length zs] ?mem
      (length os + length (y # y2 # rest) - 1) ?t"
    unfolding idx
    by (rule remove_loop_step [OF assms(1) pair.prems(1)]) (use pair.prems(2,3) in simp_all)
  show ?case
  proof (cases "rest = []")
    case False
    have "\<not> tc_dryRun ?t" "?mem a = (os @ [y2]) @ rest @ (?v # zs)" "distinct (map svc ((os @ [y2]) @ rest))"
      "\<forall>z \<in> set (?v # zs). z = last rest"
      using pair.prems False by auto
    from pair.IH [where t = ?t and mem = ?mem and os = "os @ [y2]" and zs = "?v # zs", OF this(1-3) False this(4)] obtain ds arr where
      ih: "remove_loop X ifaces a a [length (os @ [y2])..<length (os @ [y2]) + length rest + length (?v # zs)] ?mem
          (length (os @ [y2]) + length rest) ?t =
        (Inr ((os @ [y2]) @ every_second (butlast rest)), arr,
         ?t\<lparr>tc_log := tc_log ?t @ concat (map (del_cmds ifaces) ds)\<rparr>) \<and>
      mset rest = mset ds + mset (every_second (butlast rest))"
      by (elim exE) (rule that)
    show ?thesis
      by (rule exI [of _ "y # ds"], rule exI [of _ arr]) (use step ih False in simp)
  next
    case True
    let ?mem2 = "mem(a := os @ [y2] @ y2 # zs)" and ?t2 = "?t\<lparr>tc_log := tc_log ?t @ del_cmds ifaces y2\<rparr>"
    have z: "\<forall>z \<in> set zs. z = y2" using pair.prems(5) True by simp
    have d: "distinct (map svc (os @ [y2]))" using pair.prems(3) True by simp
    have idx2: "[Suc (length os)..<length os + 2 + length zs] =
        Suc (length os) # [Suc (Suc (length os))..<length os + 2 + length zs]"
      by (rule upt_conv_Cons) simp
    have "remove_loop X ifaces a a (Suc (length os) # [Suc (Suc (length os))..<length os + 2 + length zs]) ?mem2
        (Suc (length os)) ?t =
      remove_loop X ifaces a a [Suc (Suc (length os))..<length os + 2 + length zs]
        (?mem2(a := os @ [] @ last [y2] # y2 # zs)) (Suc (length os) - 1) ?t2"
      by (rule remove_loop_step [OF assms(1)]) (use pair.prems(1) d in \<open>simp_all add: nth_append\<close>)
    also have "\<dots> = (Inr os, os @ y2 # y2 # zs, ?t2)"
    proof -
      have "findServiceFilter os y2 = None" using d by (auto simp: find_None_iff)
      moreover have "(os @ y2 # y2 # zs) ! j = y2" if "j \<in> set [Suc (Suc (length os))..<length os + 2 + length zs]" for j
        by (rule nth_after) (use that z in auto)
      ultimately show ?thesis by (subst remove_loop_junk) simp_all
    qed
    finally show ?thesis
      by - (rule exI [of _ "[y, y2]"], rule exI [of _ "os @ y2 # y2 # zs"], use step True idx2 in simp)
  qed
next
  case (single y)
  have idx: "[length os..<Suc (length os + length zs)] = length os # [Suc (length os)..<Suc (length os + length zs)]"
    by (rule upt_conv_Cons) simp
  let ?t = "t\<lparr>tc_log := tc_log t @ del_cmds ifaces y\<rparr>"
  have "remove_loop X ifaces a a (length os # [Suc (length os)..<Suc (length os + length zs)]) mem (Suc (length os)) t =
      remove_loop X ifaces a a [Suc (length os)..<Suc (length os + length zs)]
        (mem(a := os @ [] @ last [y] # zs)) (Suc (length os) - 1) ?t"
    by (rule remove_loop_step [OF assms(1)]) (use single.prems in \<open>simp_all add: nth_append\<close>)
  also have "\<dots> = (Inr os, os @ y # zs, ?t)"
  proof -
    have "findServiceFilter os y = None" using single.prems(3) by (auto simp: find_None_iff)
    moreover have "(os @ y # zs) ! j = y" if "j \<in> set [Suc (length os)..<Suc (length os + length zs)]" for j
      by (rule nth_after) (use that single.prems(5) in auto)
    ultimately show ?thesis by (subst remove_loop_junk) simp_all
  qed
  finally show ?case
    by - (rule exI [of _ "[y]"], rule exI [of _ "os @ y # zs"], use idx in simp)
qed simp

text \<open>
  When the list of filters to remove is the list itself, as after a change of a service and after an
  error, the loop reads places it has overwritten: only the filters that are skipped survive, every second
  one before the last. Their \<open>tc\<close> filters stay in place, and the callers forget them. With three or more
  filters at least one is left.
\<close>

theorem removing_list_from_itself:
  assumes "never_fails X" and "\<not> tc_dryRun t" and "distinct (map svc xs)" and "xs \<noteq> []"
  shows "\<exists>ds arr. removeServiceFiltersInList_same X ifaces xs t =
      (Inr (every_second (butlast xs)), arr, t\<lparr>tc_log := tc_log t @ concat (map (del_cmds ifaces) ds)\<rparr>) \<and>
    mset xs = mset ds + mset (every_second (butlast xs)) \<and> (3 \<le> length xs \<longrightarrow> every_second (butlast xs) \<noteq> [])"
proof -
  have three: "3 \<le> length xs \<longrightarrow> every_second (butlast xs) \<noteq> []"
    by (cases xs; cases "tl xs"; cases "tl (tl xs)") auto
  let ?e = "[] :: service_filter list"
  have "\<exists>ds arr. remove_loop X ifaces 0 0 [length ?e..<length ?e + length xs + length ?e] (\<lambda>k. xs)
      (length ?e + length xs) t =
    (Inr (?e @ every_second (butlast xs)), arr, t\<lparr>tc_log := tc_log t @ concat (map (del_cmds ifaces) ds)\<rparr>) \<and>
    mset xs = mset ds + mset (every_second (butlast xs))"
    by (rule remove_loop_same [OF assms(1,2)]) (use assms(3,4) in simp_all)
  then show ?thesis
    unfolding removeServiceFiltersInList_same_def list.size add_0_left add_0_right append_Nil
    using three by (elim exE conjE, intro exI conjI)
qed

definition sample_filter :: "string \<Rightarrow> int \<Rightarrow> u32 \<Rightarrow> service_filter" where
  "sample_filter proto port prio =
     \<lparr>sf_service = \<lparr>sa_ip = Some ''10.0.0.1/32'', sa_port = port, sa_protocol = proto\<rparr>, sf_priority = prio\<rparr>"

definition ok_tc :: executor where "ok_tc lg cmd = (0, False)"

lemma ok_tc_never_fails: "never_fails ok_tc"
  by (simp add: never_fails_def ok_tc_def)

lemma sample_filters_distinct: "distinct (map svc [sample_filter ''TCP'' 1 p, sample_filter ''TCP'' 2 q, sample_filter ''TCP'' 3 r])"
  by (simp add: sample_filter_def service_String_def show_int_def Itoa.simps)

theorem removeServiceFiltersInList_removes_witness:
  "\<exists>ds arr. removeServiceFiltersInList ok_tc [''eth0''] [sample_filter ''TCP'' 1 1001, sample_filter ''TCP'' 2 1002,
      sample_filter ''TCP'' 3 1003] [sample_filter ''TCP'' 3 0, sample_filter ''TCP'' 1 0] (NewTrafficController False) =
    (Inr [sample_filter ''TCP'' 2 1002], arr,
     (NewTrafficController False)\<lparr>tc_log := concat (map (del_cmds [''eth0'']) ds)\<rparr>) \<and>
    mset ds = {# sample_filter ''TCP'' 1 1001, sample_filter ''TCP'' 3 1003 #}"
proof -
  let ?xs = "[sample_filter ''TCP'' 1 1001, sample_filter ''TCP'' 2 1002, sample_filter ''TCP'' 3 1003]"
    and ?ys = "[sample_filter ''TCP'' 3 0, sample_filter ''TCP'' 1 0]" and ?t = "NewTrafficController False"
  have t: "\<not> tc_dryRun ?t" "tc_log ?t = []" by (simp_all add: NewTrafficController_def)
  have ne: "svc (sample_filter ''TCP'' 2 p) \<noteq> svc (sample_filter ''TCP'' 1 q)"
    "svc (sample_filter ''TCP'' 2 p) \<noteq> svc (sample_filter ''TCP'' 3 q)"
    "svc (sample_filter ''TCP'' k p) = svc (sample_filter ''TCP'' k q)" for p q k
    by (simp_all add: sample_filter_def service_String_def show_int_def Itoa.simps)
  have "svc (sample_filter ''TCP'' 1 1001) = svc (sample_filter ''TCP'' 1 0)"
    "svc (sample_filter ''TCP'' 3 1003) = svc (sample_filter ''TCP'' 3 0)" by (rule ne(3))+
  then have "filter (\<lambda>x. svc x \<notin> svc ` set ?ys) ?xs = [sample_filter ''TCP'' 2 1002]"
    "filter (\<lambda>x. svc x \<in> svc ` set ?ys) ?xs = [sample_filter ''TCP'' 1 1001, sample_filter ''TCP'' 3 1003]"
    by (simp_all add: ne(1,2))
  with removeServiceFiltersInList_removes [OF ok_tc_never_fails t(1) sample_filters_distinct, of "[''eth0'']" 1001 1002 1003 ?ys]
  show ?thesis unfolding t(2) by simp
qed

theorem removing_list_from_itself_witness:
  "fst (removeServiceFiltersInList_same ok_tc [''eth0''] [sample_filter ''TCP'' 1 1001, sample_filter ''TCP'' 2 1002,
      sample_filter ''TCP'' 3 1003] (NewTrafficController False)) = Inr [sample_filter ''TCP'' 2 1002]"
proof -
  have "\<not> tc_dryRun (NewTrafficController False)" by (simp add: NewTrafficController_def)
  from removing_list_from_itself [OF ok_tc_never_fails this sample_filters_distinct [of 1001 1002 1003], of "[''eth0'']"]
  show ?thesis by auto
qed

section \<open>Adding filters\<close>

text \<open>
  A service without one of the protocols TCP, UDP and ARP, such as the entry for a headless service,
  gets a filter for TCP and one for UDP, but only the priority of the second is kept: removing the service
  deletes that one, and the TCP filter stays.
\<close>

theorem both_protocols_one_priority:
  assumes "never_fails X" and "\<not> tc_dryRun t" and "tcFilterPriority t < 3046"
    and "newProtocol (sa_protocol (sf_service f)) = ALL_protocol" and "\<forall>i \<in> set ifaces. blank_free i"
    and "ip_ok (sa_ip (sf_service f))" and "blank_free flowid"
  defines "p \<equiv> tcFilterPriority t" and "g \<equiv> f\<lparr>sf_priority := tcFilterPriority t + 2\<rparr>"
    and "words \<equiv> (\<lambda>q proto. map (\<lambda>i. filter_words i q None (sa_ip (sf_service f)) 0 (sa_port (sf_service f)) proto
      ConnStateUndefined flowid) ifaces)"
  shows "\<exists>t1. addServiceFilters X [f] ifaces flowid t = (Inr [g], t1) \<and>
    tc_log t1 = tc_log t @ words (p + 1) TCP @ words (p + 2) UDP \<and>
    removeServiceFilter X ifaces g t1 = (None, t1\<lparr>tc_log := tc_log t1 @
      map (\<lambda>i. [''filter'', ''delete'', ''dev'', i, ''priority'', Itoa (unat (p + 2))]) ifaces\<rparr>)"
proof -
  let ?t = "t\<lparr>tcFilterPriority := p + 1, tc_log := tc_log t @ words (p + 1) TCP\<rparr>"
  let ?t1 = "?t\<lparr>tcFilterPriority := p + 2, tc_log := tc_log ?t @ words (p + 2) UDP\<rparr>"
  have lt: "p < 3047" "p + 1 < 3047"
    using assms(3) by (auto simp: p_def word_less_nat_alt unat_word_ariths)
  have c: "blank_free ConnStateUndefined" by (simp add: ConnStateUndefined_def)
  have a1: "AddFilter X ifaces ''1:0'' '''' None (sa_ip (sf_service f)) 0 (sa_port (sf_service f)) TCP
      ConnStateUndefined flowid t = (Inr (p + 1), ?t)"
    using AddFilter_all [OF assms(1,2) _ _ assms(5) _ assms(6) c assms(7), of TCP None] lt(1)
    by (simp add: p_def words_def ip_ok_def)
  have a2: "AddFilter X ifaces ''1:0'' '''' None (sa_ip (sf_service f)) 0 (sa_port (sf_service f)) UDP
      ConnStateUndefined flowid ?t = (Inr (p + 2), ?t1)"
    using AddFilter_all [OF assms(1) _ _ _ assms(5) _ assms(6) c assms(7), of ?t UDP None] lt(2) assms(2)
    by (simp add: words_def ip_ok_def add.commute [of 2 p])
  have "addServiceFilters X [f] ifaces flowid t = (Inr [g], ?t1)"
    using a1 a2 assms(4) by (simp add: AllProtocols_def Let_def g_def p_def)
  moreover have "removeServiceFilter X ifaces g ?t1 = (None, ?t1\<lparr>tc_log := tc_log ?t1 @ del_cmds ifaces g\<rparr>)"
    by (rule removeServiceFilter_all [OF assms(1)]) (use assms(2) in simp)
  ultimately show ?thesis by (intro exI [of _ ?t1]) (simp add: del_cmds_def g_def p_def)
qed

theorem both_protocols_one_priority_witness:
  "\<exists>t1. addServiceFilters ok_tc [sample_filter '''' 0 0] [''eth0''] ''1:4'' (NewTrafficController False) =
      (Inr [(sample_filter '''' 0 0)\<lparr>sf_priority := 1002\<rparr>], t1) \<and>
    tc_log t1 = [filter_words ''eth0'' 1001 None (Some ''10.0.0.1/32'') 0 0 TCP '''' ''1:4'',
      filter_words ''eth0'' 1002 None (Some ''10.0.0.1/32'') 0 0 UDP '''' ''1:4''] \<and>
    removeServiceFilter ok_tc [''eth0''] ((sample_filter '''' 0 0)\<lparr>sf_priority := 1002\<rparr>) t1 =
      (None, t1\<lparr>tc_log := tc_log t1 @ [[''filter'', ''delete'', ''dev'', ''eth0'', ''priority'', Itoa 1002]]\<rparr>)"
proof -
  let ?t = "NewTrafficController False" and ?f = "sample_filter '''' 0 0"
  have pre: "\<not> tc_dryRun ?t" "tcFilterPriority ?t < 3046" "\<forall>i \<in> set [''eth0'']. blank_free i" "blank_free ''1:4''"
    "newProtocol (sa_protocol (sf_service ?f)) = ALL_protocol" "ip_ok (sa_ip (sf_service ?f))"
    by (simp_all add: NewTrafficController_def tcPriority_def sample_filter_def newProtocol_def UDP_def ARP_def TCP_def
        ALL_protocol_def Let_def ip_ok_def)
  have eqs: "tcFilterPriority ?t + 1 = 1001" "tcFilterPriority ?t + 2 = 1002" "tc_log ?t = []" "unat (1002 :: u32) = 1002"
    "sa_ip (sf_service ?f) = Some ''10.0.0.1/32''" "sa_port (sf_service ?f) = 0" "ConnStateUndefined = ''''"
    by (simp_all add: NewTrafficController_def tcPriority_def sample_filter_def ConnStateUndefined_def)
  from both_protocols_one_priority [OF ok_tc_never_fails pre(1,2,5,3,6,4)]
  show ?thesis unfolding eqs list.map append.simps .
qed

text \<open>
  The commands for one service, which take one priority per protocol, and the filters afterwards, which keep the
  last priority of each.
\<close>

abbreviation protocols :: "service_filter \<Rightarrow> string list" where
  "protocols f \<equiv> AllProtocols (sa_protocol (sf_service f))"

fun proto_cmds :: "string list \<Rightarrow> string \<Rightarrow> service_addr \<Rightarrow> u32 \<Rightarrow> string list \<Rightarrow> string list list" where
  "proto_cmds ifaces flowid s p [] = []"
| "proto_cmds ifaces flowid s p (proto # ps) =
     map (\<lambda>i. filter_words i (p + 1) None (sa_ip s) 0 (sa_port s) proto ConnStateUndefined flowid) ifaces @
     proto_cmds ifaces flowid s (p + 1) ps"

fun number :: "u32 \<Rightarrow> service_filter list \<Rightarrow> service_filter list" where
  "number p [] = []"
| "number p (f # fs) =
     f\<lparr>sf_priority := p + of_nat (length (protocols f))\<rparr> # number (p + of_nat (length (protocols f))) fs"

definition add_cmds :: "string list \<Rightarrow> string \<Rightarrow> service_filter \<Rightarrow> string list list" where
  "add_cmds ifaces flowid f =
     proto_cmds ifaces flowid (sf_service f) (sf_priority f - of_nat (length (protocols f))) (protocols f)"

lemma svc_number [simp]: "map svc (number p fs) = map svc fs"
  by (induction fs arbitrary: p) auto

lemma protocols_set: "protocols f \<noteq> [] \<and> set (protocols f) \<subseteq> {TCP, UDP, ARP}"
  by (auto simp: AllProtocols_def newProtocol_def Let_def)

lemma add_protocols_all:
  assumes "never_fails X" and "\<not> tc_dryRun t" and "set ps \<subseteq> {TCP, UDP, ARP}" and "ip_ok (sa_ip (sf_service f))"
    and "\<forall>i \<in> set ifaces. blank_free i" and "blank_free flowid" and "unat (tcFilterPriority t) + length ps < 3048"
  shows "add_protocols X ifaces flowid f ps t =
    (Inr (if ps = [] then f else f\<lparr>sf_priority := tcFilterPriority t + of_nat (length ps)\<rparr>),
     t\<lparr>tcFilterPriority := tcFilterPriority t + of_nat (length ps),
       tc_log := tc_log t @ proto_cmds ifaces flowid (sf_service f) (tcFilterPriority t) ps\<rparr>)"
  using assms(2,3,4,7)
proof (induction ps arbitrary: t f)
  case (Cons proto ps)
  let ?p = "tcFilterPriority t" and ?g = "f\<lparr>sf_priority := tcFilterPriority t + 1\<rparr>"
  let ?cmds = "map (\<lambda>i. filter_words i (?p + 1) None (sa_ip (sf_service f)) 0 (sa_port (sf_service f)) proto ConnStateUndefined flowid) ifaces"
  let ?t = "t\<lparr>tcFilterPriority := ?p + 1, tc_log := tc_log t @ ?cmds\<rparr>"
  have u: "unat (?p + 1) = unat ?p + 1" using Cons.prems(4) by (simp add: unat_word_ariths)
  have "?p < 3047" using Cons.prems(4) by (simp add: word_less_nat_alt)
  then have "AddFilter X ifaces ''1:0'' '''' None (sa_ip (sf_service f)) 0 (sa_port (sf_service f)) proto
      ConnStateUndefined flowid t = (Inr (?p + 1), ?t)"
    using AddFilter_all [OF assms(1) Cons.prems(1) _ _ assms(5) _ Cons.prems(3) _ assms(6), of proto None ConnStateUndefined] Cons.prems(2)
    by (simp add: ip_ok_def ConnStateUndefined_def)
  moreover have "add_protocols X ifaces flowid ?g ps ?t =
      (Inr (if ps = [] then ?g else ?g\<lparr>sf_priority := tcFilterPriority ?t + of_nat (length ps)\<rparr>),
       ?t\<lparr>tcFilterPriority := tcFilterPriority ?t + of_nat (length ps),
         tc_log := tc_log ?t @ proto_cmds ifaces flowid (sf_service ?g) (tcFilterPriority ?t) ps\<rparr>)"
    using Cons.prems u by (intro Cons.IH) simp_all
  ultimately show ?case by (simp add: add.assoc)
qed simp

lemma addServiceFilters_number:
  assumes "never_fails X" and "\<not> tc_dryRun t" and "\<forall>f \<in> set fs. ip_ok (sa_ip (sf_service f))"
    and "\<forall>i \<in> set ifaces. blank_free i" and "blank_free flowid"
    and "unat (tcFilterPriority t) + (\<Sum>f\<leftarrow>fs. length (protocols f)) < 3048"
  shows "\<exists>t'. addServiceFilters X fs ifaces flowid t = (Inr (number (tcFilterPriority t) fs), t') \<and> \<not> tc_dryRun t' \<and>
    tc_log t' = tc_log t @ concat (map (add_cmds ifaces flowid) (number (tcFilterPriority t) fs))"
  using assms(2,3,6)
proof (induction fs arbitrary: t)
  case (Cons f fs)
  let ?p = "tcFilterPriority t" and ?k = "of_nat (length (protocols f)) :: u32"
  let ?t = "t\<lparr>tcFilterPriority := ?p + ?k, tc_log := tc_log t @ proto_cmds ifaces flowid (sf_service f) ?p (protocols f)\<rparr>"
  have one: "add_protocols X ifaces flowid f (protocols f) t = (Inr (f\<lparr>sf_priority := ?p + ?k\<rparr>), ?t)"
    using add_protocols_all [OF assms(1) Cons.prems(1) _ _ assms(4,5), of "protocols f" f] protocols_set [of f] Cons.prems(2,3) by simp
  have "unat (?p + ?k) = unat ?p + length (protocols f)" using Cons.prems(3) by (simp add: unat_word_ariths unat_of_nat)
  then have "\<not> tc_dryRun ?t" "\<forall>f \<in> set fs. ip_ok (sa_ip (sf_service f))"
    "unat (tcFilterPriority ?t) + (\<Sum>f\<leftarrow>fs. length (protocols f)) < 3048"
    using Cons.prems by simp_all
  from Cons.IH [OF this] obtain t' where t': "addServiceFilters X fs ifaces flowid ?t = (Inr (number (?p + ?k) fs), t') \<and>
      \<not> tc_dryRun t' \<and> tc_log t' = tc_log ?t @ concat (map (add_cmds ifaces flowid) (number (?p + ?k) fs))"
    by auto
  moreover have "add_cmds ifaces flowid (f\<lparr>sf_priority := ?p + ?k\<rparr>) = proto_cmds ifaces flowid (sf_service f) ?p (protocols f)"
    by (simp add: add_cmds_def)
  ultimately show ?case by (intro exI [of _ t']) (use one in simp)
qed simp

text \<open>A service with two protocols keeps the second priority; no other service keeps the first one.\<close>

lemma number_above:
  assumes "unat p + (\<Sum>f\<leftarrow>fs. length (protocols f)) < 2 ^ 32" and "g \<in> set (number p fs)"
  shows "unat p + length (protocols g) \<le> unat (sf_priority g)"
  using assms
proof (induction fs arbitrary: p)
  case (Cons f fs)
  let ?q = "p + of_nat (length (protocols f)) :: u32"
  have "unat ?q = unat p + length (protocols f)" using Cons.prems(1) by (simp add: unat_word_ariths unat_of_nat)
  then show ?case using Cons.prems Cons.IH [of ?q] by auto
qed simp

lemma number_gap:
  assumes "unat p + (\<Sum>f\<leftarrow>fs. length (protocols f)) < 2 ^ 32" and "g \<in> set (number p fs)"
    and "length (protocols g) = 2"
  shows "sf_priority g - 1 \<notin> sf_priority ` set (number p fs)"
  using assms(1,2)
proof (induction fs arbitrary: p)
  case (Cons f fs)
  let ?q = "p + of_nat (length (protocols f)) :: u32"
  have q: "unat ?q = unat p + length (protocols f)" using Cons.prems(1) by (simp add: unat_word_ariths unat_of_nat)
  have tail: "unat ?q + (\<Sum>f\<leftarrow>fs. length (protocols f)) < 2 ^ 32" using Cons.prems(1) q by simp
  have above: "unat ?q < unat (sf_priority h)" if "h \<in> set (number ?q fs)" for h
    using number_above [OF tail that] protocols_set [of h] by (cases "protocols h") auto
  show ?case
  proof (cases "g \<in> set (number ?q fs)")
    case True
    have "unat ?q + 2 \<le> unat (sf_priority g)" using number_above [OF tail True] assms(3) by simp
    then have "unat (sf_priority g - 1) = unat (sf_priority g) - 1" by (metis add_leE one_le_numeral unat_minus_one le_zero_eq not_one_le_zero numeral_2_eq_2 unat_0 zero_less_Suc linorder_not_le)
    then have "sf_priority g - 1 \<noteq> ?q" using \<open>unat ?q + 2 \<le> unat (sf_priority g)\<close> by auto
    then show ?thesis using Cons.IH [OF tail True] by simp
  next
    case False
    then have g: "sf_priority g = ?q" "length (protocols f) = 2" using Cons.prems(2) assms(3) by auto
    then have "unat ?q = unat p + 2" using q by simp
    then have "unat (sf_priority g - 1) < unat ?q" using g(1)
      by (metis add_2_eq_Suc' lessI nat.distinct(1) unat_0 unat_minus_one diff_Suc_1)
    then show ?thesis using above g(1) by fastforce
  qed
qed simp

lemma add_new_distinct:
  "distinct (map svc fs) \<Longrightarrow> distinct (map svc (add_new fs f))"
  by (simp add: add_new_def find_None_iff)

lemma foldl_add_new:
  assumes "distinct (map svc fs)"
  shows "distinct (map svc (foldl (\<lambda>fs x. add_new fs (mk x)) fs xs)) \<and>
    set (foldl (\<lambda>fs x. add_new fs (mk x)) fs xs) \<subseteq> set fs \<union> mk ` set xs \<and>
    (fs \<noteq> [] \<or> xs \<noteq> [] \<longrightarrow> foldl (\<lambda>fs x. add_new fs (mk x)) fs xs \<noteq> [])"
  using assms
proof (induction xs arbitrary: fs)
  case (Cons x xs)
  have "add_new fs (mk x) \<noteq> []" "set (add_new fs (mk x)) \<subseteq> insert (mk x) (set fs)"
    by (auto simp: add_new_def find_None_iff)
  with Cons.IH [OF add_new_distinct [OF Cons.prems, of "mk x"]] show ?case by auto
qed simp

lemma pod_filters:
  "distinct (map svc (buildServiceFiltersFromPod p ports))"
  "ports \<noteq> [] \<Longrightarrow> buildServiceFiltersFromPod p ports \<noteq> []"
  "f \<in> set (buildServiceFiltersFromPod p ports) \<Longrightarrow>
     sa_ip (sf_service f) = cidr_String (pod_ip p @ ''/32'') \<and> sa_protocol (sf_service f) \<in> sp_protocol ` set ports"
  using foldl_add_new [of "[]" "\<lambda>port. \<lparr>sf_service = \<lparr>sa_ip = cidr_String (pod_ip p @ ''/32''), sa_port = sp_target port,
      sa_protocol = sp_protocol port\<rparr>, sf_priority = 0\<rparr>" ports]
  by (auto simp: buildServiceFiltersFromPod_def)

text \<open>
  C27: A pod that comes and goes, for services with one protocol per port and for headless ones. When its addition is
  handled, every port gets one filter per protocol on every interface, with priorities of their own; the watcher
  remembers one priority per port, the last. When its deletion is handled, the filters with the remembered
  priorities are deleted, each once, the watcher is as before, and the thread is back in its namespace both times.
  For a port with one protocol this removes its filter. For a port with two, as the entry of a headless service,
  no command deletes the first one, whose priority is one below the remembered: the TCP filter stays.
\<close>

theorem pod_added_then_deleted:
  assumes "never_fails (we_exec W)" and "we_enter W" and "we_exit W" and "\<not> tc_dryRun t"
    and "\<forall>i \<in> set (we_ifaces W). blank_free i" and "blank_free (we_flowid W)"
    and "pod_ip p \<noteq> ''''" and "w_ports w \<noteq> []" and "distinct (map svc (w_pod_filters w))"
  defines "fs \<equiv> buildServiceFiltersFromPod p (w_ports w)"
  assumes "\<forall>f \<in> set fs. svc f \<notin> svc ` set (w_pod_filters w)"
    and "unat (tcFilterPriority t) + (\<Sum>f\<leftarrow>fs. length (protocols f)) < 3048"
  shows "\<exists>t1 t2 ds.
    handleKubernetesPodsChanges W Added (Some p) (w, t, False) =
      (None, w\<lparr>w_pod_filters := w_pod_filters w @ number (tcFilterPriority t) fs\<rparr>, t1, False) \<and>
    tc_log t1 = tc_log t @ concat (map (add_cmds (we_ifaces W) (we_flowid W)) (number (tcFilterPriority t) fs)) \<and>
    handleKubernetesPodsChanges W Deleted (Some p)
      (w\<lparr>w_pod_filters := w_pod_filters w @ number (tcFilterPriority t) fs\<rparr>, t1, False) = (None, w, t2, False) \<and>
    tc_log t2 = tc_log t1 @ concat (map (del_cmds (we_ifaces W)) ds) \<and> mset ds = mset (number (tcFilterPriority t) fs) \<and>
    (\<forall>g \<in> set (number (tcFilterPriority t) fs). newProtocol (sa_protocol (sf_service g)) = ALL_protocol \<longrightarrow>
       sf_priority g - 1 \<notin> sf_priority ` set ds)"
proof -
  let ?new = "number (tcFilterPriority t) fs" and ?old = "w_pod_filters w"
  let ?w = "w\<lparr>w_pod_filters := ?old @ ?new\<rparr>"
  have ip: "ip_ok (sa_ip (sf_service f))" if "f \<in> set fs" for f
  proof -
    have "sa_ip (sf_service f) = cidr_String (pod_ip p @ ''/32'')" using pod_filters(3) that unfolding fs_def by blast
    then show ?thesis by simp
  qed
  have fs: "distinct (map svc fs)" "fs \<noteq> []"
    using pod_filters(1,2) assms(8) unfolding fs_def by blast+
  obtain t1 where t1: "addServiceFilters (we_exec W) fs (we_ifaces W) (we_flowid W) t = (Inr ?new, t1)" "\<not> tc_dryRun t1"
    "tc_log t1 = tc_log t @ concat (map (add_cmds (we_ifaces W) (we_flowid W)) ?new)"
    using addServiceFilters_number [OF assms(1,4) _ assms(5,6,12)] ip by auto
  have "findServiceFilter ?old (fs ! 0) = None" using fs(2) assms(11) by (simp add: find_None_iff)
  then have added: "handleKubernetesPodsChanges W Added (Some p) (w, t, False) = (None, ?w, t1, False)"
    using assms(2,3,7) fs(2) t1(1)
    by (simp add: handleKubernetesPodsChanges_def change_pod_filters_def leave_ns_def fs_def [symmetric] Let_def)
  have sn: "svc ` set ?new = svc ` set fs" by (metis list.set_map svc_number)
  have sf: "svc ` set fs \<inter> svc ` set ?old = {}" using assms(11) by auto
  have "distinct (map svc (?old @ ?new))" using assms(9) fs(1) sf sn by (simp add: Int_commute)
  from removeServiceFiltersInList_removes' [OF assms(1) t1(2) this, of "we_ifaces W" fs]
  obtain ds arr where ds: "removeServiceFiltersInList (we_exec W) (we_ifaces W) (?old @ ?new) fs t1 =
      (Inr (filter (\<lambda>x. svc x \<notin> svc ` set fs) (?old @ ?new)), arr,
       t1\<lparr>tc_log := tc_log t1 @ concat (map (del_cmds (we_ifaces W)) ds)\<rparr>)"
    "mset ds = mset (filter (\<lambda>x. svc x \<in> svc ` set fs) (?old @ ?new))" by auto
  have "filter (\<lambda>x. svc x \<notin> svc ` set fs) ?new = []" "filter (\<lambda>x. svc x \<in> svc ` set fs) ?new = ?new"
    using sn by (auto simp: filter_empty_conv filter_id_conv)
  moreover have "filter (\<lambda>x. svc x \<notin> svc ` set fs) ?old = ?old" "filter (\<lambda>x. svc x \<in> svc ` set fs) ?old = []"
    using sf by (auto simp: filter_empty_conv filter_id_conv)
  ultimately have rem: "removeServiceFiltersInList (we_exec W) (we_ifaces W) (?old @ ?new) fs t1 =
      (Inr ?old, arr, t1\<lparr>tc_log := tc_log t1 @ concat (map (del_cmds (we_ifaces W)) ds)\<rparr>)" "mset ds = mset ?new"
    using ds by simp_all
  then have "handleKubernetesPodsChanges W Deleted (Some p) (?w, t1, False) =
      (None, w, t1\<lparr>tc_log := tc_log t1 @ concat (map (del_cmds (we_ifaces W)) ds)\<rparr>, False)"
    using assms(2,3) fs(2)
    by (simp add: handleKubernetesPodsChanges_def change_pod_filters_def leave_ns_def fs_def [symmetric] Let_def)
  moreover have "\<forall>g \<in> set ?new. newProtocol (sa_protocol (sf_service g)) = ALL_protocol \<longrightarrow> sf_priority g - 1 \<notin> sf_priority ` set ds"
  proof (intro ballI impI)
    fix g assume g: "g \<in> set ?new" "newProtocol (sa_protocol (sf_service g)) = ALL_protocol"
    then have "length (protocols g) = 2" by (simp add: AllProtocols_def)
    then show "sf_priority g - 1 \<notin> sf_priority ` set ds"
      using number_gap [OF _ g(1)] assms(12) mset_eq_setD [OF rem(2)] by simp
  qed
  ultimately show ?thesis using added t1(3) rem(2)
    by (intro exI [of _ t1] exI [of _ "t1\<lparr>tc_log := tc_log t1 @ concat (map (del_cmds (we_ifaces W)) ds)\<rparr>"] exI [of _ ds]) simp
qed

definition sample_watch :: watch_env where
  "sample_watch = \<lparr>we_exec = ok_tc, we_ifaces = [''eth0''], we_flowid = ''1:4'', we_hash = \<lambda>ip seed. 0,
     we_uid = ''u'', we_enter = True, we_exit = True, we_pods = \<lambda>sel. Some []\<rparr>"

definition sample_watcher :: watcher where
  "sample_watcher = \<lparr>w_spec = \<lparr>ss_name = ''web'', ss_namespace = ''shop'', ss_ports = [], ss_percentage = None\<rparr>,
     w_ports = [\<lparr>sp_name = ''http'', sp_port = 80, sp_target = 8080, sp_protocol = ''TCP''\<rparr>], w_pod_filters = [],
     w_pods_without_ip = [], w_pods_version = '''', w_service_filters = [], w_services_version = ''''\<rparr>"

definition sample_pod :: pod where
  "sample_pod = \<lparr>pod_name = ''web-1'', pod_ip = ''10.0.0.7'', pod_version = ''3''\<rparr>"

lemma sample_watch_ok:
  "never_fails (we_exec sample_watch)" "we_enter sample_watch" "we_exit sample_watch" "\<not> tc_dryRun (NewTrafficController False)"
  "\<forall>i \<in> set (we_ifaces sample_watch). blank_free i" "blank_free (we_flowid sample_watch)" "pod_ip sample_pod \<noteq> ''''"
  by (simp_all add: sample_watch_def sample_pod_def ok_tc_never_fails NewTrafficController_def)

text \<open>A port with TCP, and the entry of a headless service.\<close>

definition headless_watcher :: watcher where
  "headless_watcher = sample_watcher\<lparr>w_ports := w_ports sample_watcher @ [\<lparr>sp_name = '''', sp_port = 0, sp_target = 0, sp_protocol = ''''\<rparr>]\<rparr>"

theorem pod_added_then_deleted_witness:
  "\<exists>t1 t2 g h.
    handleKubernetesPodsChanges sample_watch Added (Some sample_pod) (headless_watcher, NewTrafficController False, False) =
      (None, headless_watcher\<lparr>w_pod_filters := [g, h]\<rparr>, t1, False) \<and>
    handleKubernetesPodsChanges sample_watch Deleted (Some sample_pod) (headless_watcher\<lparr>w_pod_filters := [g, h]\<rparr>, t1, False) =
      (None, headless_watcher, t2, False) \<and> sf_priority g = 1001 \<and> sf_priority h = 1003"
proof -
  let ?fs = "buildServiceFiltersFromPod sample_pod (w_ports headless_watcher)" and ?t = "NewTrafficController False"
  have p: "newProtocol ''TCP'' = TCP" "newProtocol '''' = ALL_protocol" "TCP \<noteq> ALL_protocol"
    by (simp_all add: newProtocol_def Let_def to_lower_def UDP_def ARP_def TCP_def ALL_protocol_def char_of_def bit_0)
  let ?ip = "cidr_String (pod_ip sample_pod @ ''/32'')"
  have fs: "?fs = [\<lparr>sf_service = \<lparr>sa_ip = ?ip, sa_port = 8080, sa_protocol = ''TCP''\<rparr>, sf_priority = 0\<rparr>,
      \<lparr>sf_service = \<lparr>sa_ip = ?ip, sa_port = 0, sa_protocol = ''''\<rparr>, sf_priority = 0\<rparr>]"
    by (simp add: buildServiceFiltersFromPod_def add_new_def headless_watcher_def sample_watcher_def service_String_def show_int_def)
  have pre: "w_ports headless_watcher \<noteq> []" "distinct (map svc (w_pod_filters headless_watcher))" "w_pod_filters headless_watcher = []"
    by (simp_all add: headless_watcher_def sample_watcher_def)
  have t: "tcFilterPriority ?t = 1000" "(\<Sum>f\<leftarrow>?fs. length (protocols f)) = 3"
    by (simp_all add: NewTrafficController_def tcPriority_def fs AllProtocols_def Let_def p)
  have n: "number 1000 ?fs = [(?fs ! 0)\<lparr>sf_priority := 1001\<rparr>, (?fs ! 1)\<lparr>sf_priority := 1003\<rparr>]"
    by (simp add: fs AllProtocols_def Let_def p)
  from pod_added_then_deleted [OF sample_watch_ok pre(1,2)] pre(3) show ?thesis
    unfolding t n by fastforce
qed

text \<open>
  The percentage of a service does not hold for its pods: what the handler of a pod event does is
  independent of the specification, so every pod of the service that is added while the disruption runs,
  which includes those a new watch reports first, gets its filters whatever share was asked for.
\<close>

theorem pod_events_ignore_percentage:
  "handleKubernetesPodsChanges W ty obj (w\<lparr>w_spec := s\<rparr>, t, ns) =
     (case handleKubernetesPodsChanges W ty obj (w, t, ns) of (e, w', t', ns') \<Rightarrow> (e, w'\<lparr>w_spec := s\<rparr>, t', ns'))"
  by (cases ty; cases obj; cases w)
    (auto simp: handleKubernetesPodsChanges_def change_pod_filters_def leave_ns_def Let_def
      split: prod.splits sum.splits option.splits)

end
