(* ===== verification/Net_Operations.thy ===== *)
theory Net_Operations
  imports Service_Filters "HOL-Library.AList"
begin

text \<open>
  The tree of queueing disciplines the network injector builds
  (\<open>applyOperations\<close> in \<open>src/injector/network_disruption.go\<close>): the steps in the order of the code, each
  with its error; the filters for hosts with one round of their watcher; the lengths of the transmission
  queues, which are set before and reset on return.

  The interfaces, the routes, the environment of the process, the Kubernetes client and the DNS client
  are parameters, and so is whether the map loader fails on its arguments. A packet's way through the
  tree is decided by \<open>tc\<close>: what is documented of it is a hypothesis on the classes and disciplines a
  packet passes through.
\<close>

section \<open>Specification and environment\<close>

datatype net_level = Level_pod | Level_node | Level_other

text \<open>The two kinds of operations; durations are nanoseconds.\<close>

datatype link_op = Netem nat nat int int int | Output_limit nat

text \<open>
  \<open>NetworkDisruptionHostSpec\<close>. Hosts are keys of a map in the code and compared with \<open>==\<close>: the percentage
  is a pointer, given here with its address.
\<close>

record host_spec =
  h_host :: string
  h_port :: int
  h_protocol :: string
  h_flow :: string
  h_conn :: string
  h_resolver :: string
  h_percentage :: "(nat \<times> int) option"

record net_spec =
  spec_hosts :: "host_spec list"
  spec_allowed :: "host_spec list"
  spec_services :: "service_spec list"
  spec_http :: "NetworkHTTPFilters option"

text \<open>
  A link: its name, its queue length when it was listed, and whether the kernel accepts a queue length. A
  default route: the name of its link and the gateway.
\<close>

record net_link =
  l_name :: string
  l_txQLen :: nat
  l_set_ok :: "nat \<Rightarrow> bool"

record net_env =
  ne_exec :: executor
  ne_config :: "string list \<Rightarrow> bool"
  ne_links :: "net_link list option"
  ne_routes :: "(string \<times> bytes) list option"
  ne_node_ip :: "string option"
  ne_level :: net_level
  ne_on_init :: bool
  ne_dns :: dns_client
  ne_interrupted :: "host_spec \<Rightarrow> bool"
  ne_hash :: "string \<Rightarrow> string \<Rightarrow> u64"
  ne_uid :: string
  ne_service :: "service_spec \<Rightarrow> service option"
  ne_enter :: bool
  ne_exit :: bool

text \<open>The filters of the hosts: the text of the address and the priority of each.\<close>

type_synonym host_filters = "(host_spec \<times> (string \<times> u32) list) list"

record net_state =
  ns_tc :: tc
  ns_operations :: "link_op list"
  ns_qlen :: "string \<Rightarrow> nat"
  ns_config :: "string list list"
  ns_services :: "watcher list option"
  ns_hosts :: "host_filters option"

datatype net_error = Net_links | Net_routes | Net_env_missing | Net_qlen | Net_tc tc_error | Net_config
  | Net_resolve | Net_service | Net_watching

type_synonym net_step = "net_state \<Rightarrow> net_error option \<times> net_state"

section \<open>Steps\<close>

text \<open>A sequence of steps ends at the first error.\<close>

fun run_steps :: "net_step list \<Rightarrow> net_step" where
  "run_steps [] s = (None, s)"
| "run_steps (f # fs) s = (case f s of (Some e, s) \<Rightarrow> (Some e, s) | (None, s) \<Rightarrow> run_steps fs s)"

definition tc_step :: "(tc \<Rightarrow> tc_error option \<times> tc) \<Rightarrow> net_step" where
  "tc_step f s = (case f (ns_tc s) of (e, t) \<Rightarrow> (map_option Net_tc e, s\<lparr>ns_tc := t\<rparr>))"

definition filter_step :: "(tc \<Rightarrow> (tc_error + 'a) \<times> tc) \<Rightarrow> net_step" where
  "filter_step f s = (case f (ns_tc s) of
     (Inl e, t) \<Rightarrow> (Some (Net_tc e), s\<lparr>ns_tc := t\<rparr>) | (Inr _, t) \<Rightarrow> (None, s\<lparr>ns_tc := t\<rparr>))"

text \<open>The map loader, which a dry run leaves out.\<close>

definition ConfigBPFFilter :: "net_env \<Rightarrow> string list \<Rightarrow> net_step" where
  "ConfigBPFFilter N args s =
     (if tc_dryRun (ns_tc s) then (None, s)
      else (if ne_config N args then Some Net_config else None, s\<lparr>ns_config := ns_config s @ [args]\<rparr>))"

text \<open>The operations, each a child of the one before it.\<close>

fun perform :: "executor \<Rightarrow> string list \<Rightarrow> string \<Rightarrow> string \<Rightarrow> link_op \<Rightarrow> tc \<Rightarrow> tc_error option \<times> tc" where
  "perform X ifaces parent handle (Netem delay delayJitter drp corrupt duplicate) t =
     AddNetem X ifaces parent handle delay delayJitter drp corrupt duplicate t"
| "perform X ifaces parent handle (Output_limit bytesPerSec) t = AddOutputLimit X ifaces parent handle bytesPerSec t"

fun op_steps :: "executor \<Rightarrow> string list \<Rightarrow> string \<Rightarrow> nat \<Rightarrow> link_op list \<Rightarrow> net_step list" where
  "op_steps X ifaces parent handle [] = []"
| "op_steps X ifaces parent handle (op # ops) =
     tc_step (perform X ifaces parent (Itoa handle @ '':'') op) #
     op_steps X ifaces (Itoa handle @ '':'') (handle + 1) ops"

section \<open>Hosts\<close>

definition FlowIngress :: string where "FlowIngress = ''ingress''"

text \<open>The share of the addresses of a host that is disrupted.\<close>

definition host_share :: "net_env \<Rightarrow> host_spec \<Rightarrow> string list \<Rightarrow> string list" where
  "host_share N h ips =
     (case h_percentage h of
        Some (_, q) \<Rightarrow> if q < 100 \<and> q > 0 then SelectIPsByPercentage (ne_hash N) ips q (h_host h @ ''-'' @ ne_uid N) else ips
      | None \<Rightarrow> ips)"

text \<open>The filters of a host: one for each address and protocol, with its priority.\<close>

fun add_host_filters ::
  "executor \<Rightarrow> string list \<Rightarrow> host_spec \<Rightarrow> string \<Rightarrow> (string \<times> string) list \<Rightarrow> tc \<Rightarrow>
     (tc_error + (string \<times> u32) list) \<times> tc" where
  "add_host_filters X ifaces h flowid [] t = (Inr [], t)"
| "add_host_filters X ifaces h flowid ((ip, protocol) # rest) t =
     (case AddFilter X ifaces ''1:0'' ''''
        (if h_flow h = FlowIngress then Some ip else None) (if h_flow h = FlowIngress then None else Some ip)
        (if h_flow h = FlowIngress then h_port h else 0) (if h_flow h = FlowIngress then 0 else h_port h)
        protocol (NewConnState (h_conn h)) flowid t of
        (Inl e, t) \<Rightarrow> (Inl e, t)
      | (Inr priority, t) \<Rightarrow>
          (case add_host_filters X ifaces h flowid rest t of
             (Inl e, t) \<Rightarrow> (Inl e, t)
           | (Inr fs, t) \<Rightarrow> (Inr ((ip, priority) # fs), t)))"

text \<open>
  The loop over the hosts with the map built so far. When the injector is interrupted the result is a
  nil map, which is empty for its readers.
\<close>

fun add_hosts ::
  "net_env \<Rightarrow> string list \<Rightarrow> string \<Rightarrow> host_spec list \<Rightarrow> host_filters \<Rightarrow> tc \<Rightarrow> (net_error + host_filters) \<times> tc" where
  "add_hosts N ifaces flowid [] m t = (Inr m, t)"
| "add_hosts N ifaces flowid (h # hs) m t =
     (if ne_interrupted N h then (Inr [], t)
      else (case resolveHost (ne_dns N) (h_host h) (h_resolver h) of
          None \<Rightarrow> (Inl Net_resolve, t)
        | Some nets \<Rightarrow>
            (let ips = host_share N h (map ipnet_String nets)
             in case add_host_filters (ne_exec N) ifaces h flowid (List.product ips (AllProtocols (h_protocol h))) t of
                  (Inl e, t) \<Rightarrow> (Inl (Net_tc e), t)
                | (Inr fs, t) \<Rightarrow> add_hosts N ifaces flowid hs (AList.update h fs m) t)))"

definition addFiltersForHosts ::
  "net_env \<Rightarrow> string list \<Rightarrow> host_spec list \<Rightarrow> string \<Rightarrow> tc \<Rightarrow> (net_error + host_filters) \<times> tc" where
  "addFiltersForHosts N ifaces hosts flowid t = add_hosts N ifaces flowid hosts [] t"

text \<open>The filters for the allowed hosts are not remembered.\<close>

definition allowed_hosts_step :: "net_env \<Rightarrow> net_spec \<Rightarrow> string list \<Rightarrow> net_step" where
  "allowed_hosts_step N spec ifaces s =
     (case addFiltersForHosts N ifaces (spec_allowed spec) ''1:1'' (ns_tc s) of
        (Inl e, t) \<Rightarrow> (Some e, s\<lparr>ns_tc := t\<rparr>) | (Inr _, t) \<Rightarrow> (None, s\<lparr>ns_tc := t\<rparr>))"

definition handleFiltersForHosts :: "net_env \<Rightarrow> net_spec \<Rightarrow> string list \<Rightarrow> string \<Rightarrow> net_step" where
  "handleFiltersForHosts N spec ifaces flowid s =
     (case addFiltersForHosts N ifaces (spec_hosts spec) flowid (ns_tc s) of
        (Inl e, t) \<Rightarrow> (Some e, s\<lparr>ns_tc := t\<rparr>)
      | (Inr m, t) \<Rightarrow> (None, s\<lparr>ns_tc := t, ns_hosts := Some m\<rparr>))"

definition new_watcher :: "service_spec \<Rightarrow> service \<Rightarrow> watcher" where
  "new_watcher v k8s = \<lparr>w_spec = v, w_ports = ExtractAffectedPortsInServicePorts v k8s, w_pod_filters = [],
     w_pods_without_ip = [], w_pods_version = '''', w_service_filters = [], w_services_version = ''''\<rparr>"

fun service_watchers :: "net_env \<Rightarrow> service_spec list \<Rightarrow> watcher list option" where
  "service_watchers N [] = Some []"
| "service_watchers N (v # vs) =
     (case ne_service N v of
        None \<Rightarrow> None
      | Some k8s \<Rightarrow> map_option ((#) (new_watcher v k8s)) (service_watchers N vs))"

definition handleFiltersForServices :: "net_env \<Rightarrow> net_spec \<Rightarrow> net_step" where
  "handleFiltersForServices N spec s =
     (case service_watchers N (spec_services spec) of
        None \<Rightarrow> (Some Net_service, s)
      | Some ws \<Rightarrow>
          if ns_services s \<noteq> None then (Some Net_watching, s) else (None, s\<lparr>ns_services := Some ws\<rparr>))"

section \<open>One round of the host watcher\<close>

text \<open>
  A host has changed when a filter's address is not among the new ones, or when their number differs from
  the number of addresses with a filter. The DNS client may answer differently when the filters are
  added again, so it is an argument of its own.
\<close>

definition host_changed :: "net_env \<Rightarrow> dns_client \<Rightarrow> host_spec \<Rightarrow> (string \<times> u32) list \<Rightarrow> bool" where
  "host_changed N client h fs \<longleftrightarrow>
     (case resolveHost client (h_host h) (h_resolver h) of
        None \<Rightarrow> False
      | Some nets \<Rightarrow>
          (let ips = map ipnet_String nets;
               newIps = (case h_percentage h of
                   Some (_, q) \<Rightarrow> if q < 100 then SelectIPsByPercentage (ne_hash N) ips q (h_host h @ ''-'' @ ne_uid N) else ips
                 | None \<Rightarrow> ips)
           in (\<exists>f \<in> set fs. fst f \<notin> set newIps) \<or> length newIps \<noteq> length (remdups (map fst fs))))"

text \<open>Removing filters; an error is logged and the next filter follows.\<close>

fun remove_filters :: "executor \<Rightarrow> string list \<Rightarrow> u32 list \<Rightarrow> tc \<Rightarrow> tc" where
  "remove_filters X ifaces [] t = t"
| "remove_filters X ifaces (p # ps) t = remove_filters X ifaces ps (snd (removeTcFilter X ifaces p t))"

text \<open>
  One round, in an order of the map that the code leaves open: the filters of the hosts, the controller and
  whether the thread is in the target's network namespace. After an error the namespace is not left.
\<close>

definition watchHostChanges ::
  "net_env \<Rightarrow> dns_client \<Rightarrow> string list \<Rightarrow> string \<Rightarrow> host_filters \<Rightarrow> tc \<Rightarrow> bool \<Rightarrow> host_filters \<times> tc \<times> bool" where
  "watchHostChanges N client ifaces flowid m t ns =
     (if \<not> ne_enter N then (m, t, ns)
      else (let changed = filter (\<lambda>(h, fs). host_changed N client h fs) m
        in if changed = [] then (m, t, \<not> ne_exit N)
           else (let t = remove_filters (ne_exec N) ifaces (concat (map (map snd \<circ> snd) changed)) t
             in case addFiltersForHosts N ifaces (map fst changed) flowid t of
                  (Inl e, t) \<Rightarrow> (m, t, True)
                | (Inr filterMap, t) \<Rightarrow>
                    (foldl (\<lambda>m (h, fs). AList.update h fs m) m filterMap, t, \<not> ne_exit N))))"

section \<open>The tree\<close>

definition InjectorCgroupClassID :: string where "InjectorCgroupClassID = ''0x00020002''"

definition bpf_obj :: string where "bpf_obj = ''/usr/local/bin/bpf-network-tc-filter.bpf.o''"

definition root_priomap :: "nat list" where
  "root_priomap = [1, 2, 2, 2, 1, 2, 0, 0, 1, 1, 1, 1, 1, 1, 1, 1]"

definition http_steps :: "net_env \<Rightarrow> string list \<Rightarrow> NetworkHTTPFilters \<Rightarrow> net_step list" where
  "http_steps N ifaces http =
     [tc_step (AddPrio (ne_exec N) ifaces ''1:4'' ''2:'' 2 (replicate 16 0)),
      tc_step (AddPrio (ne_exec N) ifaces ''2:2'' ''3:'' 2 (replicate 16 0)),
      tc_step (AddPrio (ne_exec N) ifaces ''3:2'' ''4:'' 2 (replicate 16 0)),
      tc_step (AddBPFFilter (ne_exec N) ifaces ''2:0'' bpf_obj ''2:2'' ''classifier_methods''),
      tc_step (AddBPFFilter (ne_exec N) ifaces ''3:0'' bpf_obj ''3:2'' ''classifier_paths''),
      ConfigBPFFilter N (configBPFFilterArgs http),
      tc_step (AddFlowerFilter (ne_exec N) ifaces ''4:0'' InjectorCgroupClassID ''4:2'')]"

definition mark_steps :: "net_env \<Rightarrow> string list \<Rightarrow> net_step list" where
  "mark_steps N ifaces =
     [tc_step (AddPrio (ne_exec N) ifaces ''1:4'' ''2:'' 2 (replicate 16 0)),
      tc_step (AddFlowerFilter (ne_exec N) ifaces ''2:0'' InjectorCgroupClassID ''2:2'')]"

text \<open>The second part of the tree with the operations below it.\<close>

definition tree_steps :: "net_env \<Rightarrow> net_spec \<Rightarrow> string list \<Rightarrow> link_op list \<Rightarrow> net_step list" where
  "tree_steps N spec ifaces ops =
     (if ne_level N = Level_pod \<and> \<not> ne_on_init N
      then (case spec_http spec of
          Some http \<Rightarrow>
            if HasHTTPFilters (spec_http spec)
            then http_steps N ifaces http @ op_steps (ne_exec N) ifaces ''4:2'' 5 ops
            else mark_steps N ifaces @ op_steps (ne_exec N) ifaces ''2:2'' 3 ops
        | None \<Rightarrow> mark_steps N ifaces @ op_steps (ne_exec N) ifaces ''2:2'' 3 ops)
      else op_steps (ne_exec N) ifaces ''1:4'' 2 ops)"

text \<open>The traffic that must not be disrupted.\<close>

definition allow_step :: "net_env \<Rightarrow> string list \<Rightarrow> ipnet option \<Rightarrow> int \<Rightarrow> string \<Rightarrow> net_step" where
  "allow_step N ifaces dstIP srcPort protocol =
     filter_step (AddFilter (ne_exec N) ifaces ''1:0'' '''' None (map_option ipnet_String dstIP) srcPort 0 protocol
       ConnStateUndefined ''1:1'')"

definition parsed_net :: "string \<Rightarrow> ipnet" where
  "parsed_net s = single_net (case ParseIP s of None \<Rightarrow> [] | Some ip \<Rightarrow> ip)"

definition safeguard_steps :: "net_env \<Rightarrow> string list \<Rightarrow> (string \<times> bytes) list \<Rightarrow> string \<Rightarrow> net_step list" where
  "safeguard_steps N ifaces defaultRoutes nodeIP =
     (case ne_level N of
        Level_pod \<Rightarrow> map (\<lambda>(link, gateway). allow_step N [link] (Some (single_net gateway)) 0 TCP) defaultRoutes @
          [allow_step N ifaces (Some (parsed_net nodeIP)) 0 TCP]
      | Level_node \<Rightarrow>
          [allow_step N ifaces None 22 TCP, allow_step N ifaces None 0 ARP,
           allow_step N ifaces (Some (parsed_net ''169.254.169.254'')) 0 TCP]
      | Level_other \<Rightarrow> [])"

definition target_steps :: "net_env \<Rightarrow> net_spec \<Rightarrow> string list \<Rightarrow> net_step list" where
  "target_steps N spec ifaces =
     (if spec_hosts spec = [] \<and> spec_services spec = []
      then map (\<lambda>protocol. filter_step (AddFilter (ne_exec N) ifaces ''1:0'' '''' None
          (Some (ipnet_String null_net)) 0 0 protocol ConnStateUndefined ''1:4'')) (AllProtocols ALL_protocol)
      else [handleFiltersForHosts N spec ifaces ''1:4'', handleFiltersForServices N spec])"

text \<open>
  The queue lengths: every link without one gets 1000; the links set so far are reset on return, the last
  one first, whether the rest succeeds or not. A reset that fails is only logged.
\<close>

fun set_qlens :: "net_link list \<Rightarrow> (string \<Rightarrow> nat) \<Rightarrow> net_error option \<times> net_link list \<times> (string \<Rightarrow> nat)" where
  "set_qlens [] q = (None, [], q)"
| "set_qlens (l # ls) q =
     (if l_txQLen l = 0
      then if l_set_ok l 1000
           then (case set_qlens ls (q(l_name l := 1000)) of (e, deferred, q) \<Rightarrow> (e, l # deferred, q))
           else (Some Net_qlen, [], q)
      else set_qlens ls q)"

definition reset_qlens :: "net_link list \<Rightarrow> (string \<Rightarrow> nat) \<Rightarrow> string \<Rightarrow> nat" where
  "reset_qlens deferred q = foldr (\<lambda>l q. if l_set_ok l 0 then q(l_name l := 0) else q) deferred q"

definition all_steps :: "net_env \<Rightarrow> net_spec \<Rightarrow> string list \<Rightarrow> (string \<times> bytes) list \<Rightarrow> string \<Rightarrow> link_op list \<Rightarrow> net_step list" where
  "all_steps N spec ifaces defaultRoutes nodeIP ops =
     tc_step (AddPrio (ne_exec N) ifaces ''root'' ''1:'' 4 root_priomap) #
     tree_steps N spec ifaces ops @ safeguard_steps N ifaces defaultRoutes nodeIP @
     allowed_hosts_step N spec ifaces # target_steps N spec ifaces"

definition applyOperations :: "net_env \<Rightarrow> net_spec \<Rightarrow> net_step" where
  "applyOperations N spec s =
     (case ne_links N of
        None \<Rightarrow> (Some Net_links, s)
      | Some links \<Rightarrow>
          (case ne_routes N of
             None \<Rightarrow> (Some Net_routes, s)
           | Some defaultRoutes \<Rightarrow>
               (case ne_node_ip N of
                  None \<Rightarrow> (Some Net_env_missing, s)
                | Some nodeIP \<Rightarrow>
                    (case set_qlens links (ns_qlen s) of
                       (Some e, deferred, q) \<Rightarrow> (Some e, s\<lparr>ns_qlen := reset_qlens deferred q\<rparr>)
                     | (None, deferred, q) \<Rightarrow>
                         (case run_steps (all_steps N spec (map l_name links) defaultRoutes nodeIP (ns_operations s))
                              (s\<lparr>ns_qlen := q\<rparr>) of
                            (e, s) \<Rightarrow> (e, s\<lparr>ns_qlen := reset_qlens deferred (ns_qlen s)\<rparr>))))))"

definition clearOperations :: "net_env \<Rightarrow> net_step" where
  "clearOperations N s =
     (case ne_links N of
        None \<Rightarrow> (Some Net_links, s)
      | Some links \<Rightarrow>
          (case tc_step (ClearQdisc (ne_exec N) (map l_name links)) s of
             (Some e, s) \<Rightarrow> (Some e, s)
           | (None, s) \<Rightarrow> (None, s\<lparr>ns_operations := []\<rparr>)))"

section \<open>What a successful step has run\<close>

text \<open>
  The words of the commands of the tree. The remaining filters hang below the root discipline; they
  carry a priority and end in the class they select.
\<close>

definition qdisc_words :: "string \<Rightarrow> string \<Rightarrow> string list \<Rightarrow> string \<Rightarrow> string list" where
  "qdisc_words parent handle kind iface =
     [''qdisc'', ''add'', ''dev'', iface] @ (if parent = ''root'' then [''root''] else [''parent'', parent]) @
     [''handle'', handle] @ kind"

definition prio_kind :: "nat \<Rightarrow> nat list \<Rightarrow> string list" where
  "prio_kind bands priomap = [''prio'', ''bands'', Itoa bands, ''priomap''] @ map Itoa priomap"

definition bpf_words :: "string \<Rightarrow> string \<Rightarrow> string \<Rightarrow> string \<Rightarrow> string list" where
  "bpf_words parent flowid sec iface =
     [''filter'', ''add'', ''dev'', iface, ''parent'', parent, ''bpf'', ''obj'', bpf_obj, ''sec'', sec, ''flowid'', flowid]"

definition flower_words :: "string \<Rightarrow> string \<Rightarrow> string \<Rightarrow> string \<Rightarrow> string list" where
  "flower_words parent handle flowid iface =
     [''filter'', ''add'', ''dev'', iface, ''protocol'', ''ip'', ''parent'', parent, ''handle'', handle, ''flower'', ''flowid'', flowid]"

fun op_kind :: "link_op \<Rightarrow> string list" where
  "op_kind (Netem delay delayJitter drp corrupt duplicate) =
     ''netem'' # (let ps = netem_params delay delayJitter drp corrupt duplicate in if ps \<noteq> [] then Split ps else [])"
| "op_kind (Output_limit bytesPerSec) =
     [''tbf'', ''rate'', Itoa bytesPerSec, ''latency'', ''50ms'', ''burst'', Itoa bytesPerSec]"

fun op_tree :: "string \<Rightarrow> nat \<Rightarrow> link_op list \<Rightarrow> (string \<Rightarrow> string list) list" where
  "op_tree parent handle [] = []"
| "op_tree parent handle (op # ops) =
     qdisc_words parent (Itoa handle @ '':'') (op_kind op) # op_tree (Itoa handle @ '':'') (handle + 1) ops"

definition root_filter :: "u32 \<Rightarrow> string \<Rightarrow> string list \<Rightarrow> bool" where
  "root_filter q flowid c \<longleftrightarrow>
     (\<exists>iface protocol cs. c = [''filter'', ''add'', ''dev'', iface, ''protocol'', protocol, ''priority'', Itoa (unat q),
        ''parent'', ''1:0'', ''flower''] @ cs \<and> cs \<noteq> [] \<and> last cs = flowid)"

text \<open>
  The commands a step adds when it succeeds, with the priorities before and after it. A step is started
  outside a dry run and with a priority that is not the last one.
\<close>

definition ready :: "tc \<Rightarrow> bool" where
  "ready t \<longleftrightarrow> \<not> tc_dryRun t \<and> tcFilterPriority t \<noteq> -1"

type_synonym cmd_spec = "u32 \<Rightarrow> u32 \<Rightarrow> string list list \<Rightarrow> bool"

definition adds :: "net_step \<Rightarrow> cmd_spec \<Rightarrow> bool" where
  "adds f P \<longleftrightarrow> (\<forall>s s'. ready (ns_tc s) \<longrightarrow> f s = (None, s') \<longrightarrow> ready (ns_tc s') \<and>
     (\<exists>cs. tc_log (ns_tc s') = tc_log (ns_tc s) @ cs \<and> P (tcFilterPriority (ns_tc s)) (tcFilterPriority (ns_tc s')) cs))"

definition exactly :: "string list list \<Rightarrow> cmd_spec" where
  "exactly xs p p' cs \<longleftrightarrow> cs = xs \<and> p' = p"

definition filters_to :: "string \<Rightarrow> cmd_spec" where
  "filters_to flowid p p' cs \<longleftrightarrow> p \<le> p' \<and> (\<forall>c \<in> set cs. \<exists>q. root_filter q flowid c \<and> p < q \<and> q \<le> p')"

definition andthen :: "cmd_spec \<Rightarrow> cmd_spec \<Rightarrow> cmd_spec" where
  "andthen P Q p p' cs \<longleftrightarrow> (\<exists>m a b. cs = a @ b \<and> P p m a \<and> Q m p' b)"

lemma addsI:
  "(\<And>s s'. ready (ns_tc s) \<Longrightarrow> f s = (None, s') \<Longrightarrow> ready (ns_tc s') \<and>
     (\<exists>cs. tc_log (ns_tc s') = tc_log (ns_tc s) @ cs \<and> P (tcFilterPriority (ns_tc s)) (tcFilterPriority (ns_tc s')) cs)) \<Longrightarrow>
   adds f P"
  by (simp add: adds_def)

lemma addsD:
  assumes "adds f P" and "ready (ns_tc s)" and "f s = (None, s')"
  obtains cs where "ready (ns_tc s')" and "tc_log (ns_tc s') = tc_log (ns_tc s) @ cs"
    and "P (tcFilterPriority (ns_tc s)) (tcFilterPriority (ns_tc s')) cs"
  using assms unfolding adds_def by blast

lemma run_steps_append:
  "run_steps (fs @ gs) s = (case run_steps fs s of (Some e, s) \<Rightarrow> (Some e, s) | (None, s) \<Rightarrow> run_steps gs s)"
  by (induction fs arbitrary: s) (auto split: prod.splits option.splits)

lemma adds_append:
  assumes "adds (run_steps fs) P" and "adds (run_steps gs) Q"
  shows "adds (run_steps (fs @ gs)) (andthen P Q)"
proof (rule addsI)
  fix s s' assume s: "ready (ns_tc s)" and "run_steps (fs @ gs) s = (None, s')"
  then obtain s1 where s1: "run_steps fs s = (None, s1)" "run_steps gs s1 = (None, s')"
    by (auto simp: run_steps_append split: prod.splits option.splits)
  obtain a where a: "ready (ns_tc s1)" "tc_log (ns_tc s1) = tc_log (ns_tc s) @ a"
    "P (tcFilterPriority (ns_tc s)) (tcFilterPriority (ns_tc s1)) a"
    using addsD [OF assms(1) s s1(1)] .
  obtain b where b: "ready (ns_tc s')" "tc_log (ns_tc s') = tc_log (ns_tc s1) @ b"
    "Q (tcFilterPriority (ns_tc s1)) (tcFilterPriority (ns_tc s')) b"
    using addsD [OF assms(2) a(1) s1(2)] .
  with a show "ready (ns_tc s') \<and> (\<exists>cs. tc_log (ns_tc s') = tc_log (ns_tc s) @ cs \<and>
      andthen P Q (tcFilterPriority (ns_tc s)) (tcFilterPriority (ns_tc s')) cs)"
    by (auto simp: andthen_def)
qed

lemma run_steps_single: "run_steps [f] = f"
  by (rule ext) (auto split: prod.splits option.splits)

lemma adds_Nil: "adds (run_steps []) (exactly [])"
  by (simp add: adds_def exactly_def)

lemma adds_Cons: "adds f P \<Longrightarrow> adds (run_steps gs) Q \<Longrightarrow> adds (run_steps (f # gs)) (andthen P Q)"
  using adds_append [of "[f]" P gs Q] by (simp only: run_steps_single append_Cons append_Nil)

lemma adds_weaken: "adds f P \<Longrightarrow> (\<And>p p' cs. P p p' cs \<Longrightarrow> Q p p' cs) \<Longrightarrow> adds f Q"
  unfolding adds_def by meson

lemma andthen_exactly: "andthen (exactly xs) (exactly ys) = exactly (xs @ ys)"
  by (intro ext) (auto simp: andthen_def exactly_def)

lemma adds_exactly_Cons:
  "adds f (exactly xs) \<Longrightarrow> adds (run_steps gs) (exactly ys) \<Longrightarrow> adds (run_steps (f # gs)) (exactly (xs @ ys))"
  using adds_Cons [of f "exactly xs" gs "exactly ys"] by (simp only: andthen_exactly)

lemma adds_exactly_eq: "adds f (exactly xs) \<Longrightarrow> xs = ys \<Longrightarrow> adds f (exactly ys)"
  by simp

lemma filters_to_seq:
  assumes "andthen (filters_to F) (filters_to F) p p' cs"
  shows "filters_to F p p' cs"
proof -
  from assms obtain m a b where "cs = a @ b" "filters_to F p m a" "filters_to F m p' b"
    by (auto simp: andthen_def)
  then show ?thesis unfolding filters_to_def by (fastforce intro: order.trans order.strict_trans1)
qed

lemma filters_to_Nil: "exactly [] p p' cs \<Longrightarrow> filters_to F p p' cs"
  by (simp add: exactly_def filters_to_def)

lemma adds_filters:
  assumes "\<And>f. f \<in> set fs \<Longrightarrow> adds f (filters_to F)"
  shows "adds (run_steps fs) (filters_to F)"
  using assms
proof (induction fs)
  case Nil
  show ?case by (rule adds_weaken [OF adds_Nil filters_to_Nil])
next
  case (Cons f fs)
  then show ?case by (intro adds_weaken [OF adds_Cons filters_to_seq]) auto
qed

section \<open>The commands of the single steps\<close>

lemma run_ifaces_success:
  assumes "run_ifaces X mk ifaces t = (None, t')" and "ready t"
  shows "ready t' \<and> tcFilterPriority t' = tcFilterPriority t \<and> tc_log t' = tc_log t @ map mk ifaces"
proof -
  have "\<not> tc_dryRun t" using assms(2) by (simp add: ready_def)
  from run_ifaces_log [OF this, of ifaces X mk] assms show ?thesis by (auto simp: ready_def)
qed

lemma adds_run_ifaces:
  assumes "\<And>t. f t = run_ifaces X mk ifaces t"
  shows "adds (tc_step f) (exactly (map mk ifaces))"
proof (rule addsI)
  fix s s' assume s: "ready (ns_tc s)" and "tc_step f s = (None, s')"
  then have "run_ifaces X mk ifaces (ns_tc s) = (None, ns_tc s')"
    by (auto simp: tc_step_def assms split: prod.splits)
  from run_ifaces_success [OF this s]
  show "ready (ns_tc s') \<and> (\<exists>cs. tc_log (ns_tc s') = tc_log (ns_tc s) @ cs \<and>
      exactly (map mk ifaces) (tcFilterPriority (ns_tc s)) (tcFilterPriority (ns_tc s')) cs)"
    by (simp add: exactly_def)
qed

lemma adds_words:
  assumes "\<And>t. f t = run_ifaces X mk ifaces t" and "\<And>i. i \<in> set ifaces \<Longrightarrow> mk i = words i"
  shows "adds (tc_step f) (exactly (map words ifaces))"
proof -
  have "map mk ifaces = map words ifaces" using assms(2) by simp
  then show ?thesis using adds_run_ifaces [OF assms(1)] by (simp only:)
qed

lemma Split_numbers:
  "ns \<noteq> [] \<Longrightarrow> Split (TrimPrefixBlank (concat (map (\<lambda>b. '' '' @ Itoa b) ns))) = map Itoa ns"
proof (induction ns)
  case (Cons n ns)
  show ?case
  proof (cases ns)
    case Nil
    then show ?thesis by (simp add: TrimPrefixBlank_def Split_word)
  next
    case (Cons m ms)
    with Cons.IH show ?thesis by (simp add: TrimPrefixBlank_def Split_word_blank)
  qed
qed simp

lemma Split_prio_params: "ns \<noteq> [] \<Longrightarrow> Split (prio_params b ns) = [''bands'', Itoa b, ''priomap''] @ map Itoa ns"
  using Split_numbers [of ns] by (simp add: prio_params_def Split_word_blank)

lemma adds_AddPrio:
  assumes "\<forall>i \<in> set ifaces. blank_free i" and "blank_free parent" and "blank_free handle" and "handle \<noteq> []" and "ns \<noteq> []"
  shows "adds (tc_step (AddPrio X ifaces parent handle b ns)) (exactly (map (qdisc_words parent handle (prio_kind b ns)) ifaces))"
proof (rule adds_words)
  have ne: "prio_params b ns \<noteq> []" by (simp add: prio_params_def)
  show "buildCmd ''qdisc'' i parent '''' 0 handle ''prio'' (prio_params b ns) = qdisc_words parent handle (prio_kind b ns) i"
    if "i \<in> set ifaces" for i
    using assms that ne by (simp add: buildCmd_tokens qdisc_words_def prio_kind_def Split_prio_params)
qed (rule AddPrio_def)

lemma adds_perform:
  assumes "\<forall>i \<in> set ifaces. blank_free i" and "blank_free parent" and "blank_free handle" and "handle \<noteq> []"
  shows "adds (tc_step (perform X ifaces parent handle op)) (exactly (map (qdisc_words parent handle (op_kind op)) ifaces))"
proof (cases op)
  case (Netem delay jitter drp corrupt dup)
  have "buildCmd ''qdisc'' i parent '''' 0 handle ''netem'' (netem_params delay jitter drp corrupt dup) =
      qdisc_words parent handle (op_kind op) i" if "i \<in> set ifaces" for i
    using assms that by (simp add: buildCmd_tokens qdisc_words_def Netem Let_def)
  moreover have "perform X ifaces parent handle op t = run_ifaces X (\<lambda>i. buildCmd ''qdisc'' i parent '''' 0 handle ''netem''
      (netem_params delay jitter drp corrupt dup)) ifaces t" for t
    by (simp add: Netem AddNetem_def)
  ultimately show ?thesis by (rule adds_words [rotated])
next
  case (Output_limit rate)
  have "buildCmd ''qdisc'' i parent '''' 0 handle ''tbf'' (''rate '' @ Itoa rate @ '' latency 50ms burst '' @ Itoa rate) =
      qdisc_words parent handle (op_kind op) i" if "i \<in> set ifaces" for i
    using assms that by (simp add: buildCmd_tokens qdisc_words_def Output_limit Split_word Split_word_blank)
  moreover have "perform X ifaces parent handle op t = run_ifaces X (\<lambda>i. buildCmd ''qdisc'' i parent '''' 0 handle ''tbf''
      (''rate '' @ Itoa rate @ '' latency 50ms burst '' @ Itoa rate)) ifaces t" for t
    by (simp add: Output_limit AddOutputLimit_def)
  ultimately show ?thesis by (rule adds_words [rotated])
qed

lemma adds_op_steps:
  assumes "\<forall>i \<in> set ifaces. blank_free i" and "blank_free parent"
  shows "adds (run_steps (op_steps X ifaces parent handle ops)) (exactly (concat (map (\<lambda>c. map c ifaces) (op_tree parent handle ops))))"
  using assms(2)
proof (induction ops arbitrary: parent handle)
  case Nil
  show ?case using adds_Nil by (simp del: run_steps.simps)
next
  case (Cons op ops)
  have h: "blank_free (Itoa handle @ '':'')" "Itoa handle @ '':'' \<noteq> []" by simp_all
  from adds_Cons [OF adds_perform [OF assms(1) Cons.prems h] Cons.IH [OF h(1)]]
  show ?case by (simp add: andthen_exactly del: run_steps.simps)
qed

lemma adds_AddBPFFilter:
  assumes "\<forall>i \<in> set ifaces. blank_free i" and "blank_free parent" and "blank_free flowid" and "blank_free sec"
    and "sec \<noteq> []" and "parent \<noteq> ''root''"
  shows "adds (tc_step (AddBPFFilter X ifaces parent bpf_obj flowid sec)) (exactly (map (bpf_words parent flowid sec) ifaces))"
proof (rule adds_words)
  show "(if sec = '''' then buildCmd ''filter'' i parent '''' 0 '''' ''bpf'' (''obj '' @ bpf_obj @ '' flowid '' @ flowid)
       else buildCmd ''filter'' i parent '''' 0 '''' ''bpf'' (''obj '' @ bpf_obj @ '' sec '' @ sec @ '' flowid '' @ flowid)) =
      bpf_words parent flowid sec i" if "i \<in> set ifaces" for i
    using assms that by (simp add: buildCmd_tokens bpf_words_def Split_word Split_word_blank bpf_obj_def)
qed (rule AddBPFFilter_def)

lemma adds_AddFlowerFilter:
  assumes "\<forall>i \<in> set ifaces. blank_free i" and "blank_free parent" and "blank_free handle" and "handle \<noteq> []"
    and "blank_free flowid" and "parent \<noteq> ''root''"
  shows "adds (tc_step (AddFlowerFilter X ifaces parent handle flowid)) (exactly (map (flower_words parent handle flowid) ifaces))"
proof (rule adds_words)
  show "buildCmd ''filter'' i parent ''ip'' 0 handle ''flower'' (''flowid '' @ flowid) = flower_words parent handle flowid i"
    if "i \<in> set ifaces" for i
    using assms that by (simp add: buildCmd_tokens flower_words_def Split_word Split_word_blank)
qed (rule AddFlowerFilter_def)

section \<open>Filters below the root discipline\<close>

lemma Split_nonempty: "Split s \<noteq> []"
  by (induction s) (auto split: list.splits)

lemma Split_blank: "\<exists>v vs. Split (u @ CHR '' '' # w) = v # vs \<and> vs \<noteq> []"
  by (induction u) (auto simp: Split_nonempty)

lemma last_Split_word: "blank_free w \<Longrightarrow> last (Split (s @ CHR '' '' # w)) = w"
proof (induction s)
  case (Cons c s)
  obtain v vs where "Split (s @ CHR '' '' # w) = v # vs" "vs \<noteq> []" using Split_blank [of s w] by blast
  with Cons show ?case by simp
qed (simp add: Split_word)

lemma last_filter_params:
  assumes "blank_free flowid"
  shows "last (Split (filter_params srcIP dstIP srcPort dstPort protocol connState flowid)) = flowid"
proof -
  obtain s where "filter_params srcIP dstIP srcPort dstPort protocol connState flowid = s @ CHR '' '' # flowid"
    by (rule that [of "butlast (filter_params srcIP dstIP srcPort dstPort protocol connState [])"])
      (simp add: filter_params_def butlast_append)
  then show ?thesis using last_Split_word [OF assms] by simp
qed

lemma unat_plus_one: "w + 1 \<noteq> 0 \<Longrightarrow> unat (w + 1) = unat w + 1" for w :: u32
proof -
  assume "w + 1 \<noteq> 0"
  then have "unat (w + 1) \<noteq> 0" by (simp only: unsigned_eq_0_iff simp_thms)
  moreover have "unat (w + 1) = (unat w + 1) mod 2 ^ 32" by (simp add: unat_word_ariths)
  ultimately show ?thesis using unsigned_less [of w, where 'a = nat] by (simp add: mod_Suc split: if_splits)
qed

lemma word_less_plus_one: "q \<noteq> 0 \<Longrightarrow> q = w + 1 \<Longrightarrow> w < q" for w :: u32
  using unat_plus_one [of w] by (simp add: word_less_nat_alt)

lemma AddFilter_success:
  assumes "ready t" and "\<forall>i \<in> set ifaces. blank_free i" and "blank_free flowid"
    and "AddFilter X ifaces ''1:0'' '''' srcIP dstIP srcPort dstPort protocol connState flowid t = (Inr q, t')"
  shows "ready t' \<and> tcFilterPriority t < q \<and> tcFilterPriority t' = q \<and>
    (\<exists>cs. tc_log t' = tc_log t @ cs \<and> (\<forall>c \<in> set cs. root_filter q flowid c))"
proof -
  let ?ps = "filter_params srcIP dstIP srcPort dstPort protocol connState flowid"
  let ?proto = "if protocol = ARP then ''arp'' else ''ip''"
  let ?mk = "\<lambda>i. buildCmd ''filter'' i ''1:0'' ?proto q '''' ''flower'' ?ps"
  obtain t1 where t1: "getNewPriority t = (Inr q, t1)" "run_ifaces X ?mk ifaces t1 = (None, t')"
    using assms(4) by (auto simp: AddFilter_def split: if_splits prod.splits sum.splits option.splits)
  have ne: "tcFilterPriority t \<noteq> -1" using assms(1) by (simp add: ready_def)
  have q: "q \<noteq> 0" "q = tcFilterPriority t + 1" using getNewPriority_nonzero [OF ne t1(1)] by blast+
  have st: "tcFilterPriority t1 = q" "tc_log t1 = tc_log t" "tc_dryRun t1 = tc_dryRun t"
    using getNewPriority_state [of t] t1(1) q(2) by simp_all
  have small: "q < 3048" using t1(1) q(2)
    by (auto simp: getNewPriority_def Let_def MaximumTCFilters_def tcPriority_def not_le split: if_splits)
  have "q \<noteq> -1" using small by auto
  then have "ready t1" using assms(1) st by (simp add: ready_def)
  from run_ifaces_success [OF t1(2) this]
  have t': "ready t'" "tcFilterPriority t' = q" "tc_log t' = tc_log t @ map ?mk ifaces" using st by simp_all
  have "root_filter q flowid (?mk i)" if "i \<in> set ifaces" for i
  proof -
    have "?ps \<noteq> []" by (simp add: filter_params_def)
    then have "?mk i = [''filter'', ''add'', ''dev'', i, ''protocol'', ?proto, ''priority'', Itoa (unat q), ''parent'', ''1:0'',
        ''flower''] @ Split ?ps"
      using assms(2) that q(1) by (subst buildCmd_tokens) simp_all
    then show ?thesis using last_filter_params [OF assms(3)] Split_nonempty unfolding root_filter_def by blast
  qed
  moreover have "tcFilterPriority t < q" using word_less_plus_one q by blast
  ultimately show ?thesis using t' by auto
qed

lemma adds_AddFilter:
  assumes "\<forall>i \<in> set ifaces. blank_free i" and "blank_free flowid"
  shows "adds (filter_step (AddFilter X ifaces ''1:0'' '''' srcIP dstIP srcPort dstPort protocol connState flowid)) (filters_to flowid)"
proof (rule addsI)
  fix s s' assume s: "ready (ns_tc s)"
    and "filter_step (AddFilter X ifaces ''1:0'' '''' srcIP dstIP srcPort dstPort protocol connState flowid) s = (None, s')"
  then obtain q where "AddFilter X ifaces ''1:0'' '''' srcIP dstIP srcPort dstPort protocol connState flowid (ns_tc s) = (Inr q, ns_tc s')"
    by (auto simp: filter_step_def split: prod.splits sum.splits)
  from AddFilter_success [OF s assms this]
  show "ready (ns_tc s') \<and> (\<exists>cs. tc_log (ns_tc s') = tc_log (ns_tc s) @ cs \<and>
      filters_to flowid (tcFilterPriority (ns_tc s)) (tcFilterPriority (ns_tc s')) cs)"
    unfolding filters_to_def by (auto intro: less_imp_le)
qed

text \<open>The filters for hosts, which work on the controller alone.\<close>

lemma filters_to_append: "filters_to F p m a \<Longrightarrow> filters_to F m p' b \<Longrightarrow> filters_to F p p' (a @ b)"
  by (rule filters_to_seq) (auto simp: andthen_def)

lemma add_host_filters_success:
  assumes "\<forall>i \<in> set ifaces. blank_free i" and "blank_free flowid" and "ready t"
    and "add_host_filters X ifaces h flowid ips t = (Inr fs, t')"
  shows "ready t' \<and> (\<exists>cs. tc_log t' = tc_log t @ cs \<and> filters_to flowid (tcFilterPriority t) (tcFilterPriority t') cs)"
  using assms(3,4)
proof (induction ips arbitrary: t fs)
  case Nil
  then show ?case by (simp add: filters_to_def)
next
  case (Cons x ips)
  obtain ip protocol where x: "x = (ip, protocol)" by fastforce
  from Cons.prems(2) obtain q t1 fs1 where
    f: "AddFilter X ifaces ''1:0'' '''' (if h_flow h = FlowIngress then Some ip else None)
        (if h_flow h = FlowIngress then None else Some ip) (if h_flow h = FlowIngress then h_port h else 0)
        (if h_flow h = FlowIngress then 0 else h_port h) protocol (NewConnState (h_conn h)) flowid t = (Inr q, t1)"
    and r: "add_host_filters X ifaces h flowid ips t1 = (Inr fs1, t')"
    unfolding x by (auto split: prod.splits sum.splits)
  obtain a where a: "ready t1" "tc_log t1 = tc_log t @ a" "filters_to flowid (tcFilterPriority t) (tcFilterPriority t1) a"
    using AddFilter_success [OF Cons.prems(1) assms(1,2) f] unfolding filters_to_def by (auto intro: less_imp_le)
  obtain b where "ready t'" "tc_log t' = tc_log t1 @ b" "filters_to flowid (tcFilterPriority t1) (tcFilterPriority t') b"
    using Cons.IH [OF a(1) r] by auto
  with a show ?case by (auto intro!: filters_to_append)
qed

lemma add_hosts_success:
  assumes "\<forall>i \<in> set ifaces. blank_free i" and "blank_free flowid" and "ready t"
    and "add_hosts N ifaces flowid hs m t = (Inr m', t')"
  shows "ready t' \<and> (\<exists>cs. tc_log t' = tc_log t @ cs \<and> filters_to flowid (tcFilterPriority t) (tcFilterPriority t') cs)"
  using assms(3,4)
proof (induction hs arbitrary: t m)
  case Nil
  then show ?case by (simp add: filters_to_def)
next
  case (Cons h hs)
  show ?case
  proof (cases "ne_interrupted N h")
    case True
    with Cons.prems show ?thesis by (simp add: filters_to_def)
  next
    case False
    with Cons.prems(2) obtain ips fs t1 where
      f: "add_host_filters (ne_exec N) ifaces h flowid ips t = (Inr fs, t1)"
      and r: "add_hosts N ifaces flowid hs (AList.update h fs m) t1 = (Inr m', t')"
      by (auto simp: Let_def split: prod.splits sum.splits option.splits)
    obtain a where a: "ready t1" "tc_log t1 = tc_log t @ a" "filters_to flowid (tcFilterPriority t) (tcFilterPriority t1) a"
      using add_host_filters_success [OF assms(1,2) Cons.prems(1) f] by auto
    obtain b where "ready t'" "tc_log t' = tc_log t1 @ b" "filters_to flowid (tcFilterPriority t1) (tcFilterPriority t') b"
      using Cons.IH [OF a(1) r] by auto
    with a show ?thesis by (auto intro!: filters_to_append)
  qed
qed

section \<open>The tree as a whole\<close>

lemma adds_hosts_steps:
  assumes "\<forall>i \<in> set ifaces. blank_free i"
  shows "adds (allowed_hosts_step N spec ifaces) (filters_to ''1:1'')"
    and "adds (handleFiltersForHosts N spec ifaces ''1:4'') (filters_to ''1:4'')"
proof -
  have F: "blank_free ''1:1''" "blank_free ''1:4''" by simp_all
  show "adds (allowed_hosts_step N spec ifaces) (filters_to ''1:1'')"
    by (rule addsI) (auto simp: allowed_hosts_step_def addFiltersForHosts_def split: prod.splits sum.splits
      dest!: add_hosts_success [OF assms F(1), rotated])
  show "adds (handleFiltersForHosts N spec ifaces ''1:4'') (filters_to ''1:4'')"
    by (rule addsI) (auto simp: handleFiltersForHosts_def addFiltersForHosts_def split: prod.splits sum.splits
      dest!: add_hosts_success [OF assms F(2), rotated])
qed

lemma adds_handleFiltersForServices: "adds (handleFiltersForServices N spec) (filters_to F)"
  by (rule addsI) (auto simp: handleFiltersForServices_def filters_to_def split: option.splits if_splits)

lemma adds_safeguards:
  assumes "\<forall>i \<in> set ifaces. blank_free i" and "\<forall>(link, g) \<in> set defaultRoutes. blank_free link"
  shows "adds (run_steps (safeguard_steps N ifaces defaultRoutes nodeIP)) (filters_to ''1:1'')"
proof (rule adds_filters)
  fix f assume f: "f \<in> set (safeguard_steps N ifaces defaultRoutes nodeIP)"
  have "adds (allow_step N is dst port protocol) (filters_to ''1:1'')" if "\<forall>i \<in> set is. blank_free i" for "is" dst port protocol
    unfolding allow_step_def by (rule adds_AddFilter [OF that]) simp
  then show "adds f (filters_to ''1:1'')"
    using f assms by (auto simp: safeguard_steps_def split: net_level.splits)
qed

lemma adds_targets:
  assumes "\<forall>i \<in> set ifaces. blank_free i"
  shows "adds (run_steps (target_steps N spec ifaces)) (filters_to ''1:4'')"
proof (rule adds_filters)
  fix f assume "f \<in> set (target_steps N spec ifaces)"
  then show "adds f (filters_to ''1:4'')"
    using adds_hosts_steps(2) [OF assms] adds_handleFiltersForServices adds_AddFilter [OF assms, of "''1:4''"]
    by (auto simp: target_steps_def split: if_splits)
qed

text \<open>The map loader adds no command of \<open>tc\<close>.\<close>

lemma adds_ConfigBPFFilter: "adds (ConfigBPFFilter N args) (exactly [])"
  by (rule addsI) (auto simp: ConfigBPFFilter_def exactly_def split: if_splits)

text \<open>The commands of the tree, one function of the interface for each.\<close>

definition prio2 :: "string \<Rightarrow> string \<Rightarrow> string \<Rightarrow> string list" where
  "prio2 parent handle = qdisc_words parent handle (prio_kind 2 (replicate 16 0))"

definition http_tree :: "link_op list \<Rightarrow> (string \<Rightarrow> string list) list" where
  "http_tree ops =
     [prio2 ''1:4'' ''2:'', prio2 ''2:2'' ''3:'', prio2 ''3:2'' ''4:'',
      bpf_words ''2:0'' ''2:2'' ''classifier_methods'', bpf_words ''3:0'' ''3:2'' ''classifier_paths'',
      flower_words ''4:0'' InjectorCgroupClassID ''4:2''] @ op_tree ''4:2'' 5 ops"

definition mark_tree :: "link_op list \<Rightarrow> (string \<Rightarrow> string list) list" where
  "mark_tree ops =
     [prio2 ''1:4'' ''2:'', flower_words ''2:0'' InjectorCgroupClassID ''2:2''] @ op_tree ''2:2'' 3 ops"

definition tree_of :: "net_env \<Rightarrow> net_spec \<Rightarrow> link_op list \<Rightarrow> (string \<Rightarrow> string list) list" where
  "tree_of N spec ops =
     qdisc_words ''root'' ''1:'' (prio_kind 4 root_priomap) #
     (if ne_level N = Level_pod \<and> \<not> ne_on_init N
      then if HasHTTPFilters (spec_http spec) then http_tree ops else mark_tree ops
      else op_tree ''1:4'' 2 ops)"

definition on_ifaces :: "(string \<Rightarrow> string list) list \<Rightarrow> string list \<Rightarrow> string list list" where
  "on_ifaces cmds ifaces = concat (map (\<lambda>c. map c ifaces) cmds)"

lemma adds_tree:
  assumes "\<forall>i \<in> set ifaces. blank_free i"
  shows "adds (run_steps (tree_steps N spec ifaces ops)) (exactly (on_ifaces (tl (tree_of N spec ops)) ifaces))"
proof -
  note ops = adds_op_steps [OF assms, where X = "ne_exec N" and ops = ops]
  note prio = adds_AddPrio [OF assms, where X = "ne_exec N" and ns = "replicate 16 0" and b = 2, folded prio2_def]
  note intros = adds_exactly_Cons prio adds_AddBPFFilter [OF assms] adds_AddFlowerFilter [OF assms] adds_ConfigBPFFilter ops
  have mark: "blank_free InjectorCgroupClassID" "InjectorCgroupClassID \<noteq> []" by (simp_all add: InjectorCgroupClassID_def)
  have "adds (run_steps (http_steps N ifaces http @ op_steps (ne_exec N) ifaces ''4:2'' 5 ops)) (exactly (on_ifaces (http_tree ops) ifaces))" for http
    unfolding http_steps_def append_Cons append_Nil
    by (rule adds_exactly_eq, (rule intros | (simp add: http_tree_def on_ifaces_def mark; fail))+)
  moreover have "adds (run_steps (mark_steps N ifaces @ op_steps (ne_exec N) ifaces ''2:2'' 3 ops)) (exactly (on_ifaces (mark_tree ops) ifaces))"
    unfolding mark_steps_def append_Cons append_Nil
    by (rule adds_exactly_eq, (rule intros | (simp add: mark_tree_def on_ifaces_def mark; fail))+)
  moreover have "HasHTTPFilters None = False" by (simp add: HasHTTPFilters_def)
  ultimately show ?thesis
    using ops [of "''1:4''" 2] by (cases "spec_http spec") (simp_all add: tree_steps_def tree_of_def on_ifaces_def del: run_steps.simps)
qed

lemma adds_all_steps:
  assumes "\<forall>i \<in> set ifaces. blank_free i" and "\<forall>(link, g) \<in> set defaultRoutes. blank_free link"
  shows "adds (run_steps (all_steps N spec ifaces defaultRoutes nodeIP ops))
    (andthen (exactly (on_ifaces (tree_of N spec ops) ifaces)) (andthen (filters_to ''1:1'') (filters_to ''1:4'')))"
proof -
  have root: "adds (tc_step (AddPrio (ne_exec N) ifaces ''root'' ''1:'' 4 root_priomap))
      (exactly (map (qdisc_words ''root'' ''1:'' (prio_kind 4 root_priomap)) ifaces))"
    by (rule adds_AddPrio [OF assms(1)]) (simp_all add: root_priomap_def)
  have tree: "adds (run_steps (tc_step (AddPrio (ne_exec N) ifaces ''root'' ''1:'' 4 root_priomap) # tree_steps N spec ifaces ops))
      (exactly (on_ifaces (tree_of N spec ops) ifaces))"
    using adds_Cons [OF root adds_tree [OF assms(1)], of N spec ops] by (simp add: andthen_exactly on_ifaces_def tree_of_def del: run_steps.simps)
  have allow: "adds (run_steps (safeguard_steps N ifaces defaultRoutes nodeIP @ [allowed_hosts_step N spec ifaces])) (filters_to ''1:1'')"
    by (rule adds_weaken [OF adds_append [OF adds_safeguards [OF assms] _] filters_to_seq])
      (simp only: run_steps_single, rule adds_hosts_steps(1) [OF assms(1)])
  have "all_steps N spec ifaces defaultRoutes nodeIP ops =
      (tc_step (AddPrio (ne_exec N) ifaces ''root'' ''1:'' 4 root_priomap) # tree_steps N spec ifaces ops) @
      (safeguard_steps N ifaces defaultRoutes nodeIP @ [allowed_hosts_step N spec ifaces]) @ target_steps N spec ifaces"
    by (simp add: all_steps_def)
  then show ?thesis by (simp only: adds_append [OF tree adds_append [OF allow adds_targets [OF assms(1)]]])
qed

text \<open>A successful run of the whole, without the queue lengths.\<close>

lemma applyOperations_runs:
  assumes "applyOperations N spec s = (None, s')"
  obtains links defaultRoutes nodeIP q s1 where "ne_links N = Some links" and "ne_routes N = Some defaultRoutes"
    and "ne_node_ip N = Some nodeIP"
    and "run_steps (all_steps N spec (map l_name links) defaultRoutes nodeIP (ns_operations s)) (s\<lparr>ns_qlen := q\<rparr>) = (None, s1)"
    and "ns_tc s' = ns_tc s1" and "ns_config s' = ns_config s1"
  using assms by (auto simp: applyOperations_def split: option.splits prod.splits)

lemma applyOperations_log:
  assumes "applyOperations N spec s = (None, s')" and "ready (ns_tc s)"
    and "ne_links N = Some links" and "\<forall>l \<in> set links. blank_free (l_name l)"
    and "ne_routes N = Some defaultRoutes" and "\<forall>(link, gateway) \<in> set defaultRoutes. blank_free link"
  shows "\<exists>spared disrupted limit.
    tc_log (ns_tc s') = tc_log (ns_tc s) @ on_ifaces (tree_of N spec (ns_operations s)) (map l_name links) @ spared @ disrupted \<and>
    (\<forall>c \<in> set spared. \<exists>q \<le> limit. root_filter q ''1:1'' c) \<and> (\<forall>c \<in> set disrupted. \<exists>q > limit. root_filter q ''1:4'' c)"
proof -
  obtain nodeIP q s1 where
    run: "run_steps (all_steps N spec (map l_name links) defaultRoutes nodeIP (ns_operations s)) (s\<lparr>ns_qlen := q\<rparr>) = (None, s1)"
    and s1: "ns_tc s' = ns_tc s1"
    using applyOperations_runs [OF assms(1)] assms(3,5) by (metis option.inject)
  have names: "\<forall>i \<in> set (map l_name links). blank_free i" using assms(4) by simp
  have rdy: "ready (ns_tc (s\<lparr>ns_qlen := q\<rparr>))" using assms(2) by simp
  obtain cs where "tc_log (ns_tc s1) = tc_log (ns_tc s) @ cs"
    and "andthen (exactly (on_ifaces (tree_of N spec (ns_operations s)) (map l_name links)))
      (andthen (filters_to ''1:1'') (filters_to ''1:4'')) (tcFilterPriority (ns_tc s)) (tcFilterPriority (ns_tc s1)) cs"
    by (rule addsD [OF adds_all_steps [OF names assms(6)] rdy run]) simp
  then obtain limit spared disrupted where
    "tc_log (ns_tc s1) = tc_log (ns_tc s) @ on_ifaces (tree_of N spec (ns_operations s)) (map l_name links) @ spared @ disrupted"
    "filters_to ''1:1'' (tcFilterPriority (ns_tc s)) limit spared" "filters_to ''1:4'' limit (tcFilterPriority (ns_tc s1)) disrupted"
    unfolding andthen_def exactly_def by blast
  with s1 show ?thesis unfolding filters_to_def
    by (intro exI [of _ spared] exI [of _ disrupted] exI [of _ limit]) auto
qed

text \<open>
  C11: The tree the injector builds. When \<open>applyOperations\<close> succeeds it has run, on every interface, exactly the
  commands of the tree for the kind of disruption, then the filters for the traffic to spare and then
  the filters for the traffic to disrupt; every filter to spare traffic has a smaller priority than every
  filter to disrupt it, so \<open>tc\<close> consults it first.
\<close>

theorem applyOperations_tree:
  assumes "applyOperations N spec s = (None, s')" and "ready (ns_tc s)"
    and "ne_links N = Some links" and "\<forall>l \<in> set links. blank_free (l_name l)"
    and "ne_routes N = Some defaultRoutes" and "\<forall>(link, gateway) \<in> set defaultRoutes. blank_free link"
  shows "\<exists>spared disrupted limit.
    tc_log (ns_tc s') = tc_log (ns_tc s) @ on_ifaces (tree_of N spec (ns_operations s)) (map l_name links) @ spared @ disrupted \<and>
    (\<forall>c \<in> set spared. \<exists>q \<le> limit. root_filter q ''1:1'' c) \<and> (\<forall>c \<in> set disrupted. \<exists>q > limit. root_filter q ''1:4'' c)"
  using assms by (rule applyOperations_log)

section \<open>When the injection succeeds\<close>

definition succeeds :: "net_step \<Rightarrow> nat \<Rightarrow> bool" where
  "succeeds f n \<longleftrightarrow> (\<forall>s. unat (tcFilterPriority (ns_tc s)) + n < 3048 \<longrightarrow>
     (\<exists>s'. f s = (None, s') \<and> unat (tcFilterPriority (ns_tc s')) \<le> unat (tcFilterPriority (ns_tc s)) + n))"

lemma succeeds_append:
  assumes "succeeds (run_steps fs) m" and "succeeds (run_steps gs) n"
  shows "succeeds (run_steps (fs @ gs)) (m + n)"
  unfolding succeeds_def
proof (intro allI impI)
  fix s :: net_state assume s: "unat (tcFilterPriority (ns_tc s)) + (m + n) < 3048"
  then have "unat (tcFilterPriority (ns_tc s)) + m < 3048" by simp
  then obtain s1 where s1: "run_steps fs s = (None, s1)" "unat (tcFilterPriority (ns_tc s1)) \<le> unat (tcFilterPriority (ns_tc s)) + m"
    using assms(1) unfolding succeeds_def by blast
  with s have "unat (tcFilterPriority (ns_tc s1)) + n < 3048" by simp
  then obtain s2 where "run_steps gs s1 = (None, s2)" "unat (tcFilterPriority (ns_tc s2)) \<le> unat (tcFilterPriority (ns_tc s1)) + n"
    using assms(2) unfolding succeeds_def by blast
  with s1 show "\<exists>s'. run_steps (fs @ gs) s = (None, s') \<and>
      unat (tcFilterPriority (ns_tc s')) \<le> unat (tcFilterPriority (ns_tc s)) + (m + n)"
    by (auto simp: run_steps_append)
qed

lemma succeeds_all:
  assumes "\<And>f. f \<in> set fs \<Longrightarrow> succeeds f n"
  shows "succeeds (run_steps fs) (length fs * n)"
  using assms
proof (induction fs)
  case (Cons f fs)
  then have "succeeds (run_steps ([f] @ fs)) (n + length fs * n)"
    by (intro succeeds_append) (simp_all only: run_steps_single list.set_intros)
  then show ?case by (simp del: run_steps.simps)
qed (simp add: succeeds_def)

lemma run_ifaces_ok:
  assumes "never_fails X"
  obtains lg where "run_ifaces X mk ifaces t = (None, t\<lparr>tc_log := lg\<rparr>)"
proof (cases "tc_dryRun t")
  case True
  show ?thesis by (rule that [of "tc_log t"]) (simp add: run_ifaces_dry True)
qed (use run_ifaces_all [OF assms] that in blast)

lemma succeeds_tc_step:
  assumes "never_fails X" and "\<And>t. f t = run_ifaces X mk ifaces t"
  shows "succeeds (tc_step f) 0"
  unfolding succeeds_def
proof (intro allI impI)
  fix s :: net_state
  obtain lg where "run_ifaces X mk ifaces (ns_tc s) = (None, (ns_tc s)\<lparr>tc_log := lg\<rparr>)" using run_ifaces_ok [OF assms(1)] .
  then show "\<exists>s'. tc_step f s = (None, s') \<and> unat (tcFilterPriority (ns_tc s')) \<le> unat (tcFilterPriority (ns_tc s)) + 0"
    by (simp add: tc_step_def assms(2))
qed

lemma succeeds_AddFilter:
  assumes "never_fails X" and "protocol \<in> {TCP, UDP, ARP}"
  shows "succeeds (filter_step (AddFilter X ifaces ''1:0'' '''' srcIP dstIP srcPort dstPort protocol connState flowid)) 1"
  unfolding succeeds_def
proof (intro allI impI)
  fix s :: net_state assume s: "unat (tcFilterPriority (ns_tc s)) + 1 < 3048"
  let ?q = "tcFilterPriority (ns_tc s) + 1" and ?t = "(ns_tc s)\<lparr>tcFilterPriority := tcFilterPriority (ns_tc s) + 1\<rparr>"
  have u: "unat ?q = unat (tcFilterPriority (ns_tc s)) + 1" using s by (simp add: unat_word_ariths)
  then have "getNewPriority (ns_tc s) = (Inr ?q, ?t)"
    using s by (simp add: getNewPriority_def Let_def MaximumTCFilters_def tcPriority_def word_le_nat_alt)
  moreover have "protocol \<noteq> ''''" using assms(2) by (auto simp: TCP_def UDP_def ARP_def)
  moreover obtain lg where "run_ifaces X (\<lambda>iface. buildCmd ''filter'' iface ''1:0'' (if protocol = ARP then ''arp'' else ''ip'')
      ?q '''' ''flower'' (filter_params srcIP dstIP srcPort dstPort protocol connState flowid)) ifaces ?t = (None, ?t\<lparr>tc_log := lg\<rparr>)"
    using run_ifaces_ok [OF assms(1)] .
  ultimately show "\<exists>s'. filter_step (AddFilter X ifaces ''1:0'' '''' srcIP dstIP srcPort dstPort protocol connState flowid) s =
      (None, s') \<and> unat (tcFilterPriority (ns_tc s')) \<le> unat (tcFilterPriority (ns_tc s)) + 1"
    using assms(2) u by (simp add: filter_step_def AddFilter_def)
qed

lemma succeeds_weaken: "succeeds f m \<Longrightarrow> m \<le> n \<Longrightarrow> succeeds f n"
  unfolding succeeds_def by (meson add_le_mono le_less_trans order.refl order.trans)

lemma succeeds_filters: "\<forall>f \<in> set fs. succeeds f 1 \<Longrightarrow> length fs \<le> n \<Longrightarrow> succeeds (run_steps fs) n"
  using succeeds_weaken [OF succeeds_all, of fs 1 n] by simp

lemma succeeds_op_steps: "never_fails X \<Longrightarrow> f \<in> set (op_steps X ifaces parent handle ops) \<Longrightarrow> succeeds f 0"
proof (induction ops arbitrary: parent handle)
  case (Cons op ops)
  have "succeeds (tc_step (perform X ifaces parent (Itoa handle @ '':'') op)) 0"
    by (cases op) (auto intro!: succeeds_tc_step [OF Cons.prems(1)] simp: AddNetem_def AddOutputLimit_def)
  then show ?case using Cons by auto
qed simp

lemma succeeds_tree_steps:
  assumes "never_fails (ne_exec N)" and "\<And>http. spec_http spec = Some http \<Longrightarrow> \<not> ne_config N (configBPFFilterArgs http)"
  shows "succeeds (run_steps (tree_steps N spec ifaces ops)) 0"
proof -
  note step = succeeds_tc_step [OF assms(1)]
  have tc: "succeeds (tc_step (AddPrio (ne_exec N) ifaces p h b ns)) 0" "succeeds (tc_step (AddBPFFilter (ne_exec N) ifaces p ob fl sec)) 0"
    "succeeds (tc_step (AddFlowerFilter (ne_exec N) ifaces p h fl)) 0" for p h b ns ob fl sec
    by (rule step [OF AddPrio_def] step [OF AddBPFFilter_def] step [OF AddFlowerFilter_def])+
  have cfg: "succeeds (ConfigBPFFilter N (configBPFFilterArgs http)) 0" if "spec_http spec = Some http" for http
    using assms(2) [OF that] by (simp add: succeeds_def ConfigBPFFilter_def)
  have "succeeds f 0" if "f \<in> set (tree_steps N spec ifaces ops)" for f
    using that tc cfg succeeds_op_steps [OF assms(1)]
    by (auto simp: tree_steps_def http_steps_def mark_steps_def split: if_splits option.splits)
  from succeeds_all [OF this] show ?thesis by (simp del: run_steps.simps)
qed

lemma set_qlens_ok:
  "\<forall>l \<in> set links. l_set_ok l 1000 \<Longrightarrow> fst (set_qlens links q) = None"
  by (induction links arbitrary: q) (auto split: prod.splits, metis fst_conv)

text \<open>
  The injection of a disruption on all traffic succeeds when every command of \<open>tc\<close> and the map loader do,
  the queue lengths can be set and there are priorities left for its filters.
\<close>

lemma applyOperations_ok:
  assumes "never_fails (ne_exec N)" and "ne_links N = Some links" and "ne_routes N = Some defaultRoutes"
    and "ne_node_ip N = Some nodeIP" and "\<forall>l \<in> set links. l_set_ok l 1000"
    and "spec_hosts spec = []" and "spec_allowed spec = []" and "spec_services spec = []"
    and "\<And>http. spec_http spec = Some http \<Longrightarrow> \<not> ne_config N (configBPFFilterArgs http)"
    and "unat (tcFilterPriority (ns_tc s)) + length defaultRoutes + 5 < 3048"
  shows "fst (applyOperations N spec s) = None"
proof -
  let ?ifaces = "map l_name links"
  have protos: "TCP \<in> {TCP, UDP, ARP}" "ARP \<in> {TCP, UDP, ARP}" by simp_all
  have guards: "succeeds (run_steps (safeguard_steps N ?ifaces defaultRoutes nodeIP)) (length defaultRoutes + 3)"
    using succeeds_AddFilter [OF assms(1) protos(1)] succeeds_AddFilter [OF assms(1) protos(2)]
    by (intro succeeds_filters) (auto simp: safeguard_steps_def allow_step_def split: net_level.splits)
  have allow: "succeeds (run_steps [allowed_hosts_step N spec ?ifaces]) 0"
    by (simp add: succeeds_def allowed_hosts_step_def addFiltersForHosts_def assms(7))
  have targets: "succeeds (run_steps (target_steps N spec ?ifaces)) 2"
  proof -
    have ps: "AllProtocols ALL_protocol = [TCP, UDP]"
      by (simp add: AllProtocols_def newProtocol_def Let_def to_lower_def ALL_protocol_def TCP_def UDP_def ARP_def)
    show ?thesis
      using succeeds_AddFilter [OF assms(1)] by (intro succeeds_filters) (auto simp: target_steps_def assms(6,8) ps)
  qed
  have root: "succeeds (run_steps [tc_step (AddPrio (ne_exec N) ?ifaces ''root'' ''1:'' 4 root_priomap)]) 0"
    using succeeds_tc_step [OF assms(1) AddPrio_def] by (simp only: run_steps_single)
  have tree: "succeeds (run_steps (tree_steps N spec ?ifaces (ns_operations s))) 0"
    by (rule succeeds_tree_steps [OF assms(1)]) (rule assms(9))
  have "succeeds (run_steps (all_steps N spec ?ifaces defaultRoutes nodeIP (ns_operations s))) (length defaultRoutes + 5)"
    using succeeds_append [OF root succeeds_append [OF tree succeeds_append [OF guards succeeds_append [OF allow targets]]]]
    by (simp add: all_steps_def add.commute del: run_steps.simps)
  then have "fst (run_steps (all_steps N spec ?ifaces defaultRoutes nodeIP (ns_operations s)) (s\<lparr>ns_qlen := q\<rparr>)) = None" for q
    unfolding succeeds_def by (elim allE [of _ "s\<lparr>ns_qlen := q\<rparr>"]) (use assms(10) in auto)
  moreover obtain deferred q where "set_qlens links (ns_qlen s) = (None, deferred, q)"
    using set_qlens_ok [OF assms(5), of "ns_qlen s"] by (metis prod.exhaust_sel)
  ultimately show ?thesis by (simp add: applyOperations_def assms(2-4) case_prod_unfold)
qed

section \<open>The queue lengths\<close>

lemma run_steps_qlen: "\<forall>f \<in> set fs. \<forall>s. ns_qlen (snd (f s)) = ns_qlen s \<Longrightarrow> ns_qlen (snd (run_steps fs s)) = ns_qlen s"
  by (induction fs arbitrary: s) (auto split: prod.splits option.splits, (metis snd_conv)+)

lemma all_steps_qlen:
  assumes "f \<in> set (all_steps N spec ifaces defaultRoutes nodeIP ops)"
  shows "ns_qlen (snd (f s)) = ns_qlen s"
proof -
  have tc: "ns_qlen (snd (tc_step g s)) = ns_qlen s" for g by (simp add: tc_step_def split: prod.splits)
  have flt: "ns_qlen (snd (filter_step g s)) = ns_qlen s" for g :: "tc \<Rightarrow> (tc_error + u32) \<times> tc"
    by (simp add: filter_step_def split: prod.splits sum.splits)
  have ops: "ns_qlen (snd (f s)) = ns_qlen s" if "f \<in> set (op_steps X ifaces parent handle ops)" for X parent handle
    using that by (induction ops arbitrary: parent handle) (auto simp: tc)
  have cfg: "ns_qlen (snd (ConfigBPFFilter N args s)) = ns_qlen s" for args by (simp add: ConfigBPFFilter_def)
  have alw: "ns_qlen (snd (allowed_hosts_step N spec ifaces s)) = ns_qlen s"
    by (simp add: allowed_hosts_step_def split: prod.splits sum.splits)
  have hst: "ns_qlen (snd (handleFiltersForHosts N spec ifaces F s)) = ns_qlen s" for F
    by (simp add: handleFiltersForHosts_def split: prod.splits sum.splits)
  have svc: "ns_qlen (snd (handleFiltersForServices N spec s)) = ns_qlen s"
    by (simp add: handleFiltersForServices_def split: option.splits)
  from assms show ?thesis
    by (auto simp: tc flt cfg alw hst svc ops all_steps_def tree_steps_def http_steps_def mark_steps_def safeguard_steps_def allow_step_def
        target_steps_def split: if_splits option.splits net_level.splits)
qed

lemma set_reset_qlens:
  assumes "distinct (map l_name links)" and "\<forall>l \<in> set links. l_txQLen l = q (l_name l) \<and> l_set_ok l 0"
    and "set_qlens links q = (e, deferred, q')"
  shows "reset_qlens deferred q' = q"
  using assms
proof (induction links arbitrary: q e deferred q')
  case (Cons l links)
  show ?case
  proof (cases "l_txQLen l = 0 \<and> l_set_ok l 1000")
    case True
    with Cons.prems(3) obtain d where d: "set_qlens links (q(l_name l := 1000)) = (e, d, q')" "deferred = l # d"
      by (auto split: prod.splits)
    have "reset_qlens d q' = q(l_name l := 1000)"
      by (rule Cons.IH [OF _ _ d(1)]) (use Cons.prems(1,2) in \<open>fastforce simp: image_iff\<close>)+
    moreover have "q (l_name l) = 0" "l_set_ok l 0" using Cons.prems(2) True by auto
    ultimately show ?thesis using d(2) by (auto simp: reset_qlens_def fun_upd_idem)
  next
    case False
    with Cons show ?thesis by (auto simp: reset_qlens_def split: if_splits)
  qed
qed (simp add: reset_qlens_def)

lemma applyOperations_qlen:
  assumes "\<And>links. ne_links N = Some links \<Longrightarrow> distinct (map l_name links) \<and>
    (\<forall>l \<in> set links. l_txQLen l = ns_qlen s (l_name l) \<and> l_set_ok l 0)"
  shows "ns_qlen (snd (applyOperations N spec s)) = ns_qlen s"
proof -
  have "ns_qlen s1 = q" if "run_steps (all_steps N spec ifaces defaultRoutes nodeIP ops) (s\<lparr>ns_qlen := q\<rparr>) = (e, s1)"
    for ifaces defaultRoutes nodeIP ops q e s1
    using run_steps_qlen [of "all_steps N spec ifaces defaultRoutes nodeIP ops" "s\<lparr>ns_qlen := q\<rparr>"] all_steps_qlen that by simp
  moreover have "reset_qlens deferred q = ns_qlen s" if "ne_links N = Some links" "set_qlens links (ns_qlen s) = (e, deferred, q)"
    for links e deferred q
    using set_reset_qlens [OF _ _ that(2)] assms [OF that(1)] by blast
  ultimately show ?thesis
    by (auto simp: applyOperations_def split: option.splits prod.splits)
qed

text \<open>
  C29: The injector leaves the queue lengths of the interfaces as it found them, on success and on every
  error, also one in the middle of setting them.
\<close>

theorem applyOperations_restores_qlen:
  assumes "\<And>links. ne_links N = Some links \<Longrightarrow> distinct (map l_name links) \<and>
    (\<forall>l \<in> set links. l_txQLen l = ns_qlen s (l_name l) \<and> l_set_ok l 0)"
  shows "ns_qlen (snd (applyOperations N spec s)) = ns_qlen s"
  using assms by (rule applyOperations_qlen)

section \<open>The way of a packet through the tree\<close>

text \<open>The value that follows a key word in a command, behind its first four words.\<close>

fun word_after :: "string \<Rightarrow> string list \<Rightarrow> string option" where
  "word_after k (a # b # cs) = (if a = k then Some b else word_after k (b # cs))"
| "word_after k _ = None"

definition cmd_arg :: "string \<Rightarrow> string list \<Rightarrow> string option" where
  "cmd_arg k c = word_after k (drop 4 c)"

definition on_iface :: "string \<Rightarrow> string \<Rightarrow> string list \<Rightarrow> bool" where
  "on_iface kind i c \<longleftrightarrow> take 4 c = [kind, ''add'', ''dev'', i]"

text \<open>
  What is documented of \<open>tc\<close> for one interface: \<open>through\<close> says of a class or a discipline whether a packet
  passes through it, \<open>fires\<close> of a filter command whether its filter matches the packet. A discipline
  that is added below a class gets the packets of the class. A discipline of two bands whose priority map
  is all 0 puts a packet into its second band exactly when its only filter, which selects that band,
  matches.
\<close>

definition tc_passes :: "string \<Rightarrow> string list list \<Rightarrow> (string list \<Rightarrow> bool) \<Rightarrow> (string \<Rightarrow> bool) \<Rightarrow> bool" where
  "tc_passes i lg fires through \<longleftrightarrow>
     (\<forall>c \<in> set lg. \<forall>P H. on_iface ''qdisc'' i c \<and> cmd_arg ''parent'' c = Some P \<and> cmd_arg ''handle'' c = Some H \<longrightarrow>
        through H = through P) \<and>
     (\<forall>c \<in> set lg. \<forall>H. on_iface ''filter'' i c \<and> cmd_arg ''parent'' c = Some (H @ ''0'') \<and>
        cmd_arg ''flowid'' c = Some (H @ ''2'') \<and>
        (\<forall>d \<in> set lg. on_iface ''filter'' i d \<and> cmd_arg ''parent'' d = Some (H @ ''0'') \<longrightarrow> d = c) \<and>
        (\<exists>q \<in> set lg. \<exists>P. q = prio2 P H i) \<longrightarrow>
        through (H @ ''2'') = (through H \<and> fires c))"

lemma cmd_words [simp]:
  "cmd_arg k (qdisc_words P H kind i) =
     word_after k ((if P = ''root'' then [''root''] else [''parent'', P]) @ [''handle'', H] @ kind)"
  "on_iface kd j (qdisc_words P H kind i) \<longleftrightarrow> kd = ''qdisc'' \<and> i = j"
  "cmd_arg k (bpf_words P F sec i) = word_after k [''parent'', P, ''bpf'', ''obj'', bpf_obj, ''sec'', sec, ''flowid'', F]"
  "on_iface kd j (bpf_words P F sec i) \<longleftrightarrow> kd = ''filter'' \<and> i = j"
  "cmd_arg k (flower_words P H F i) = word_after k [''protocol'', ''ip'', ''parent'', P, ''handle'', H, ''flower'', ''flowid'', F]"
  "on_iface kd j (flower_words P H F i) \<longleftrightarrow> kd = ''filter'' \<and> i = j"
  by (auto simp: cmd_arg_def on_iface_def qdisc_words_def bpf_words_def flower_words_def)

lemma Itoa_not_parent: "Itoa n \<noteq> ''parent''"
  using parse_Itoa [of n] by (auto simp: digit_def)

lemma root_filter_parent: "root_filter q F c \<Longrightarrow> on_iface ''filter'' i c \<Longrightarrow> cmd_arg ''parent'' c = Some ''1:0'' \<or> cmd_arg ''parent'' c = Some ''priority''"
  by (auto simp: root_filter_def cmd_arg_def on_iface_def Itoa_not_parent)

lemma in_on_ifaces: "d \<in> set (on_ifaces cmds ifaces) \<longleftrightarrow> (\<exists>c \<in> set cmds. \<exists>i \<in> set ifaces. d = c i)"
  by (auto simp: on_ifaces_def)

lemma op_tree_qdisc: "c \<in> set (op_tree parent handle ops) \<Longrightarrow> \<not> on_iface ''filter'' i (c j)"
  by (induction ops arbitrary: parent handle) auto

text \<open>
  In a log of the tree with HTTP filters and further filters at the root, a packet gets to the first
  operation exactly when the methods, the paths and the mark filter match it.
\<close>

lemma http_tree_passes:
  assumes "tc_passes i lg fires through" and "i \<in> set ifaces" and "ops \<noteq> []"
    and "lg = on_ifaces (qdisc_words ''root'' ''1:'' (prio_kind 4 root_priomap) # http_tree ops) ifaces @ rest"
    and "\<forall>c \<in> set rest. \<exists>q F. root_filter q F c"
  shows "through ''5:'' \<longleftrightarrow> through ''1:4'' \<and> fires (bpf_words ''2:0'' ''2:2'' ''classifier_methods'' i) \<and>
    fires (bpf_words ''3:0'' ''3:2'' ''classifier_paths'' i) \<and> fires (flower_words ''4:0'' InjectorCgroupClassID ''4:2'' i)"
proof -
  have mem: "c i \<in> set lg" if "c \<in> set (http_tree ops)" for c
    using that assms(2) unfolding assms(4) by (auto simp: in_on_ifaces)
  have qdisc: "through H = through P" if "qdisc_words P H kind \<in> set (http_tree ops)" "P \<noteq> ''root''" "P \<noteq> ''handle''" for P H kind
    using assms(1) mem [OF that(1)] that(2,3) unfolding tc_passes_def by fastforce
  have other: "d \<in> {bpf_words ''2:0'' ''2:2'' ''classifier_methods'' i, bpf_words ''3:0'' ''3:2'' ''classifier_paths'' i,
      flower_words ''4:0'' InjectorCgroupClassID ''4:2'' i}"
    if "d \<in> set lg" "on_iface ''filter'' i d" "cmd_arg ''parent'' d = Some P" "P \<noteq> ''1:0''" "P \<noteq> ''priority''" for d P
  proof -
    have "d \<notin> set rest" using assms(5) that(2-5) root_filter_parent by fastforce
    then have "d \<in> set (on_ifaces (qdisc_words ''root'' ''1:'' (prio_kind 4 root_priomap) # http_tree ops) ifaces)"
      using that(1) assms(4) by simp
    then obtain c j where c: "c \<in> set (qdisc_words ''root'' ''1:'' (prio_kind 4 root_priomap) # http_tree ops)" "d = c j"
      unfolding in_on_ifaces by blast
    then show ?thesis using that(2) op_tree_qdisc [of c "''4:2''" 5 ops i j] by (auto simp: http_tree_def prio2_def)
  qed
  have band: "through (H @ ''2'') = (through H \<and> fires c)"
    if "c \<in> set lg" "on_iface ''filter'' i c" "cmd_arg ''parent'' c = Some (H @ ''0'')" "cmd_arg ''flowid'' c = Some (H @ ''2'')"
      "\<And>d. d \<in> set lg \<Longrightarrow> on_iface ''filter'' i d \<Longrightarrow> cmd_arg ''parent'' d = Some (H @ ''0'') \<Longrightarrow> d = c" "prio2 P H i \<in> set lg" for c H P
    using assms(1) that unfolding tc_passes_def by blast
  have "through (''2:'' @ ''2'') = (through ''2:'' \<and> fires (bpf_words ''2:0'' ''2:2'' ''classifier_methods'' i))"
    by (rule band [where P = "''1:4''"]) (auto dest!: other intro!: mem simp: http_tree_def bpf_obj_def InjectorCgroupClassID_def)
  moreover have "through (''3:'' @ ''2'') = (through ''3:'' \<and> fires (bpf_words ''3:0'' ''3:2'' ''classifier_paths'' i))"
    by (rule band [where P = "''2:2''"]) (auto dest!: other intro!: mem simp: http_tree_def bpf_obj_def InjectorCgroupClassID_def)
  moreover have "through (''4:'' @ ''2'') = (through ''4:'' \<and> fires (flower_words ''4:0'' InjectorCgroupClassID ''4:2'' i))"
    by (rule band [where P = "''3:2''"]) (auto dest!: other intro!: mem simp: http_tree_def bpf_obj_def InjectorCgroupClassID_def)
  moreover have "through ''2:'' = through ''1:4''" "through ''3:'' = through ''2:2''" "through ''4:'' = through ''3:2''"
    by (rule qdisc [where kind = "prio_kind 2 (replicate 16 0)"]; simp add: http_tree_def prio2_def)+
  moreover have "through ''5:'' = through ''4:2''"
  proof -
    obtain op ops' where "ops = op # ops'" using assms(3) by (cases ops) auto
    moreover have "Itoa 5 = ''5''" by (simp add: Itoa.simps char_of_def bit_0)
    ultimately show ?thesis by (intro qdisc [where kind = "op_kind op"]) (simp_all add: http_tree_def)
  qed
  ultimately show ?thesis by simp
qed

section \<open>The host watcher\<close>

lemma host_share_watch:
  "(case h_percentage h of
      Some (_, q) \<Rightarrow> if q < 100 then SelectIPsByPercentage (ne_hash N) ips q (h_host h @ ''-'' @ ne_uid N) else ips
    | None \<Rightarrow> ips) = host_share N h ips"
  by (auto simp: host_share_def SelectIPsByPercentage_def split: option.splits)

lemma add_host_filters_ips: "add_host_filters X ifaces h flowid xs t = (Inr fs, t') \<Longrightarrow> map fst fs = map fst xs"
proof (induction xs arbitrary: t fs)
  case (Cons x xs)
  then show ?case by (cases x) (auto split: prod.splits sum.splits)
qed simp

lemma AllProtocols_nonempty: "AllProtocols p \<noteq> []"
  by (simp add: AllProtocols_def Let_def)

text \<open>The map that was built answers the question of the watcher: the addresses of every host are those resolved.\<close>

definition settled :: "net_env \<Rightarrow> dns_client \<Rightarrow> host_filters \<Rightarrow> bool" where
  "settled N client m \<longleftrightarrow> (\<forall>(h, fs) \<in> set m. \<exists>nets. resolveHost client (h_host h) (h_resolver h) = Some nets \<and>
     set (map fst fs) = set (host_share N h (map ipnet_String nets)))"

lemma settled_update:
  assumes "settled N client m" and "resolveHost client (h_host h) (h_resolver h) = Some nets"
    and "set (map fst fs) = set (host_share N h (map ipnet_String nets))"
  shows "settled N client (AList.update h fs m)"
proof -
  have "x \<in> set (AList.update h fs m) \<Longrightarrow> x = (h, fs) \<or> x \<in> set m" for x
    by (induction m) (auto split: if_splits)
  then show ?thesis using assms unfolding settled_def by fastforce
qed

lemma add_hosts_settled:
  assumes "settled N (ne_dns N) m" and "add_hosts N ifaces flowid hs m t = (Inr m', t')"
  shows "settled N (ne_dns N) m'"
  using assms
proof (induction hs arbitrary: m t)
  case (Cons h hs)
  show ?case
  proof (cases "ne_interrupted N h")
    case True
    with Cons.prems show ?thesis by (simp add: settled_def)
  next
    case False
    with Cons.prems(2) obtain nets fs t1 where
      r: "resolveHost (ne_dns N) (h_host h) (h_resolver h) = Some nets"
      and f: "add_host_filters (ne_exec N) ifaces h flowid
        (List.product (host_share N h (map ipnet_String nets)) (AllProtocols (h_protocol h))) t = (Inr fs, t1)"
      and a: "add_hosts N ifaces flowid hs (AList.update h fs m) t1 = (Inr m', t')"
      by (auto simp: Let_def split: prod.splits sum.splits option.splits)
    have "set (map fst fs) = set (host_share N h (map ipnet_String nets))"
      using add_host_filters_ips [OF f] AllProtocols_nonempty [of "h_protocol h"]
      by (metis fst_image_times list.set_map set_empty set_product)
    from Cons.IH [OF settled_update [OF Cons.prems(1) r this] a] show ?thesis .
  qed
qed simp

text \<open>
  C30: While the addresses of the hosts stay the same the watcher does nothing: after the filters have been
  added, a round in which the DNS client gives the same answers runs no command and leaves the filters, as
  long as no answer lists an address twice.
\<close>

theorem watchHostChanges_stable:
  assumes "addFiltersForHosts N ifaces hosts flowid t = (Inr m, t')" and "ne_enter N" and "ne_exit N"
    and "\<And>h nets. h \<in> fst ` set m \<Longrightarrow> resolveHost (ne_dns N) (h_host h) (h_resolver h) = Some nets \<Longrightarrow>
      distinct (host_share N h (map ipnet_String nets))"
  shows "watchHostChanges N (ne_dns N) ifaces flowid m t' ns = (m, t', False)"
proof -
  have s: "settled N (ne_dns N) m"
    by (rule add_hosts_settled [OF _ assms(1) [unfolded addFiltersForHosts_def]]) (simp add: settled_def)
  have "\<not> host_changed N (ne_dns N) h fs" if mem: "(h, fs) \<in> set m" for h fs
  proof -
    obtain nets where n: "resolveHost (ne_dns N) (h_host h) (h_resolver h) = Some nets"
      "set (map fst fs) = set (host_share N h (map ipnet_String nets))"
      using bspec [OF s [unfolded settled_def] mem] by auto
    have "h \<in> fst ` set m" using mem by force
    from distinct_card [OF assms(4) [OF this n(1)]]
    have "length (remdups (map fst fs)) = length (host_share N h (map ipnet_String nets))"
      by (simp only: length_remdups_card_conv n(2))
    moreover have "fst f \<in> set (host_share N h (map ipnet_String nets))" if "f \<in> set fs" for f
      using n(2) that by (metis imageI list.set_map)
    ultimately show ?thesis
      unfolding host_changed_def n(1) option.case Let_def host_share_watch by metis
  qed
  then have "filter (\<lambda>(h, fs). host_changed N (ne_dns N) h fs) m = []" by (auto simp: filter_empty_conv)
  then show ?thesis using assms(2,3) by (simp add: watchHostChanges_def)
qed

text \<open>The commands that delete filters by their priorities.\<close>

definition delete_cmds :: "string list \<Rightarrow> u32 list \<Rightarrow> string list list" where
  "delete_cmds ifaces ps =
     concat (map (\<lambda>p. map (\<lambda>i. [''filter'', ''delete'', ''dev'', i, ''priority'', Itoa (unat p)]) ifaces) ps)"

lemma remove_filters_all:
  assumes "never_fails X" and "\<not> tc_dryRun t"
  shows "remove_filters X ifaces ps t = t\<lparr>tc_log := tc_log t @ delete_cmds ifaces ps\<rparr>"
  using assms(2)
proof (induction ps arbitrary: t)
  case (Cons p ps)
  let ?f = "\<lparr>sf_service = \<lparr>sa_ip = None, sa_port = 0, sa_protocol = []\<rparr>, sf_priority = p\<rparr>"
  have "removeTcFilter X ifaces p t = (None, t\<lparr>tc_log := tc_log t @ del_cmds ifaces ?f\<rparr>)"
    using removeServiceFilter_all [OF assms(1) Cons.prems, of ifaces ?f] by (simp add: removeServiceFilter_def)
  with Cons show ?case by (simp add: delete_cmds_def del_cmds_def)
qed (simp add: delete_cmds_def)

text \<open>
  Priorities are never given back, and every change of a host's addresses takes new ones. Once they are
  used up, a round of the watcher that finds new addresses removes all filters of the host and adds none:
  the host is no longer disrupted, the watcher still believes in the old filters, and its thread stays in the
  target's network namespace.
\<close>

theorem watchHostChanges_exhausted:
  assumes "never_fails (ne_exec N)" and "ne_enter N" and "\<not> tc_dryRun t" and "3047 \<le> tcFilterPriority t"
    and "tcFilterPriority t \<noteq> -1" and "host_changed N client h fs" and "\<not> ne_interrupted N h"
    and "resolveHost (ne_dns N) (h_host h) (h_resolver h) = Some nets" and "host_share N h (map ipnet_String nets) \<noteq> []"
  shows "\<exists>t'. watchHostChanges N client ifaces flowid [(h, fs)] t ns = ([(h, fs)], t', True) \<and>
    tc_log t' = tc_log t @ delete_cmds ifaces (map snd fs)"
proof -
  let ?t = "t\<lparr>tc_log := tc_log t @ delete_cmds ifaces (map snd fs)\<rparr>"
  let ?xs = "List.product (host_share N h (map ipnet_String nets)) (AllProtocols (h_protocol h))"
  obtain ip p xs where xs: "?xs = (ip, p) # xs" "p \<in> set (AllProtocols (h_protocol h))"
    using assms(9) AllProtocols_nonempty [of "h_protocol h"]
    by (cases "host_share N h (map ipnet_String nets)"; cases "AllProtocols (h_protocol h)") auto
  then have p: "p \<in> {TCP, UDP, ARP}"
    by (auto simp: AllProtocols_def newProtocol_def Let_def split: if_splits)
  then have ne: "p \<noteq> ''''" by (auto simp: TCP_def UDP_def ARP_def)
  have "tcFilterPriority t + 1 \<ge> 3048"
    using assms(4,5) unat_plus_one [of "tcFilterPriority t"] by (simp add: word_le_nat_alt eq_neg_iff_add_eq_0)
  then have g: "getNewPriority ?t = (Inl Too_many_filters, ?t\<lparr>tcFilterPriority := tcFilterPriority t + 1\<rparr>)"
    by (simp add: getNewPriority_def Let_def MaximumTCFilters_def tcPriority_def)
  have "addFiltersForHosts N ifaces [h] flowid ?t =
      (Inl (Net_tc Too_many_filters), ?t\<lparr>tcFilterPriority := tcFilterPriority t + 1\<rparr>)"
    using p ne g assms(7,8) xs(1) by (simp add: addFiltersForHosts_def AddFilter_def Let_def)
  then show ?thesis
    using assms(2,6) remove_filters_all [OF assms(1,3), of ifaces "map snd fs"]
    by (simp add: watchHostChanges_def Let_def)
qed

section \<open>The map loader\<close>

lemma run_steps_keep: "\<forall>f \<in> set fs. \<forall>s. ns_config (snd (f s)) = ns_config s \<Longrightarrow> ns_config (snd (run_steps fs s)) = ns_config s"
  by (induction fs arbitrary: s) (auto split: prod.splits option.splits, (metis snd_conv)+)

lemma steps_keep_config:
  "ns_config (snd (tc_step g s)) = ns_config s"
  "ns_config (snd (filter_step k s)) = ns_config s"
  "ns_config (snd (allowed_hosts_step N spec ifaces s)) = ns_config s"
  "ns_config (snd (handleFiltersForHosts N spec ifaces F s)) = ns_config s"
  "ns_config (snd (handleFiltersForServices N spec s)) = ns_config s"
  by (simp_all add: tc_step_def filter_step_def allowed_hosts_step_def handleFiltersForHosts_def handleFiltersForServices_def
      split: prod.splits sum.splits option.splits)

lemma op_steps_keep_config: "f \<in> set (op_steps X ifaces parent handle ops) \<Longrightarrow> ns_config (snd (f s)) = ns_config s"
  by (induction ops arbitrary: parent handle) (auto simp: steps_keep_config)

text \<open>
  Where the HTTP filters apply, the loader runs once, between the two filters that use its maps and
  the filter for the mark, and the injection succeeds only if it does.
\<close>

lemma applyOperations_config:
  assumes "applyOperations N spec s = (None, s')" and "ready (ns_tc s)"
    and "ne_links N = Some links" and "\<forall>l \<in> set links. blank_free (l_name l)"
    and "ne_level N = Level_pod" and "\<not> ne_on_init N" and "spec_http spec = Some http" and "HasHTTPFilters (spec_http spec)"
  shows "ns_config s' = ns_config s @ [configBPFFilterArgs http] \<and> \<not> ne_config N (configBPFFilterArgs http)"
proof -
  let ?ifaces = "map l_name links" and ?X = "ne_exec N"
  obtain defaultRoutes nodeIP q s1 where
    run: "run_steps (all_steps N spec ?ifaces defaultRoutes nodeIP (ns_operations s)) (s\<lparr>ns_qlen := q\<rparr>) = (None, s1)"
    and s1: "ns_config s' = ns_config s1"
    using applyOperations_runs [OF assms(1)] assms(3) by (metis option.inject)
  have names: "\<forall>i \<in> set ?ifaces. blank_free i" using assms(4) by simp
  define pre where "pre = tc_step (AddPrio ?X ?ifaces ''root'' ''1:'' 4 root_priomap) # take 5 (http_steps N ?ifaces http)"
  define post where "post = tc_step (AddFlowerFilter ?X ?ifaces ''4:0'' InjectorCgroupClassID ''4:2'') #
    op_steps ?X ?ifaces ''4:2'' 5 (ns_operations s) @ safeguard_steps N ?ifaces defaultRoutes nodeIP @
    allowed_hosts_step N spec ?ifaces # target_steps N spec ?ifaces"
  have steps: "all_steps N spec ?ifaces defaultRoutes nodeIP (ns_operations s) =
      pre @ ConfigBPFFilter N (configBPFFilterArgs http) # post"
    using assms(5-8) by (simp add: all_steps_def tree_steps_def http_steps_def pre_def post_def)
  then obtain s2 s3 where
    r: "run_steps pre (s\<lparr>ns_qlen := q\<rparr>) = (None, s2)" "ConfigBPFFilter N (configBPFFilterArgs http) s2 = (None, s3)"
      "run_steps post s3 = (None, s1)"
    using run by (auto simp: run_steps_append split: prod.splits option.splits)
  obtain P where P: "adds (run_steps pre) P"
  proof -
    have "\<exists>P. adds (run_steps pre) P"
    unfolding pre_def http_steps_def
    by (simp del: run_steps.simps)
      (rule exI, (rule adds_Cons adds_Nil adds_AddPrio [OF names] adds_AddBPFFilter [OF names] | (simp add: root_priomap_def; fail))+)
    with that show ?thesis by blast
  qed
  have "ready (ns_tc s2)" by (rule addsD [OF P _ r(1)]) (use assms(2) in simp_all)
  then have c: "ns_config s3 = ns_config s2 @ [configBPFFilterArgs http]" "\<not> ne_config N (configBPFFilterArgs http)"
    using r(2) by (auto simp: ConfigBPFFilter_def ready_def split: if_splits)
  have "ns_config s2 = ns_config s"
    using run_steps_keep [of pre "s\<lparr>ns_qlen := q\<rparr>"] r(1) by (simp add: pre_def http_steps_def steps_keep_config del: run_steps.simps)
  moreover have "\<forall>f \<in> set post. \<forall>s. ns_config (snd (f s)) = ns_config s"
    using op_steps_keep_config
    by (auto simp: post_def safeguard_steps_def allow_step_def target_steps_def steps_keep_config split: net_level.splits if_splits)
  then have "ns_config s1 = ns_config s3" using run_steps_keep [of post s3] r(3) by simp
  ultimately show ?thesis using c s1 by simp
qed

text \<open>
  C12: The injection of an HTTP disruption of all traffic of a pod succeeds, and has run the map loader exactly
  once with the arguments of the resource, when every command of \<open>tc\<close> and the loader succeed, the queue
  lengths can be set and there are priorities left.
\<close>

theorem applyOperations_succeeds:
  assumes "never_fails (ne_exec N)" and "ne_links N = Some links" and "\<forall>l \<in> set links. blank_free (l_name l) \<and> l_set_ok l 1000"
    and "ne_routes N = Some defaultRoutes" and "ne_node_ip N = Some nodeIP" and "ne_level N = Level_pod" and "\<not> ne_on_init N"
    and "spec_hosts spec = []" and "spec_allowed spec = []" and "spec_services spec = []"
    and "spec_http spec = Some http" and "HasHTTPFilters (spec_http spec)" and "\<not> ne_config N (configBPFFilterArgs http)"
    and "\<not> tc_dryRun (ns_tc s)" and "unat (tcFilterPriority (ns_tc s)) + length defaultRoutes + 5 < 3048"
  shows "\<exists>s'. applyOperations N spec s = (None, s') \<and> ns_config s' = ns_config s @ [configBPFFilterArgs http]"
proof -
  have "fst (applyOperations N spec s) = None"
    by (rule applyOperations_ok [OF assms(1,2,4,5)]) (use assms in auto)
  then obtain s' where s': "applyOperations N spec s = (None, s')" by (metis prod.collapse)
  have "tcFilterPriority (ns_tc s) \<noteq> -1" using assms(15) by (auto simp: unsigned_minus_1_eq_mask mask_eq_exp_minus_1)
  then have "ready (ns_tc s)" using assms(14) by (simp add: ready_def)
  moreover have "\<forall>l \<in> set links. blank_free (l_name l)" using assms(3) by blast
  ultimately show ?thesis using applyOperations_config [OF s' _ assms(2) _ assms(6,7,11,12)] s' by blast
qed

section \<open>An instance\<close>

definition sample_link :: net_link where
  "sample_link = \<lparr>l_name = ''eth0'', l_txQLen = 0, l_set_ok = \<lambda>n. True\<rparr>"

definition sample_net :: net_env where
  "sample_net = \<lparr>ne_exec = ok_tc, ne_config = \<lambda>args. False, ne_links = Some [sample_link],
     ne_routes = Some [(''eth0'', [10, 0, 0, 1])], ne_node_ip = Some ''10.0.0.9'', ne_level = Level_pod, ne_on_init = False,
     ne_dns = \<lambda>name strategy. Some [[10, 1, 1, 1]], ne_interrupted = \<lambda>h. False, ne_hash = \<lambda>ip seed. 0, ne_uid = ''u'',
     ne_service = \<lambda>v. None, ne_enter = True, ne_exit = True\<rparr>"

definition sample_net_spec :: net_spec where
  "sample_net_spec = \<lparr>spec_hosts = [], spec_allowed = [], spec_services = [], spec_http = Some sample_http\<rparr>"

definition sample_net_state :: net_state where
  "sample_net_state = \<lparr>ns_tc = NewTrafficController False, ns_operations = [Output_limit 1000], ns_qlen = \<lambda>i. 0,
     ns_config = [], ns_services = None, ns_hosts = None\<rparr>"

lemma sample_net_simps:
  "never_fails (ne_exec sample_net)" "ne_links sample_net = Some [sample_link]"
  "\<forall>l \<in> set [sample_link]. blank_free (l_name l) \<and> l_set_ok l 1000"
  "ne_routes sample_net = Some [(''eth0'', [10, 0, 0, 1])]" "ne_node_ip sample_net = Some ''10.0.0.9''"
  "ne_level sample_net = Level_pod" "\<not> ne_on_init sample_net" "spec_hosts sample_net_spec = []"
  "spec_allowed sample_net_spec = []" "spec_services sample_net_spec = []" "spec_http sample_net_spec = Some sample_http"
  "HasHTTPFilters (spec_http sample_net_spec)" "\<not> ne_config sample_net (configBPFFilterArgs sample_http)"
  "\<not> tc_dryRun (ns_tc sample_net_state)" "ready (ns_tc sample_net_state)"
  "unat (tcFilterPriority (ns_tc sample_net_state)) + length [(''eth0'', [10, 0, 0, 1] :: bytes)] + 5 < 3048"
  by (simp_all add: sample_net_def sample_net_spec_def sample_net_state_def sample_link_def ok_tc_never_fails ready_def
      NewTrafficController_def tcPriority_def HasHTTPFilters_def sample_http_def)

theorem applyOperations_succeeds_witness:
  "\<exists>s'. applyOperations sample_net sample_net_spec sample_net_state = (None, s') \<and>
     ns_config s' = ns_config sample_net_state @ [configBPFFilterArgs sample_http]"
  by (rule applyOperations_succeeds [OF sample_net_simps(1-14,16)])

lemma sample_net_ok: "\<exists>s'. applyOperations sample_net sample_net_spec sample_net_state = (None, s')"
proof -
  have "fst (applyOperations sample_net sample_net_spec sample_net_state) = None"
    by (rule applyOperations_ok [OF sample_net_simps(1,2,4,5)]) (use sample_net_simps in auto)
  then show ?thesis by (metis prod.collapse)
qed

theorem applyOperations_tree_witness:
  "\<exists>s' spared disrupted limit. applyOperations sample_net sample_net_spec sample_net_state = (None, s') \<and>
    tc_log (ns_tc s') = tc_log (ns_tc sample_net_state) @
      on_ifaces (tree_of sample_net sample_net_spec (ns_operations sample_net_state)) (map l_name [sample_link]) @ spared @ disrupted \<and>
    (\<forall>c \<in> set spared. \<exists>q \<le> limit. root_filter q ''1:1'' c) \<and> (\<forall>c \<in> set disrupted. \<exists>q > limit. root_filter q ''1:4'' c)"
proof -
  obtain s' where s': "applyOperations sample_net sample_net_spec sample_net_state = (None, s')" using sample_net_ok ..
  show ?thesis
    using applyOperations_tree [OF s' sample_net_simps(15,2) _ sample_net_simps(4)] s' by (auto simp: sample_link_def)
qed

theorem applyOperations_restores_qlen_witness:
  "ns_qlen (snd (applyOperations sample_net sample_net_spec sample_net_state)) = ns_qlen sample_net_state"
  by (rule applyOperations_restores_qlen) (auto simp: sample_net_def sample_link_def sample_net_state_def)

definition sample_host :: host_spec where
  "sample_host = \<lparr>h_host = ''shop.example'', h_port = 443, h_protocol = ''tcp'', h_flow = '''', h_conn = '''', h_resolver = '''',
     h_percentage = None\<rparr>"

lemma sample_host_resolves:
  "resolveHost (ne_dns sample_net) (h_host sample_host) (h_resolver sample_host) = Some [single_net [10, 1, 1, 1]]"
proof -
  have "ParseCIDR ''shop.example'' = None" by (simp add: ParseCIDR_def)
  moreover have "ParseIP ''shop.example'' = None"
    by (simp add: ParseIP_def ParseAddr_def parseIPv4_def digit_def)
  ultimately show ?thesis by (simp add: resolveHost_def sample_host_def sample_net_def)
qed

lemma sample_host_fields:
  "h_flow sample_host = []" "h_port sample_host = 443" "h_conn sample_host = []"
  by (simp_all add: sample_host_def)

lemma sample_net_flags:
  "ne_exec sample_net = ok_tc" "ne_enter sample_net" "ne_exit sample_net" "\<not> ne_interrupted sample_net h"
  by (simp_all add: sample_net_def)

lemma sample_host_share: "host_share sample_net sample_host ips = ips"
  by (simp add: host_share_def sample_host_def)

theorem watchHostChanges_stable_witness:
  "\<exists>m t'. addFiltersForHosts sample_net [''eth0''] [sample_host] ''1:4'' (NewTrafficController False) = (Inr m, t') \<and>
     watchHostChanges sample_net (ne_dns sample_net) [''eth0''] ''1:4'' m t' False = (m, t', False)"
proof -
  let ?t = "NewTrafficController False" and ?ip = "ipnet_String (single_net [10, 1, 1, 1])"
  have "AllProtocols (h_protocol sample_host) = [TCP]"
    by (simp add: sample_host_def, code_simp)
  moreover obtain t1 where "AddFilter ok_tc [''eth0''] ''1:0'' '''' None (Some ?ip) 0 443 TCP '''' ''1:4'' ?t = (Inr 1001, t1)"
    using AddFilter_all [OF ok_tc_never_fails, of ?t TCP "[''eth0'']" None "Some ?ip" "''''" "''1:4''" 0 443]
    by (simp add: NewTrafficController_def tcPriority_def ip_ok_def blank_free_ipnet_String)
  ultimately obtain t' where m: "addFiltersForHosts sample_net [''eth0''] [sample_host] ''1:4'' ?t =
      (Inr [(sample_host, [(?ip, 1001)])], t')" (is "_ = (Inr ?m, _)")
    by (auto simp: addFiltersForHosts_def sample_host_resolves sample_host_share sample_net_flags
        sample_host_fields FlowIngress_def NewConnState_def ConnStateUndefined_def)
  have "watchHostChanges sample_net (ne_dns sample_net) [''eth0''] ''1:4'' ?m t' False = (?m, t', False)"
    by (intro watchHostChanges_stable [OF m]) (auto simp: sample_host_resolves sample_host_share sample_net_flags)
  with m show ?thesis by blast
qed

theorem watchHostChanges_exhausted_witness:
  "\<exists>t'. watchHostChanges sample_net (ne_dns sample_net) [''eth0''] ''1:4'' [(sample_host, [(''10.1.1.2/32'', 1000)])]
      ((NewTrafficController False)\<lparr>tcFilterPriority := 3047\<rparr>) False = ([(sample_host, [(''10.1.1.2/32'', 1000)])], t', True) \<and>
    tc_log t' = tc_log ((NewTrafficController False)\<lparr>tcFilterPriority := 3047\<rparr>) @ delete_cmds [''eth0''] (map snd [(''10.1.1.2/32'', 1000)])"
proof (rule watchHostChanges_exhausted [where nets = "[single_net [10, 1, 1, 1]]"])
  show "host_changed sample_net (ne_dns sample_net) sample_host [(''10.1.1.2/32'', 1000)]"
    unfolding host_changed_def sample_host_resolves
    apply (simp add: sample_host_def)
    apply code_simp
    done
qed (simp_all add: sample_host_share sample_host_resolves ok_tc_never_fails sample_net_flags NewTrafficController_def)

end
