(* ===== verification/Iptables.thy ===== *)
theory Iptables
  imports Disk_Driver "HOL-Library.Sublist"
begin

text \<open>
  The firewall rules of the injectors (\<open>src/network/iptables.go\<close>) on top of the binding to the program
  \<open>iptables\<close> (\<open>src/vendor/github.com/coreos/go-iptables/iptables/iptables.go\<close>).

  The program is a parameter: it maps its arguments and a state of the firewall to a result and the new
  state. What the proofs rely on is the predicate \<open>iptables_ok\<close>, the documented behaviour of the commands the
  code uses. The lock file of old versions of the program is a parameter as well: whether it could be taken.
\<close>

section \<open>The binding\<close>

text \<open>A run of the program: its exit status and output, or it could not be run.\<close>

datatype run_result = Exited nat string | Cannot_run

datatype ipt_error = Exit_status nat | Not_run | Path_and_class

record 'w ipt =
  ip_prog :: "string list \<Rightarrow> 'w \<Rightarrow> run_result \<times> 'w"
  ip_lock :: bool
  hasCheck :: bool
  hasWait :: bool
  waitSupportSecond :: bool
  ip_timeout :: nat

definition iptablesHasCheckCommand :: "nat \<Rightarrow> nat \<Rightarrow> nat \<Rightarrow> bool" where
  "iptablesHasCheckCommand v1 v2 v3 \<longleftrightarrow> v1 > 1 \<or> v1 = 1 \<and> v2 > 4 \<or> v1 = 1 \<and> v2 = 4 \<and> v3 \<ge> 11"

definition iptablesHasWaitCommand :: "nat \<Rightarrow> nat \<Rightarrow> nat \<Rightarrow> bool" where
  "iptablesHasWaitCommand v1 v2 v3 \<longleftrightarrow> v1 > 1 \<or> v1 = 1 \<and> v2 > 4 \<or> v1 = 1 \<and> v2 = 4 \<and> v3 \<ge> 20"

definition iptablesWaitSupportSecond :: "nat \<Rightarrow> nat \<Rightarrow> nat \<Rightarrow> bool" where
  "iptablesWaitSupportSecond v1 v2 v3 \<longleftrightarrow> v1 > 1 \<or> v1 = 1 \<and> v2 \<ge> 6"

text \<open>\<open>New\<close> without options, for a program of the given version.\<close>

definition go_New :: "(string list \<Rightarrow> 'w \<Rightarrow> run_result \<times> 'w) \<Rightarrow> bool \<Rightarrow> nat \<Rightarrow> nat \<Rightarrow> nat \<Rightarrow> 'w ipt" where
  "go_New prog lock v1 v2 v3 = \<lparr>ip_prog = prog, ip_lock = lock, hasCheck = iptablesHasCheckCommand v1 v2 v3,
     hasWait = iptablesHasWaitCommand v1 v2 v3, waitSupportSecond = iptablesWaitSupportSecond v1 v2 v3, ip_timeout = 0\<rparr>"

definition wait_args :: "'w ipt \<Rightarrow> string list" where
  "wait_args I =
     (if hasWait I then ''--wait'' # (if ip_timeout I \<noteq> 0 \<and> waitSupportSecond I then [Itoa (ip_timeout I)] else []) else [])"

definition runWithOutput :: "'w ipt \<Rightarrow> string list \<Rightarrow> 'w \<Rightarrow> run_result \<times> 'w" where
  "runWithOutput I args w =
     (if \<not> hasWait I \<and> \<not> ip_lock I then (Cannot_run, w) else ip_prog I (args @ wait_args I) w)"

fun run_error :: "run_result \<Rightarrow> ipt_error option" where
  "run_error Cannot_run = Some Not_run"
| "run_error (Exited n out) = (if n = 0 then None else Some (Exit_status n))"

definition ipt_run :: "'w ipt \<Rightarrow> string list \<Rightarrow> 'w \<Rightarrow> ipt_error option \<times> 'w" where
  "ipt_run I args w = (case runWithOutput I args w of (r, w) \<Rightarrow> (run_error r, w))"

text \<open>An exit status of 1 means no, every other failure is an error.\<close>

definition yes_or_no :: "ipt_error option \<times> 'w \<Rightarrow> (ipt_error + bool) \<times> 'w" where
  "yes_or_no = (\<lambda>(e, w). (case e of None \<Rightarrow> Inr True
     | Some e \<Rightarrow> if e = Exit_status 1 then Inr False else Inl e, w))"

fun joined :: "string list \<Rightarrow> string" where
  "joined [] = []"
| "joined [x] = x"
| "joined (x # y # ys) = x @ '' '' @ joined (y # ys)"

definition existsForOldIptables :: "'w ipt \<Rightarrow> string \<Rightarrow> string \<Rightarrow> string list \<Rightarrow> 'w \<Rightarrow> (ipt_error + bool) \<times> 'w" where
  "existsForOldIptables I table chain rulespec w =
     (case runWithOutput I [''-t'', table, ''-S''] w of
        (Exited 0 out, w) \<Rightarrow> (Inr (sublist (joined ([''-A'', chain] @ rulespec)) out), w)
      | (r, w) \<Rightarrow> (Inl (the (run_error r)), w))"

definition ipt_Exists :: "'w ipt \<Rightarrow> string \<Rightarrow> string \<Rightarrow> string list \<Rightarrow> 'w \<Rightarrow> (ipt_error + bool) \<times> 'w" where
  "ipt_Exists I table chain rulespec w =
     (if \<not> hasCheck I then existsForOldIptables I table chain rulespec w
      else yes_or_no (ipt_run I ([''-t'', table, ''-C'', chain] @ rulespec) w))"

definition ipt_Insert :: "'w ipt \<Rightarrow> string \<Rightarrow> string \<Rightarrow> nat \<Rightarrow> string list \<Rightarrow> 'w \<Rightarrow> ipt_error option \<times> 'w" where
  "ipt_Insert I table chain pos rulespec w = ipt_run I ([''-t'', table, ''-I'', chain, Itoa pos] @ rulespec) w"

definition ipt_Delete :: "'w ipt \<Rightarrow> string \<Rightarrow> string \<Rightarrow> string list \<Rightarrow> 'w \<Rightarrow> ipt_error option \<times> 'w" where
  "ipt_Delete I table chain rulespec w = ipt_run I ([''-t'', table, ''-D'', chain] @ rulespec) w"

definition ChainExists :: "'w ipt \<Rightarrow> string \<Rightarrow> string \<Rightarrow> 'w \<Rightarrow> (ipt_error + bool) \<times> 'w" where
  "ChainExists I table chain w = yes_or_no (ipt_run I [''-t'', table, ''-S'', chain, ''1''] w)"

definition NewChain :: "'w ipt \<Rightarrow> string \<Rightarrow> string \<Rightarrow> 'w \<Rightarrow> ipt_error option \<times> 'w" where
  "NewChain I table chain w = ipt_run I [''-t'', table, ''-N'', chain] w"

definition DeleteChain :: "'w ipt \<Rightarrow> string \<Rightarrow> string \<Rightarrow> 'w \<Rightarrow> ipt_error option \<times> 'w" where
  "DeleteChain I table chain w = ipt_run I [''-t'', table, ''-X'', chain] w"

section \<open>The rules of an injector\<close>

record rule =
  r_table :: string
  r_chain :: string
  rulespec :: "string list"

record iptables =
  it_dryRun :: bool
  injectedRules :: "rule list"

definition chaosChainName :: string where "chaosChainName = ''CHAOS-DNS''"

definition NewIPTables :: "bool \<Rightarrow> iptables" where
  "NewIPTables dryRun = \<lparr>it_dryRun = dryRun, injectedRules = []\<rparr>"

definition ensure_chain :: "'w ipt \<Rightarrow> string \<Rightarrow> string \<Rightarrow> 'w \<Rightarrow> ipt_error option \<times> 'w" where
  "ensure_chain I table chain w =
     (if chain \<noteq> chaosChainName then (None, w)
      else (case ChainExists I table chain w of
          (Inl e, w) \<Rightarrow> (Some e, w)
        | (Inr chainExists, w) \<Rightarrow> if chainExists then (None, w) else NewChain I table chain w))"

definition insert_rule ::
  "'w ipt \<Rightarrow> string \<Rightarrow> string \<Rightarrow> string list \<Rightarrow> iptables \<times> 'w \<Rightarrow> ipt_error option \<times> iptables \<times> 'w" where
  "insert_rule I table chain spec = (\<lambda>(i, w).
     if it_dryRun i then (None, i, w)
     else (case ensure_chain I table chain w of
         (Some e, w) \<Rightarrow> (Some e, i, w)
       | (None, w) \<Rightarrow>
           (case ipt_Exists I table chain spec w of
              (Inl e, w) \<Rightarrow> (Some e, i, w)
            | (Inr True, w) \<Rightarrow> (None, i, w)
            | (Inr False, w) \<Rightarrow>
                (case ipt_Insert I table chain 1 spec w of
                   (Some e, w) \<Rightarrow> (Some e, i, w)
                 | (None, w) \<Rightarrow>
                     (None, i\<lparr>injectedRules := injectedRules i @ [\<lparr>r_table = table, r_chain = chain, rulespec = spec\<rparr>]\<rparr>, w)))))"

fun clear_rules :: "'w ipt \<Rightarrow> rule list \<Rightarrow> 'w \<Rightarrow> ipt_error option \<times> 'w" where
  "clear_rules I [] w = (None, w)"
| "clear_rules I (r # rs) w =
     (case ipt_Delete I (r_table r) (r_chain r) (rulespec r) w of
        (None, w) \<Rightarrow> clear_rules I rs w
      | (Some e, w) \<Rightarrow>
          (case ipt_Exists I (r_table r) (r_chain r) (rulespec r) w of
             (Inl e', w) \<Rightarrow> (Some e', w)
           | (Inr present, w) \<Rightarrow> if present then (Some e, w) else clear_rules I rs w))"

text \<open>The result of the deletion of the chain is ignored, and the list of rules is kept.\<close>

definition ipt_Clear :: "'w ipt \<Rightarrow> iptables \<Rightarrow> 'w \<Rightarrow> ipt_error option \<times> 'w" where
  "ipt_Clear I i w =
     (if it_dryRun i then (None, w)
      else (case clear_rules I (injectedRules i) w of
          (Some e, w) \<Rightarrow> (Some e, w)
        | (None, w) \<Rightarrow> (None, snd (DeleteChain I ''nat'' chaosChainName w))))"

definition conntrack_spec :: "string list" where
  "conntrack_spec = [''-m'', ''state'', ''--state'', ''new,established'', ''-j'', ''LOG'']"

definition LogConntrack :: "'w ipt \<Rightarrow> iptables \<times> 'w \<Rightarrow> ipt_error option \<times> iptables \<times> 'w" where
  "LogConntrack I = insert_rule I ''nat'' ''OUTPUT'' conntrack_spec"

definition RedirectTo :: "'w ipt \<Rightarrow> string \<Rightarrow> string \<Rightarrow> string \<Rightarrow> iptables \<times> 'w \<Rightarrow> ipt_error option \<times> iptables \<times> 'w" where
  "RedirectTo I protocol port destination = insert_rule I ''nat'' chaosChainName
     [''-p'', protocol, ''--dport'', port, ''-j'', ''DNAT'', ''--to-destination'', destination]"

definition intercept_spec :: "string \<Rightarrow> string \<Rightarrow> string \<Rightarrow> string \<Rightarrow> string \<Rightarrow> string list" where
  "intercept_spec protocol port cgroupPath cgroupClassID injectorPodIP =
     (if protocol \<noteq> '''' then [''-p'', protocol] else []) @ (if port \<noteq> '''' then [''--dport'', port] else []) @
     (if injectorPodIP \<noteq> '''' then [''!'', ''-s'', injectorPodIP] else []) @
     (if cgroupPath \<noteq> '''' then [''-m'', ''cgroup'', ''--path'', cgroupPath] else []) @
     (if cgroupClassID \<noteq> '''' then [''-m'', ''cgroup'', ''--cgroup'', cgroupClassID] else []) @ [''-j'', chaosChainName]"

definition Intercept ::
  "'w ipt \<Rightarrow> string \<Rightarrow> string \<Rightarrow> string \<Rightarrow> string \<Rightarrow> string \<Rightarrow> iptables \<times> 'w \<Rightarrow> ipt_error option \<times> iptables \<times> 'w" where
  "Intercept I protocol port cgroupPath cgroupClassID injectorPodIP s =
     (if cgroupPath \<noteq> '''' \<and> cgroupClassID \<noteq> '''' then (Some Path_and_class, s)
      else (let spec = intercept_spec protocol port cgroupPath cgroupClassID injectorPodIP
        in case insert_rule I ''nat'' ''OUTPUT'' spec s of
             (Some e, s) \<Rightarrow> (Some e, s)
           | (None, s) \<Rightarrow>
               if cgroupPath = '''' \<and> cgroupClassID = '''' then insert_rule I ''nat'' ''PREROUTING'' spec s else (None, s)))"

definition MarkCgroupPath :: "'w ipt \<Rightarrow> string \<Rightarrow> string \<Rightarrow> iptables \<times> 'w \<Rightarrow> ipt_error option \<times> iptables \<times> 'w" where
  "MarkCgroupPath I cgroupPath mark = insert_rule I ''mangle'' ''POSTROUTING''
     [''-m'', ''cgroup'', ''--path'', cgroupPath, ''-j'', ''MARK'', ''--set-mark'', mark]"

definition MarkClassID :: "'w ipt \<Rightarrow> string \<Rightarrow> string \<Rightarrow> iptables \<times> 'w \<Rightarrow> ipt_error option \<times> iptables \<times> 'w" where
  "MarkClassID I classID mark = insert_rule I ''mangle'' ''POSTROUTING''
     [''-m'', ''cgroup'', ''--cgroup'', classID, ''-j'', ''MARK'', ''--set-mark'', mark]"

text \<open>The operations a client may call, and a sequence of calls whatever their results.\<close>

datatype ipt_op = Log_conntrack | Redirect_to string string string | Intercept_op string string string string string
  | Mark_path string string | Mark_class string string

fun ipt_apply :: "'w ipt \<Rightarrow> ipt_op \<Rightarrow> iptables \<times> 'w \<Rightarrow> ipt_error option \<times> iptables \<times> 'w" where
  "ipt_apply I Log_conntrack s = LogConntrack I s"
| "ipt_apply I (Redirect_to p port dst) s = RedirectTo I p port dst s"
| "ipt_apply I (Intercept_op p port path cls ip) s = Intercept I p port path cls ip s"
| "ipt_apply I (Mark_path path mrk) s = MarkCgroupPath I path mrk s"
| "ipt_apply I (Mark_class cls mrk) s = MarkClassID I cls mrk s"

fun ipt_calls :: "'w ipt \<Rightarrow> ipt_op list \<Rightarrow> iptables \<times> 'w \<Rightarrow> iptables \<times> 'w" where
  "ipt_calls I [] s = s"
| "ipt_calls I (op # ops) s = ipt_calls I ops (snd (ipt_apply I op s))"

section \<open>What is documented of the program\<close>

type_synonym firewall = "string \<Rightarrow> string \<Rightarrow> string list list option"

definition chain_set :: "firewall \<Rightarrow> string \<Rightarrow> string \<Rightarrow> string list list option \<Rightarrow> firewall" where
  "chain_set R t c v = R(t := (R t)(c := v))"

text \<open>
  \<open>rules\<close> gives the rules of each chain of each table, and nothing for a chain that does not exist. The
  options \<open>W\<close> follow every command. A check and a listing answer with the exit status and change nothing; an
  insertion at the first place, a new chain and the deletion of a chain do what they say or fail without an
  effect; the deletion of a rule removes the first such rule and fails when there is none.
\<close>

definition iptables_ok :: "(string list \<Rightarrow> 'w \<Rightarrow> run_result \<times> 'w) \<Rightarrow> string list \<Rightarrow> ('w \<Rightarrow> firewall) \<Rightarrow> bool" where
  "iptables_ok P W rules \<longleftrightarrow> (\<forall>w t c spec.
     (\<exists>out w'. P ([''-t'', t, ''-C'', c] @ spec @ W) w =
        (Exited (case rules w t c of None \<Rightarrow> 1 | Some rs \<Rightarrow> if spec \<in> set rs then 0 else 1) out, w') \<and> rules w' = rules w) \<and>
     (\<exists>out w'. P ([''-t'', t, ''-S'', c, ''1''] @ W) w =
        (Exited (case rules w t c of None \<Rightarrow> 1 | Some rs \<Rightarrow> 0) out, w') \<and> rules w' = rules w) \<and>
     (\<exists>r w'. P ([''-t'', t, ''-I'', c, ''1''] @ spec @ W) w = (r, w') \<and>
        (if run_error r = None then (\<exists>rs. rules w t c = Some rs \<and> rules w' = chain_set (rules w) t c (Some (spec # rs)))
         else rules w' = rules w)) \<and>
     (\<exists>r w'. P ([''-t'', t, ''-D'', c] @ spec @ W) w = (r, w') \<and>
        (case rules w t c of
           Some rs \<Rightarrow> if spec \<in> set rs then run_error r = None \<and> rules w' = chain_set (rules w) t c (Some (remove1 spec rs))
             else run_error r \<noteq> None \<and> rules w' = rules w
         | None \<Rightarrow> run_error r \<noteq> None \<and> rules w' = rules w)) \<and>
     (\<exists>r w'. P ([''-t'', t, ''-N'', c] @ W) w = (r, w') \<and>
        (if run_error r = None then rules w t c = None \<and> rules w' = chain_set (rules w) t c (Some [])
         else rules w' = rules w)) \<and>
     (\<exists>r w'. P ([''-t'', t, ''-X'', c] @ W) w = (r, w') \<and>
        (if run_error r = None then rules w t c = Some [] \<and> rules w' = chain_set (rules w) t c None
         else rules w' = rules w)))"

definition sound :: "'w ipt \<Rightarrow> ('w \<Rightarrow> firewall) \<Rightarrow> bool" where
  "sound I rules \<longleftrightarrow> hasCheck I \<and> (hasWait I \<or> ip_lock I) \<and> iptables_ok (ip_prog I) (wait_args I) rules"

lemma ipt_run_prog:
  "sound I rules \<Longrightarrow> ipt_run I args w = (case ip_prog I (args @ wait_args I) w of (r, w) \<Rightarrow> (run_error r, w))"
  by (auto simp: ipt_run_def runWithOutput_def sound_def)

lemma Itoa_1: "Itoa 1 = ''1''"
  by (simp add: Itoa.simps char_of_def bit_0)

definition present :: "firewall \<Rightarrow> string \<Rightarrow> string \<Rightarrow> string list \<Rightarrow> bool" where
  "present R t c spec \<longleftrightarrow> (\<exists>rs. R t c = Some rs \<and> spec \<in> set rs)"

lemma Exists_sound:
  assumes "sound I rules"
  obtains w' where "ipt_Exists I t c spec w = (Inr (present (rules w) t c spec), w')" and "rules w' = rules w"
proof -
  obtain out w' where "ip_prog I ([''-t'', t, ''-C'', c] @ spec @ wait_args I) w =
      (Exited (case rules w t c of None \<Rightarrow> 1 | Some rs \<Rightarrow> if spec \<in> set rs then 0 else 1) out, w')" "rules w' = rules w"
    using assms unfolding sound_def iptables_ok_def by blast
  then show ?thesis using assms
    by (intro that [of w'])
      (auto simp: ipt_Exists_def ipt_run_prog yes_or_no_def present_def sound_def split: option.splits)
qed

lemma ChainExists_sound:
  assumes "sound I rules"
  obtains w' where "ChainExists I t c w = (Inr (rules w t c \<noteq> None), w')" and "rules w' = rules w"
proof -
  obtain out w' where "ip_prog I ([''-t'', t, ''-S'', c, ''1''] @ wait_args I) w =
      (Exited (case rules w t c of None \<Rightarrow> 1 | Some rs \<Rightarrow> 0) out, w')" "rules w' = rules w"
    using assms unfolding sound_def iptables_ok_def by blast
  then show ?thesis using assms
    by (intro that [of w']) (auto simp: ChainExists_def ipt_run_prog yes_or_no_def split: option.splits)
qed

lemma Insert_sound:
  assumes "sound I rules" and "ipt_Insert I t c 1 spec w = (e, w')"
  shows "if e = None then \<exists>rs. rules w t c = Some rs \<and> rules w' = chain_set (rules w) t c (Some (spec # rs)) else rules w' = rules w"
proof -
  obtain r w2 where "ip_prog I ([''-t'', t, ''-I'', c, ''1''] @ spec @ wait_args I) w = (r, w2)"
    "if run_error r = None then \<exists>rs. rules w t c = Some rs \<and> rules w2 = chain_set (rules w) t c (Some (spec # rs))
     else rules w2 = rules w"
    using assms(1) unfolding sound_def iptables_ok_def by blast
  then show ?thesis using assms by (auto simp: ipt_Insert_def ipt_run_prog Itoa_1 [unfolded One_nat_def] split: if_splits)
qed

lemma Delete_sound:
  assumes "sound I rules"
  obtains e w' where "ipt_Delete I t c spec w = (e, w')" and "e = None \<longleftrightarrow> present (rules w) t c spec"
    and "rules w' = (if e = None then chain_set (rules w) t c (map_option (remove1 spec) (rules w t c)) else rules w)"
proof -
  obtain r w2 where P: "ip_prog I ([''-t'', t, ''-D'', c] @ spec @ wait_args I) w = (r, w2)"
    and d: "case rules w t c of
       Some rs \<Rightarrow> if spec \<in> set rs then run_error r = None \<and> rules w2 = chain_set (rules w) t c (Some (remove1 spec rs))
         else run_error r \<noteq> None \<and> rules w2 = rules w
     | None \<Rightarrow> run_error r \<noteq> None \<and> rules w2 = rules w"
    using assms unfolding sound_def iptables_ok_def by blast
  show ?thesis
    by (rule that [of "run_error r" w2])
      (use P d assms in \<open>auto simp: ipt_Delete_def ipt_run_prog present_def split: option.splits if_splits\<close>)
qed

lemma NewChain_sound:
  assumes "sound I rules" and "NewChain I t c w = (e, w')"
  shows "if e = None then rules w t c = None \<and> rules w' = chain_set (rules w) t c (Some []) else rules w' = rules w"
proof -
  obtain r w2 where "ip_prog I ([''-t'', t, ''-N'', c] @ wait_args I) w = (r, w2)"
    "if run_error r = None then rules w t c = None \<and> rules w2 = chain_set (rules w) t c (Some []) else rules w2 = rules w"
    using assms(1) unfolding sound_def iptables_ok_def by blast
  then show ?thesis using assms by (auto simp: NewChain_def ipt_run_prog split: if_splits)
qed

lemma DeleteChain_sound:
  assumes "sound I rules" and "DeleteChain I t c w = (e, w')"
  shows "if e = None then rules w t c = Some [] \<and> rules w' = chain_set (rules w) t c None else rules w' = rules w"
proof -
  obtain r w2 where "ip_prog I ([''-t'', t, ''-X'', c] @ wait_args I) w = (r, w2)"
    "if run_error r = None then rules w t c = Some [] \<and> rules w2 = chain_set (rules w) t c None else rules w2 = rules w"
    using assms(1) unfolding sound_def iptables_ok_def by blast
  then show ?thesis using assms by (auto simp: DeleteChain_def ipt_run_prog split: if_splits)
qed

section \<open>Cleaning up\<close>

text \<open>
  The rules an injector has on a chain, the newest first. A firewall with the rules of an injector in
  front of the rules of \<open>B\<close>, none of them twice.
\<close>

definition rules_on :: "rule list \<Rightarrow> string \<Rightarrow> string \<Rightarrow> string list list" where
  "rules_on js t c = rev (map rulespec (filter (\<lambda>r. r_table r = t \<and> r_chain r = c) js))"

definition on_top_at :: "rule list \<Rightarrow> firewall \<Rightarrow> firewall \<Rightarrow> string \<Rightarrow> string \<Rightarrow> bool" where
  "on_top_at js B R t c \<longleftrightarrow> (case B t c of
     None \<Rightarrow> R t c = None \<and> rules_on js t c = []
   | Some rs \<Rightarrow> R t c = Some (rules_on js t c @ rs) \<and> distinct (rules_on js t c) \<and> set (rules_on js t c) \<inter> set rs = {})"

definition on_top :: "rule list \<Rightarrow> firewall \<Rightarrow> firewall \<Rightarrow> bool" where
  "on_top js B R \<longleftrightarrow> (\<forall>t c. on_top_at js B R t c)"

lemma on_top_atI: "on_top js B R \<Longrightarrow> on_top_at js B R t c"
  by (simp add: on_top_def)

lemma on_top_atE:
  assumes "on_top js B R" and "R t c = Some rs"
  obtains bs where "B t c = Some bs" and "rs = rules_on js t c @ bs" and "distinct (rules_on js t c)"
    and "set (rules_on js t c) \<inter> set bs = {}"
  using on_top_atI [OF assms(1), of t c] assms(2) that by (cases "B t c") (auto simp: on_top_at_def)

lemma on_top_Nil: "on_top [] B R \<longleftrightarrow> R = B"
proof
  assume r: "on_top [] B R"
  show "R = B"
  proof (intro ext)
    fix t c show "R t c = B t c"
      using on_top_atI [OF r, of t c] by (simp add: on_top_at_def rules_on_def split: option.splits)
  qed
qed (simp add: on_top_def on_top_at_def rules_on_def split: option.splits)

lemma rules_on_snoc:
  "rules_on (js @ [\<lparr>r_table = t, r_chain = c, rulespec = spec\<rparr>]) t' c' =
     (if t = t' \<and> c = c' then spec # rules_on js t' c' else rules_on js t' c')"
  by (simp add: rules_on_def)

lemma rules_on_Cons:
  "rules_on (r # js) t c = rules_on js t c @ (if r_table r = t \<and> r_chain r = c then [rulespec r] else [])"
  by (simp add: rules_on_def)

lemma chain_set_at: "chain_set R t c v t' c' = (if t = t' \<and> c = c' then v else R t' c')"
  by (simp add: chain_set_def)

lemma on_top_insert:
  assumes "on_top js B R" and "R t c = Some rs" and "spec \<notin> set rs"
  shows "on_top (js @ [\<lparr>r_table = t, r_chain = c, rulespec = spec\<rparr>]) B (chain_set R t c (Some (spec # rs)))"
  unfolding on_top_def
proof (intro allI)
  fix t' c'
  obtain bs where b: "B t c = Some bs" "rs = rules_on js t c @ bs" "distinct (rules_on js t c)"
    "set (rules_on js t c) \<inter> set bs = {}"
    using on_top_atE [OF assms(1,2)] .
  show "on_top_at (js @ [\<lparr>r_table = t, r_chain = c, rulespec = spec\<rparr>]) B (chain_set R t c (Some (spec # rs))) t' c'"
    using on_top_atI [OF assms(1), of t' c'] b assms(3)
    by (cases "t = t' \<and> c = c'") (auto simp: on_top_at_def rules_on_snoc chain_set_at split: option.splits)
qed

lemma on_top_remove:
  assumes "on_top (r # js) B R"
  shows "present R (r_table r) (r_chain r) (rulespec r)"
    and "on_top js B (chain_set R (r_table r) (r_chain r) (map_option (remove1 (rulespec r)) (R (r_table r) (r_chain r))))"
proof -
  let ?t = "r_table r" and ?c = "r_chain r" and ?s = "rulespec r"
  have at: "on_top_at (r # js) B R ?t ?c" using assms by (rule on_top_atI)
  then obtain bs where b: "B ?t ?c = Some bs" "R ?t ?c = Some (rules_on js ?t ?c @ ?s # bs)" "?s \<notin> set (rules_on js ?t ?c)"
    "distinct (rules_on js ?t ?c)" "set (rules_on js ?t ?c) \<inter> set bs = {}"
    by (cases "B ?t ?c") (auto simp: on_top_at_def rules_on_Cons)
  then show "present R ?t ?c ?s" by (simp add: present_def)
  show "on_top js B (chain_set R ?t ?c (map_option (remove1 ?s) (R ?t ?c)))"
    unfolding on_top_def
  proof (intro allI)
    fix t c
    show "on_top_at js B (chain_set R ?t ?c (map_option (remove1 ?s) (R ?t ?c))) t c"
      using on_top_atI [OF assms, of t c] b
      by (cases "?t = t \<and> ?c = c") (auto simp: on_top_at_def rules_on_Cons chain_set_at remove1_append split: option.splits)
  qed
qed

lemma clear_rules_restores:
  assumes "sound I rules" and "on_top js B (rules w)"
  obtains w' where "clear_rules I js w = (None, w')" and "rules w' = B"
  using assms(2)
proof (induction js arbitrary: w thesis)
  case Nil
  then show ?case by (auto simp: on_top_Nil)
next
  case (Cons r js)
  obtain e w1 where d: "ipt_Delete I (r_table r) (r_chain r) (rulespec r) w = (e, w1)"
    "e = None \<longleftrightarrow> present (rules w) (r_table r) (r_chain r) (rulespec r)"
    "rules w1 = (if e = None then chain_set (rules w) (r_table r) (r_chain r)
       (map_option (remove1 (rulespec r)) (rules w (r_table r) (r_chain r))) else rules w)"
    using Delete_sound [OF assms(1)] .
  have "e = None" "on_top js B (rules w1)"
    using d on_top_remove [OF Cons.prems(2)] by simp_all
  then obtain w' where "clear_rules I js w1 = (None, w')" "rules w' = B" using Cons.IH by blast
  with d(1) \<open>e = None\<close> show ?case by (intro Cons.prems(1) [of w']) simp_all
qed

text \<open>
  The firewall \<open>R\<close> is the one of the start with the rules of the injector on top; only the chain of the
  injectors may have been created since.
\<close>

definition base_of :: "firewall \<Rightarrow> firewall \<Rightarrow> bool" where
  "base_of R0 B \<longleftrightarrow> B = R0 \<or> R0 ''nat'' chaosChainName = None \<and> B = chain_set R0 ''nat'' chaosChainName (Some [])"

definition holds :: "firewall \<Rightarrow> iptables \<Rightarrow> firewall \<Rightarrow> bool" where
  "holds R0 i R \<longleftrightarrow> (\<exists>B. base_of R0 B \<and> on_top (injectedRules i) B R)"

lemma holds_new_chain:
  assumes "holds R0 i R" and "R ''nat'' chaosChainName = None"
  shows "holds R0 i (chain_set R ''nat'' chaosChainName (Some []))"
proof -
  obtain B where B: "base_of R0 B" "on_top (injectedRules i) B R" using assms(1) unfolding holds_def by blast
  have n: "B ''nat'' chaosChainName = None" "rules_on (injectedRules i) ''nat'' chaosChainName = []"
    using on_top_atI [OF B(2), of "''nat''" chaosChainName] assms(2) by (auto simp: on_top_at_def split: option.splits)
  then have "B = R0" using B(1) by (auto simp: base_of_def chain_set_at)
  moreover have "on_top (injectedRules i) (chain_set B ''nat'' chaosChainName (Some [])) (chain_set R ''nat'' chaosChainName (Some []))"
    unfolding on_top_def
  proof (intro allI)
    fix t c
    show "on_top_at (injectedRules i) (chain_set B ''nat'' chaosChainName (Some [])) (chain_set R ''nat'' chaosChainName (Some [])) t c"
      using on_top_atI [OF B(2), of t c] n(2)
      by (cases "''nat'' = t \<and> chaosChainName = c") (auto simp: on_top_at_def chain_set_at split: option.splits)
  qed
  ultimately show ?thesis using n(1) unfolding holds_def base_of_def by blast
qed

lemma ensure_chain_sound:
  assumes "sound I rules" and "c = chaosChainName \<longrightarrow> t = ''nat''" and "holds R0 i (rules w)"
    and "ensure_chain I t c w = (e, w')"
  shows "holds R0 i (rules w')"
proof (cases "c = chaosChainName")
  case True
  obtain w1 where w1: "ChainExists I t c w = (Inr (rules w t c \<noteq> None), w1)" "rules w1 = rules w"
    using ChainExists_sound [OF assms(1)] .
  show ?thesis
  proof (cases "rules w t c")
    case None
    then have "NewChain I t c w1 = (e, w')" using assms(4) w1(1) True by (simp add: ensure_chain_def)
    then show ?thesis
      using NewChain_sound [OF assms(1)] holds_new_chain [OF assms(3)] assms(2,3) True w1(2) None by (fastforce split: if_splits)
  qed (use assms(3,4) w1 True in \<open>simp add: ensure_chain_def\<close>)
qed (use assms(3,4) in \<open>simp add: ensure_chain_def\<close>)

lemma insert_rule_sound:
  assumes "sound I rules" and "c = chaosChainName \<longrightarrow> t = ''nat''" and "holds R0 i (rules w)"
    and "insert_rule I t c spec (i, w) = (e, i', w')"
  shows "holds R0 i' (rules w') \<and> it_dryRun i' = it_dryRun i \<and> (e = None \<and> \<not> it_dryRun i \<longrightarrow> present (rules w') t c spec)"
proof (cases "it_dryRun i")
  case False
  obtain e1 w1 where c1: "ensure_chain I t c w = (e1, w1)" by fastforce
  have h1: "holds R0 i (rules w1)" by (rule ensure_chain_sound [OF assms(1-3) c1])
  obtain w2 where x: "ipt_Exists I t c spec w1 = (Inr (present (rules w1) t c spec), w2)" "rules w2 = rules w1"
    using Exists_sound [OF assms(1)] .
  show ?thesis
  proof (cases "e1 = None \<and> \<not> present (rules w1) t c spec")
    case True
    obtain e3 w3 where ins: "ipt_Insert I t c 1 spec w2 = (e3, w3)" by fastforce
    show ?thesis
    proof (cases e3)
      case None
      obtain rs where r: "rules w1 t c = Some rs" "rules w3 = chain_set (rules w1) t c (Some (spec # rs))"
        using Insert_sound [OF assms(1) ins] None x(2) by auto
      obtain B where B: "base_of R0 B" "on_top (injectedRules i) B (rules w1)" using h1 unfolding holds_def by blast
      have "spec \<notin> set rs" using True r(1) by (simp add: present_def)
      then have "on_top (injectedRules i @ [\<lparr>r_table = t, r_chain = c, rulespec = spec\<rparr>]) B (rules w3)"
        unfolding r(2) by (rule on_top_insert [OF B(2) r(1)])
      moreover have "e = None \<and> i' = i\<lparr>injectedRules := injectedRules i @ [\<lparr>r_table = t, r_chain = c, rulespec = spec\<rparr>]\<rparr> \<and> w' = w3"
        using assms(4) False c1 x ins True None by (simp add: insert_rule_def)
      moreover have "present (rules w3) t c spec" by (simp add: r(2) present_def chain_set_at)
      ultimately show ?thesis using B(1) unfolding holds_def by auto
    next
      case (Some e4)
      then have "rules w3 = rules w1" using Insert_sound [OF assms(1) ins] x(2) by simp
      then show ?thesis using Some assms(4) False c1 x ins True h1 by (auto simp: insert_rule_def)
    qed
  next
    case False
    then show ?thesis using assms(4) \<open>\<not> it_dryRun i\<close> c1 x h1 by (cases e1) (auto simp: insert_rule_def)
  qed
qed (use assms(3,4) in \<open>simp add: insert_rule_def\<close>)

lemma insert_rule_present:
  assumes "sound I rules" and "present (rules w) t' c' x" and "insert_rule I t c spec (i, w) = (e, i', w')"
  shows "present (rules w') t' c' x"
proof (cases "it_dryRun i")
  case False
  have set: "present (chain_set R t c (Some rs)) t' c' x" if "present R t' c' x" "R t c = None \<or> (\<exists>rs'. R t c = Some rs' \<and> set rs' \<subseteq> set rs)" for R rs
    using that by (auto simp: present_def chain_set_at)
  obtain e1 w1 where c1: "ensure_chain I t c w = (e1, w1)" by fastforce
  have p1: "present (rules w1) t' c' x"
  proof (cases "c = chaosChainName \<and> rules w t c = None")
    case True
    obtain w2 where w2: "ChainExists I t c w = (Inr (rules w t c \<noteq> None), w2)" "rules w2 = rules w"
      using ChainExists_sound [OF assms(1)] .
    then have "NewChain I t c w2 = (e1, w1)" using c1 True by (auto simp: ensure_chain_def)
    then have "rules w1 = chain_set (rules w) t c (Some []) \<or> rules w1 = rules w"
      using NewChain_sound [OF assms(1)] w2(2) by (metis (full_types))
    then show ?thesis using assms(2) set [OF assms(2), of "[]"] True by (elim disjE) auto
  next
    case False
    obtain w2 where w2: "ChainExists I t c w = (Inr (rules w t c \<noteq> None), w2)" "rules w2 = rules w"
      using ChainExists_sound [OF assms(1)] .
    then show ?thesis using c1 False assms(2) by (auto simp: ensure_chain_def split: if_splits)
  qed
  obtain w2 where x: "ipt_Exists I t c spec w1 = (Inr (present (rules w1) t c spec), w2)" "rules w2 = rules w1"
    using Exists_sound [OF assms(1)] .
  obtain e3 w3 where ins: "ipt_Insert I t c 1 spec w2 = (e3, w3)" by fastforce
  have "(\<exists>rs. rules w1 t c = Some rs \<and> rules w3 = chain_set (rules w1) t c (Some (spec # rs))) \<or> rules w3 = rules w1"
    using Insert_sound [OF assms(1) ins] x(2) by (metis (full_types))
  then have p3: "present (rules w3) t' c' x" using p1 set [OF p1] by (metis set_subset_Cons)
  have "w' \<in> {w1, w2, w3}"
    using assms(3) False c1 x(1) ins
    by (cases e1; cases e3; cases "present (rules w1) t c spec") (simp_all add: insert_rule_def)
  then show ?thesis using p1 p3 x(2) by auto
qed (use assms(2,3) in \<open>simp add: insert_rule_def\<close>)

lemma ipt_apply_sound:
  assumes "sound I rules" and "holds R0 i (rules w)" and "ipt_apply I op (i, w) = (e, i', w')"
  shows "holds R0 i' (rules w') \<and> it_dryRun i' = it_dryRun i"
proof -
  have one: "holds R0 i' (rules w') \<and> it_dryRun i' = it_dryRun i"
    if "insert_rule I t c spec (i, w) = (e, i', w')" "c = chaosChainName \<longrightarrow> t = ''nat''" "holds R0 i (rules w)" for t c spec i w e i' w'
    using insert_rule_sound [OF assms(1) that(2,3,1)] by blast
  show ?thesis
  proof (cases op)
    case (Intercept_op p port path cls ip)
    let ?spec = "intercept_spec p port path cls ip"
    obtain e1 i1 w1 where s1: "insert_rule I ''nat'' ''OUTPUT'' ?spec (i, w) = (e1, i1, w1)" by (cases "insert_rule I ''nat'' ''OUTPUT'' ?spec (i, w)") auto
    then have h1: "holds R0 i1 (rules w1)" "it_dryRun i1 = it_dryRun i"
      using one [OF s1] assms(2) by (simp_all add: chaosChainName_def)
    show ?thesis
    proof (cases "e1 = None \<and> path = '''' \<and> cls = ''''")
      case True
      then have "insert_rule I ''nat'' ''PREROUTING'' ?spec (i1, w1) = (e, i', w')"
        using assms(3) Intercept_op s1 by (simp add: Intercept_def)
      then show ?thesis using one [of "''nat''" "''PREROUTING''"] h1 by (simp add: chaosChainName_def)
    next
      case False
      then show ?thesis
        using assms(2,3) Intercept_op s1 h1 by (auto simp: Intercept_def split: if_splits option.splits)
    qed
  qed (use assms(2,3) one in \<open>auto simp: LogConntrack_def RedirectTo_def MarkCgroupPath_def MarkClassID_def chaosChainName_def\<close>)
qed

lemma ipt_calls_sound:
  assumes "sound I rules" and "holds R0 i (rules w)" and "ipt_calls I ops (i, w) = (i', w')"
  shows "holds R0 i' (rules w') \<and> it_dryRun i' = it_dryRun i"
  using assms(2,3)
proof (induction ops arbitrary: i w)
  case (Cons op ops)
  obtain e i1 w1 where a: "ipt_apply I op (i, w) = (e, i1, w1)" by (cases "ipt_apply I op (i, w)") auto
  from ipt_apply_sound [OF assms(1) Cons.prems(1) a] Cons.IH [of i1 w1] Cons.prems(2) a show ?case by auto
qed simp

text \<open>A firewall as it was, up to a chain of the injectors without rules.\<close>

definition restored :: "firewall \<Rightarrow> firewall \<Rightarrow> bool" where
  "restored R0 R \<longleftrightarrow> (\<forall>t c. R t c = R0 t c \<or>
     t = ''nat'' \<and> c = chaosChainName \<and> R0 t c \<in> {None, Some []} \<and> R t c \<in> {None, Some []})"

lemma holds_start: "holds R0 (NewIPTables dryRun) R0"
  unfolding holds_def base_of_def by (intro exI [of _ R0]) (simp add: NewIPTables_def on_top_Nil)

lemma ipt_Clear_sound:
  assumes "sound I rules" and "holds R0 i (rules w)" and "\<not> it_dryRun i"
  obtains w2 where "ipt_Clear I i w = (None, w2)" and "restored R0 (rules w2)"
proof -
  obtain B where B: "base_of R0 B" "on_top (injectedRules i) B (rules w)" using assms(2) unfolding holds_def by blast
  obtain w' where c: "clear_rules I (injectedRules i) w = (None, w')" "rules w' = B"
    using clear_rules_restores [OF assms(1) B(2)] .
  obtain e w2 where d: "DeleteChain I ''nat'' chaosChainName w' = (e, w2)" by fastforce
  have "rules w2 = B \<or> B ''nat'' chaosChainName = Some [] \<and> rules w2 = chain_set B ''nat'' chaosChainName None"
    using DeleteChain_sound [OF assms(1) d] c(2) by (auto split: if_splits)
  then have "restored R0 (rules w2)"
    using B(1) unfolding base_of_def restored_def by (auto simp: chain_set_at split: if_splits)
  then show ?thesis using c d assms(3) by (intro that [of w2]) (simp_all add: ipt_Clear_def)
qed

text \<open>
  C26: Cleaning up: whatever an injector has called, and whichever of the calls have failed, \<open>Clear\<close> succeeds and
  leaves every chain with the rules it had before the first call. Rules that were there already are kept;
  the chain of the injectors may be left without rules or be deleted when it has none.
\<close>

theorem ipt_Clear_restores:
  assumes "sound I rules" and "ipt_calls I ops (NewIPTables False, w) = (i, w1)"
  shows "\<exists>w2. ipt_Clear I i w1 = (None, w2) \<and> restored (rules w) (rules w2)"
proof -
  have "holds (rules w) i (rules w1)" "\<not> it_dryRun i"
    using ipt_calls_sound [OF assms(1) holds_start assms(2)] by (simp_all add: NewIPTables_def)
  then show ?thesis using ipt_Clear_sound [OF assms(1)] by blast
qed

text \<open>
  C38: Injectors share rules without knowing: when two of them enable connection tracking, the second finds the
  rule in place and does not remember it, and the first removes it when it cleans up although the other
  disruption goes on.
\<close>

theorem conntrack_rule_shared:
  assumes "sound I rules" and "rules w ''nat'' ''OUTPUT'' = Some rs" and "conntrack_spec \<notin> set rs"
    and "LogConntrack I (NewIPTables False, w) = (None, a, w1)" and "LogConntrack I (NewIPTables False, w1) = (None, b, w2)"
  shows "present (rules w2) ''nat'' ''OUTPUT'' conntrack_spec \<and> injectedRules b = [] \<and>
    (\<exists>w3. ipt_Clear I a w2 = (None, w3) \<and> \<not> present (rules w3) ''nat'' ''OUTPUT'' conntrack_spec)"
proof -
  have a: "holds (rules w) a (rules w1)" "\<not> it_dryRun a" "present (rules w1) ''nat'' ''OUTPUT'' conntrack_spec"
    using insert_rule_sound [OF assms(1) _ holds_start assms(4) [unfolded LogConntrack_def]] by (simp_all add: NewIPTables_def)
  obtain w' where x: "ipt_Exists I ''nat'' ''OUTPUT'' conntrack_spec w1 = (Inr True, w')" "rules w' = rules w1"
    using Exists_sound [OF assms(1), of "''nat''" "''OUTPUT''" conntrack_spec w1] a(3) by auto
  then have b: "b = NewIPTables False" "rules w2 = rules w1"
    using assms(5) by (auto simp: LogConntrack_def insert_rule_def NewIPTables_def ensure_chain_def chaosChainName_def)
  have "holds (rules w) a (rules w2)" using a(1) b(2) by simp
  then obtain w3 where c: "ipt_Clear I a w2 = (None, w3)" "restored (rules w) (rules w3)"
    using ipt_Clear_sound [OF assms(1) _ a(2)] by blast
  have "rules w3 ''nat'' ''OUTPUT'' = rules w ''nat'' ''OUTPUT''"
    using c(2) by (auto simp: restored_def chaosChainName_def)
  then have "\<not> present (rules w3) ''nat'' ''OUTPUT'' conntrack_spec" using assms(2,3) by (simp add: present_def)
  then show ?thesis using a(3) b c(1) by (simp add: NewIPTables_def)
qed

section \<open>An instance\<close>

text \<open>A program for tables of chains, and its answers.\<close>

fun fw_prog :: "string list \<Rightarrow> firewall \<Rightarrow> run_result \<times> firewall" where
  "fw_prog (dash_t # t # cmd # c # args) R =
     (let spec = (if args = [] then [] else butlast args)
      in if cmd = ''-C''
         then (Exited (case R t c of None \<Rightarrow> 1 | Some rs \<Rightarrow> if spec \<in> set rs then 0 else 1) [], R)
         else if cmd = ''-S'' then (Exited (case R t c of None \<Rightarrow> 1 | Some rs \<Rightarrow> 0) [], R)
         else if cmd = ''-I''
         then (case R t c of None \<Rightarrow> (Exited 1 [], R) | Some rs \<Rightarrow> (Exited 0 [], chain_set R t c (Some (tl spec # rs))))
         else if cmd = ''-D''
         then (case R t c of None \<Rightarrow> (Exited 1 [], R)
             | Some rs \<Rightarrow> if spec \<in> set rs then (Exited 0 [], chain_set R t c (Some (remove1 spec rs))) else (Exited 1 [], R))
         else if cmd = ''-N'' then (case R t c of None \<Rightarrow> (Exited 0 [], chain_set R t c (Some [])) | Some rs \<Rightarrow> (Exited 1 [], R))
         else if cmd = ''-X'' \<and> R t c = Some [] then (Exited 0 [], chain_set R t c None)
         else (Exited 1 [], R))"
| "fw_prog args R = (Exited 2 [], R)"

definition fw_ipt :: "firewall ipt" where
  "fw_ipt = go_New fw_prog True 1 8 9"

lemma fw_ipt_simps:
  "hasCheck fw_ipt" "hasWait fw_ipt" "wait_args fw_ipt = [''--wait'']" "ip_prog fw_ipt = fw_prog"
  by (simp_all add: fw_ipt_def go_New_def wait_args_def iptablesHasCheckCommand_def iptablesHasWaitCommand_def)

lemma prog_cases: "(case p of (r, w) \<Rightarrow> Q r w) \<Longrightarrow> \<exists>r w. p = (r, w) \<and> Q r w"
  by auto

lemma fw_sound: "sound fw_ipt (\<lambda>R. R)"
proof -
  have "iptables_ok fw_prog [''--wait''] (\<lambda>R. R)"
    unfolding iptables_ok_def by (intro allI conjI; (rule prog_cases)?; auto split: option.splits)
  then show ?thesis by (simp add: sound_def fw_ipt_simps)
qed

lemma fw_run: "ipt_run fw_ipt args w = (case fw_prog (args @ [''--wait'']) w of (r, w) \<Rightarrow> (run_error r, w))"
  by (simp add: ipt_run_prog [OF fw_sound] fw_ipt_simps)

definition fw_empty :: firewall where
  "fw_empty t c = (if t = ''nat'' \<and> c \<in> {''OUTPUT'', ''PREROUTING''} \<or> t = ''mangle'' \<and> c = ''POSTROUTING'' then Some [] else None)"

lemma fw_insert:
  assumes "\<not> it_dryRun i" and "w t c \<noteq> None" and "c \<noteq> chaosChainName"
  shows "\<exists>i' w'. insert_rule fw_ipt t c spec (i, w) = (None, i', w') \<and> (\<forall>t c. w' t c = None \<longleftrightarrow> w t c = None)"
proof -
  obtain rs where r: "w t c = Some rs" using assms(2) by blast
  have "ipt_Exists fw_ipt t c spec w = (Inr (spec \<in> set rs), w)"
    by (simp add: ipt_Exists_def fw_ipt_simps fw_run yes_or_no_def r)
  moreover have "ipt_Insert fw_ipt t c 1 spec w = (None, chain_set w t c (Some (spec # rs)))"
    by (simp add: ipt_Insert_def fw_ipt_simps fw_run r Itoa_1 [unfolded One_nat_def])
  ultimately show ?thesis
    using assms(1,3) r by (cases "spec \<in> set rs") (auto simp: insert_rule_def ensure_chain_def chain_set_at)
qed

theorem ipt_Clear_restores_witness:
  "\<exists>i w1 w2. ipt_calls fw_ipt [Log_conntrack, Redirect_to ''udp'' ''53'' ''10.0.0.2:5353'', Intercept_op ''udp'' ''53'' '''' '''' ''''] 
      (NewIPTables False, fw_empty) = (i, w1) \<and> ipt_Clear fw_ipt i w1 = (None, w2) \<and> restored fw_empty w2"
  using ipt_Clear_restores [OF fw_sound] by (metis surj_pair)

theorem conntrack_rule_shared_witness:
  "\<exists>a b w1 w2 w3. LogConntrack fw_ipt (NewIPTables False, fw_empty) = (None, a, w1) \<and>
     LogConntrack fw_ipt (NewIPTables False, w1) = (None, b, w2) \<and> present w2 ''nat'' ''OUTPUT'' conntrack_spec \<and>
     ipt_Clear fw_ipt a w2 = (None, w3) \<and> \<not> present w3 ''nat'' ''OUTPUT'' conntrack_spec"
proof -
  let ?w = "chain_set fw_empty ''nat'' ''OUTPUT'' (Some [conntrack_spec])"
  have c: "''OUTPUT'' \<noteq> chaosChainName" by (simp add: chaosChainName_def)
  have "ipt_Exists fw_ipt ''nat'' ''OUTPUT'' conntrack_spec fw_empty = (Inr False, fw_empty)"
    "ipt_Insert fw_ipt ''nat'' ''OUTPUT'' 1 conntrack_spec fw_empty = (None, ?w)"
    "ipt_Exists fw_ipt ''nat'' ''OUTPUT'' conntrack_spec ?w = (Inr True, ?w)"
    by (simp_all add: ipt_Exists_def ipt_Insert_def fw_ipt_simps fw_run yes_or_no_def fw_empty_def conntrack_spec_def
        chain_set_def Itoa_1 [unfolded One_nat_def])
  then obtain a b where l: "LogConntrack fw_ipt (NewIPTables False, fw_empty) = (None, a, ?w)"
    "LogConntrack fw_ipt (NewIPTables False, ?w) = (None, b, ?w)"
    by (simp add: LogConntrack_def insert_rule_def ensure_chain_def c NewIPTables_def)
  then show ?thesis
    using conntrack_rule_shared [OF fw_sound _ _ l, of "[]"] by (auto simp: fw_empty_def)
qed

end
