(* ===== verification/Net_Inject.thy ===== *)
theory Net_Inject
  imports Net_Operations Iptables Ebpf_Config Float64
begin

text \<open>
  \<open>Inject\<close> and \<open>Clean\<close> of the network disruption (\<open>src/injector/network_disruption.go\<close>): the check of the
  kernel, the operations that follow from the resource, the tree of \<open>tc\<close>, the firewall rules and the class
  id of the container, with what of \<open>src/cgroup/manager.go\<close> and \<open>src/netns/netns.go\<close> they use.

  The jitter of the delay is computed with the floating point numbers of \<open>Float64\<close>.
  Delays are natural numbers and durations nanoseconds; for the delays the API accepts, at most 60000
  milliseconds, no conversion leaves the range of its type.
\<close>

section \<open>The operations of a resource\<close>

record net_disruption =
  nd_spec :: net_spec
  nd_drop :: int
  nd_duplicate :: int
  nd_corrupt :: int
  nd_delay :: nat
  nd_jitter :: nat
  nd_bandwidth :: int

definition jitter_ms :: "nat \<Rightarrow> nat \<Rightarrow> nat" where
  "jitter_ms delay delayJitter =
     (if delayJitter = 0 then f64_trunc (f64_mult (f64_nat delay) (f64_quot 1 10))
      else f64_trunc (f64_mult (f64_quot (round53 delayJitter) 100) (f64_nat delay)))"

definition jitter_ns :: "nat \<Rightarrow> nat \<Rightarrow> nat" where
  "jitter_ns delay delayJitter = max (round53 (jitter_ms delay delayJitter * 1000000)) (round53 1000000)"

definition disruption_ops :: "net_disruption \<Rightarrow> link_op list" where
  "disruption_ops d =
     (if nd_delay d > 0 \<or> nd_drop d > 0 \<or> nd_corrupt d > 0 \<or> nd_duplicate d > 0
      then [Netem (nd_delay d * 1000000) (jitter_ns (nd_delay d) (nd_jitter d)) (nd_drop d) (nd_corrupt d) (nd_duplicate d)] else []) @
     (if nd_bandwidth d > 0 then [Output_limit (nat (nd_bandwidth d))] else [])"

section \<open>The environment and the state\<close>

text \<open>A write to a file of the cgroup: done, the file does not exist, or another error.\<close>

datatype write_result = Written | Missing | Write_failed

record 'w inj_env =
  ie_net :: net_env
  ie_ipt :: "'w ipt"
  ie_uname :: "string option"
  ie_stat :: "string \<Rightarrow> bool"
  ie_features :: features
  ie_array_map :: bool
  ie_v2 :: bool
  ie_cgroup :: string
  ie_mount :: string
  ie_dryRun :: bool
  ie_write :: "string \<Rightarrow> write_result"

text \<open>
  The thread is in the target's network namespace or not, and how many times the goroutine has locked itself to its
  thread; the class ids written to the cgroup.
\<close>

record 'w inj_state =
  is_net :: net_state
  is_ipt :: iptables
  is_fw :: 'w
  is_ns :: bool
  is_locks :: nat
  is_classids :: "string list"

datatype inj_error = Inj_kernel | Inj_map_type | Inj_enter | Inj_net net_error | Inj_ipt ipt_error | Inj_cgroup | Inj_exit

type_synonym 'w inj_step = "'w inj_state \<Rightarrow> inj_error option \<times> 'w inj_state"

fun run_inj :: "'w inj_step list \<Rightarrow> 'w inj_step" where
  "run_inj [] s = (None, s)"
| "run_inj (f # fs) s = (case f s of (Some e, s) \<Rightarrow> (Some e, s) | (None, s) \<Rightarrow> run_inj fs s)"

section \<open>The steps\<close>

definition kernel_step :: "'w inj_env \<Rightarrow> net_disruption \<Rightarrow> 'w inj_step" where
  "kernel_step E d s =
     (if HasHTTPFilters (spec_http (nd_spec d))
      then if ValidateRequiredSystemConfig (ie_uname E) (ie_stat E) (ie_features E) \<noteq> [] then (Some Inj_kernel, s)
           else if \<not> ie_array_map E then (Some Inj_map_type, s) else (None, s)
      else (None, s))"

text \<open>
  \<open>Enter\<close> locks the goroutine to its thread before it changes the namespace, and \<open>Exit\<close> unlocks it before it
  changes back; neither is undone when the change fails. The goroutine is taken to stay on its thread between the
  two calls of \<open>Exit\<close>.
\<close>

definition enter_step :: "'w inj_env \<Rightarrow> 'w inj_step" where
  "enter_step E s =
     (let s = s\<lparr>is_locks := is_locks s + 1\<rparr>
      in if ne_enter (ie_net E) then (None, s\<lparr>is_ns := True\<rparr>) else (Some Inj_enter, s))"

definition exit_step :: "'w inj_env \<Rightarrow> 'w inj_step" where
  "exit_step E s =
     (let s = s\<lparr>is_locks := is_locks s - 1\<rparr>
      in if ne_exit (ie_net E) then (None, s\<lparr>is_ns := False\<rparr>) else (Some Inj_exit, s))"

definition net_to_inj :: "net_step \<Rightarrow> 'w inj_step" where
  "net_to_inj f s = (case f (is_net s) of (e, n) \<Rightarrow> (map_option Inj_net e, s\<lparr>is_net := n\<rparr>))"

definition ipt_to_inj :: "(iptables \<times> 'w \<Rightarrow> ipt_error option \<times> iptables \<times> 'w) \<Rightarrow> 'w inj_step" where
  "ipt_to_inj f s = (case f (is_ipt s, is_fw s) of (e, i, w) \<Rightarrow> (map_option Inj_ipt e, s\<lparr>is_ipt := i, is_fw := w\<rparr>))"

definition add_ops :: "net_disruption \<Rightarrow> 'w inj_step" where
  "add_ops d s = (None, s\<lparr>is_net := (is_net s)\<lparr>ns_operations := ns_operations (is_net s) @ disruption_ops d\<rparr>\<rparr>)"

definition tree_step :: "'w inj_env \<Rightarrow> net_disruption \<Rightarrow> 'w inj_step" where
  "tree_step E d s =
     (if ns_operations (is_net s) \<noteq> [] then net_to_inj (applyOperations (ie_net E) (nd_spec d)) s else (None, s))"

definition cgroup_Write :: "'w inj_env \<Rightarrow> string \<Rightarrow> 'w inj_state \<Rightarrow> write_result \<times> 'w inj_state" where
  "cgroup_Write E data s =
     (if ie_dryRun E then (Written, s)
      else (case ie_write E data of
          Written \<Rightarrow> (Written, s\<lparr>is_classids := is_classids s @ [data]\<rparr>)
        | r \<Rightarrow> (r, s)))"

definition RelativePath :: "'w inj_env \<Rightarrow> string" where
  "RelativePath E = (if prefix (ie_mount E) (ie_cgroup E) then drop (length (ie_mount E)) (ie_cgroup E) else ie_cgroup E)"

definition classid_step :: "'w inj_env \<Rightarrow> 'w inj_step" where
  "classid_step E s =
     (case cgroup_Write E InjectorCgroupClassID s of (r, s) \<Rightarrow> (if r = Written then None else Some Inj_cgroup, s))"

definition mark_packets :: "'w inj_env \<Rightarrow> 'w inj_step list" where
  "mark_packets E =
     (if ne_level (ie_net E) = Level_pod \<and> \<not> ne_on_init (ie_net E)
      then if ie_v2 E then [ipt_to_inj (MarkCgroupPath (ie_ipt E) (RelativePath E) InjectorCgroupClassID)]
           else [classid_step E, ipt_to_inj (MarkClassID (ie_ipt E) InjectorCgroupClassID InjectorCgroupClassID)]
      else [])"

definition Inject :: "'w inj_env \<Rightarrow> net_disruption \<Rightarrow> 'w inj_step" where
  "Inject E d = run_inj ([kernel_step E d, enter_step E, add_ops d, tree_step E d, ipt_to_inj (LogConntrack (ie_ipt E))] @
     mark_packets E @ [exit_step E])"

definition stop_watchers :: "'w inj_step" where
  "stop_watchers s = (None, s\<lparr>is_net := (is_net s)\<lparr>ns_services := None, ns_hosts := None\<rparr>\<rparr>)"

definition clear_firewall :: "'w inj_env \<Rightarrow> 'w inj_step" where
  "clear_firewall E s = (case ipt_Clear (ie_ipt E) (is_ipt s) (is_fw s) of (e, w) \<Rightarrow> (map_option Inj_ipt e, s\<lparr>is_fw := w\<rparr>))"

text \<open>A cgroup that is gone is no error.\<close>

definition reset_classid :: "'w inj_env \<Rightarrow> 'w inj_step" where
  "reset_classid E s =
     (if ie_v2 E then (None, s)
      else (case cgroup_Write E ''0'' s of (r, s) \<Rightarrow> (if r = Write_failed then Some Inj_cgroup else None, s)))"

definition Clean :: "'w inj_env \<Rightarrow> 'w inj_step" where
  "Clean E = run_inj [stop_watchers, enter_step E, net_to_inj (clearOperations (ie_net E)), clear_firewall E, exit_step E, reset_classid E]"

section \<open>The jitter\<close>

lemma f64_quot_tenth: "f64_quot 1 10 = (59029581035870568448, 69)"
proof -
  have b: "bit_len 10 = 4" "bit_len 59029581035870565171 = 66" by (simp_all add: bit_len.simps)
  have "round53 59029581035870565171 = 59029581035870568448" unfolding round53_def b Let_def by simp
  then show ?thesis unfolding f64_quot_def b Let_def by simp
qed

lemma jitter_linear:
  fixes M PD XD V d :: nat
  assumes "9007199254740992 * M \<le> 9007199254740993 * PD" and "9007199254740991 * PD \<le> 9007199254740992 * M"
    and "9007199254740992 * PD \<le> 9007199254740993 * XD" and "9007199254740991 * XD \<le> 9007199254740992 * PD"
    and "100 * XD \<le> 4722366482869645213696 * V + 100 * d" and "4722366482869645213696 * V \<le> 100 * XD + 100 * d"
    and "d \<le> 60000" and "V \<le> 6000000"
  shows "100 * M < 4722366482869645213696 * V + 4722366482869645213696"
    and "4722366482869645213696 * V \<le> 100 * M + 4722366482869645213696"
  using assms(1,3,5,7,8) apply linarith
  using assms(2,4,6,7,8) by linarith

lemma jitter_ms_eq:
  assumes "delay \<le> 60000" and "j \<le> 100"
  shows "if j = 0 then jitter_ms delay j = delay div 10
    else if 100 dvd j * delay then jitter_ms delay j \<in> {j * delay div 100 - 1, j * delay div 100}
    else jitter_ms delay j = j * delay div 100"
proof (cases "j = 0")
  case True
  define M where "M = round53 (delay * 59029581035870568448)"
  have "jitter_ms delay j = M div 2 ^ 69"
    using True assms by (simp add: jitter_ms_def f64_mult_def f64_nat_def f64_trunc_def round53_small f64_quot_tenth [unfolded One_nat_def] M_def)
  moreover have "delay div 10 * 2 ^ 69 \<le> M"
    unfolding M_def by (rule round53_above) (use assms(1) in auto)
  moreover have "M < 2 ^ 69 * (delay div 10 + 1)"
    using round53_error(1) [of "delay * 59029581035870568448"] assms(1) by (simp add: M_def)
  ultimately show ?thesis using True by (simp add: div_nat_eqI mult.commute)
next
  case False
  obtain P X where q: "f64_quot j 100 = (P, 72)"
    and X: "100 * X \<le> 4722366482869645213696 * j + 100" "4722366482869645213696 * j \<le> 100 * X + 100"
    and P: "9007199254740992 * P \<le> 9007199254740993 * X" "9007199254740991 * X \<le> 9007199254740992 * P"
    using f64_quot_100 .
  define M where "M = round53 (P * delay)"
  have t: "jitter_ms delay j = M div 4722366482869645213696"
    using False q assms by (simp add: jitter_ms_def f64_mult_def f64_nat_def f64_trunc_def round53_small M_def)
  have V: "j * delay \<le> 6000000" using mult_le_mono [OF assms(2,1)] by simp
  have m: "9007199254740992 * M \<le> 9007199254740993 * (P * delay)" "9007199254740991 * (P * delay) \<le> 9007199254740992 * M"
    using round53_error [of "P * delay"] by (simp_all only: M_def)
  have p: "9007199254740992 * (P * delay) \<le> 9007199254740993 * (X * delay)" "9007199254740991 * (X * delay) \<le> 9007199254740992 * (P * delay)"
    using mult_le_mono1 [OF P(1), of delay] mult_le_mono1 [OF P(2), of delay] by (simp_all only: mult.assoc)
  have x: "100 * (X * delay) \<le> 4722366482869645213696 * (j * delay) + 100 * delay"
    "4722366482869645213696 * (j * delay) \<le> 100 * (X * delay) + 100 * delay"
    using mult_le_mono1 [OF X(1), of delay] mult_le_mono1 [OF X(2), of delay] by (simp_all only: mult.assoc add_mult_distrib)
  note lin = jitter_linear [OF m p x assms(1) V]
  define V where "V = j * delay"
  define k where "k = V div 100"
  have k: "V = 100 * k + V mod 100" by (simp add: k_def)
  have up: "M < 4722366482869645213696 * (k + 1)"
    using lin(1) k unfolding V_def [symmetric] add_mult_distrib2 by linarith
  have lo: "4722366482869645213696 * k \<le> M + (if 100 dvd V then 4722366482869645213696 else 0)"
  proof (cases "100 dvd V")
    case True
    then show ?thesis using lin(2) k unfolding V_def [symmetric] by simp
  next
    case False
    then have "1 \<le> V mod 100" by (simp add: dvd_eq_mod_eq_0)
    then show ?thesis using False lin(2) k unfolding V_def [symmetric] by simp
  qed
  show ?thesis
  proof (cases "100 dvd V")
    case True
    have "M div 4722366482869645213696 < k + 1" using up by (intro less_mult_imp_div_less) (simp add: mult.commute)
    moreover have "k \<le> (M + 4722366482869645213696) div 4722366482869645213696"
      using lo True by (simp only: if_True less_eq_div_iff_mult_less_eq zero_less_numeral mult.commute)
    ultimately have "M div 4722366482869645213696 \<in> {k - 1, k}" by auto
    then show ?thesis using False True by (simp add: t k_def V_def)
  next
    case False
    then have "M div 4722366482869645213696 = k" using up lo by (intro div_nat_eqI) (simp_all add: mult.commute)
    then show ?thesis using \<open>j \<noteq> 0\<close> False by (simp add: t k_def V_def)
  qed
qed

text \<open>
  C39: The jitter is the given percentage of the delay in whole milliseconds, rounded down; without a percentage it
  is a tenth of the delay. Only when the share is itself a whole number of milliseconds the floating point
  computation may give one millisecond less. The duration that is passed on is this number of milliseconds, and
  one millisecond when it is 0. This holds for the delays and percentages the API accepts.
\<close>

theorem jitter_ms_bounds:
  assumes "delay \<le> 60000" and "j \<le> 100"
  shows "(if j = 0 then jitter_ms delay j = delay div 10
    else if 100 dvd j * delay then jitter_ms delay j \<in> {j * delay div 100 - 1, j * delay div 100}
    else jitter_ms delay j = j * delay div 100) \<and>
    jitter_ns delay j = max (jitter_ms delay j) 1 * 1000000"
proof -
  have "j * delay \<le> 100 * delay" using assms(2) by simp
  then have "j * delay div 100 \<le> delay" by linarith
  then have "jitter_ms delay j \<le> 60000"
    using jitter_ms_eq [OF assms] assms(1) by (auto split: if_splits)
  then have "round53 (jitter_ms delay j * 1000000) = jitter_ms delay j * 1000000" "round53 1000000 = 1000000"
    by (intro round53_small; simp)+
  then have "jitter_ns delay j = max (jitter_ms delay j) 1 * 1000000"
    unfolding jitter_ns_def by (cases "jitter_ms delay j") (simp_all add: max_def)
  with jitter_ms_eq [OF assms] show ?thesis by simp
qed

theorem jitter_ms_bounds_witness: "jitter_ms 250 33 = 82 \<and> jitter_ms 250 0 = 25 \<and> jitter_ns 250 33 = 82000000 \<and> jitter_ns 2 0 = 1000000"
  using jitter_ms_bounds [of 250 33] jitter_ms_bounds [of 250 0] jitter_ms_bounds [of 2 0] by simp

text \<open>The loss of a millisecond: 29 percent of 100 milliseconds.\<close>

lemma jitter_29: "jitter_ms 100 29 = 28"
proof -
  have b: "bit_len 100 = 7" "bit_len 1369486280032197111971 = 71" "bit_len 136948628003219701760000 = 77" by (simp_all add: bit_len.simps)
  have q: "f64_quot 29 100 = (1369486280032197017600, 72)" unfolding f64_quot_def b Let_def by (simp add: round53_def b)
  then show ?thesis
    by (simp add: jitter_ms_def round53_small f64_mult_def f64_nat_def f64_trunc_def) (simp add: round53_def b)
qed

section \<open>The controller over an injection\<close>

definition del_root :: "string \<Rightarrow> string list" where
  "del_root i = Split (''qdisc del dev '' @ i @ '' root'')"

text \<open>Deleting the root discipline works, or there was none.\<close>

definition clears :: "executor \<Rightarrow> bool" where
  "clears X \<longleftrightarrow> (\<forall>lg i code failed. X lg (del_root i) = (code, failed) \<longrightarrow> failed \<longrightarrow> code = 2)"

lemma ClearQdisc_all:
  assumes "clears X" and "\<not> tc_dryRun t"
  shows "ClearQdisc X ifaces t = (None, t\<lparr>tc_log := tc_log t @ map del_root ifaces\<rparr>)"
  using assms(2)
proof (induction ifaces arbitrary: t)
  case (Cons i ifaces)
  obtain code failed where x: "X (tc_log t) (del_root i) = (code, failed)" by fastforce
  then have "\<not> (failed \<and> code \<noteq> 2)" using assms(1) unfolding clears_def by blast
  then show ?case using Cons x by (auto simp: tc_Run_def del_root_def)
qed simp

lemma run_ifaces_keeps: "run_ifaces X mk ifaces t = (e, t') \<Longrightarrow> tc_dryRun t' = tc_dryRun t"
  by (induction ifaces arbitrary: t) (auto simp: tc_Run_def split: prod.splits if_splits)

lemma AddFilter_keeps:
  "AddFilter X ifaces parent handle srcIP dstIP srcPort dstPort protocol connState flowid t = (r, t') \<Longrightarrow> tc_dryRun t' = tc_dryRun t"
  by (auto simp: AddFilter_def getNewPriority_def Let_def dest!: run_ifaces_keeps split: prod.splits sum.splits option.splits if_splits)

lemma add_host_filters_keeps: "add_host_filters X ifaces h flowid xs t = (r, t') \<Longrightarrow> tc_dryRun t' = tc_dryRun t"
proof (induction xs arbitrary: t r)
  case (Cons x xs)
  obtain ip p where x: "x = (ip, p)" by fastforce
  show ?case
    using Cons.prems unfolding x
    by (auto dest!: AddFilter_keeps Cons.IH simp del: if_split split: prod.splits sum.splits)
qed simp

lemma add_hosts_keeps: "add_hosts N ifaces flowid hs m t = (r, t') \<Longrightarrow> tc_dryRun t' = tc_dryRun t"
proof (induction hs arbitrary: m t)
  case (Cons h hs)
  show ?case
    using Cons.prems
    by (auto simp: Let_def dest!: add_host_filters_keeps Cons.IH split: prod.splits sum.splits option.splits if_splits)
qed simp

definition keeps_dry :: "net_step \<Rightarrow> bool" where
  "keeps_dry f \<longleftrightarrow> (\<forall>s. tc_dryRun (ns_tc (snd (f s))) = tc_dryRun (ns_tc s))"

lemma keeps_dry_tc:
  "keeps_dry (tc_step (AddPrio X ifs P H n m))" "keeps_dry (tc_step (AddBPFFilter X ifs P obj F sec))"
  "keeps_dry (tc_step (AddFlowerFilter X ifs P H F))" "keeps_dry (tc_step (perform X ifs P H op))"
  by (cases op; auto simp: keeps_dry_def tc_step_def AddPrio_def AddBPFFilter_def AddFlowerFilter_def AddNetem_def AddOutputLimit_def
      dest!: run_ifaces_keeps split: prod.splits)+

lemma keeps_dry_filter: "keeps_dry (filter_step (AddFilter X ifs P H sip dip sp dp p cs F))"
  by (auto simp: keeps_dry_def filter_step_def dest!: AddFilter_keeps split: prod.splits sum.splits)

lemma keeps_dry_other:
  "keeps_dry (ConfigBPFFilter N args)" "keeps_dry (allowed_hosts_step N spec ifs)" "keeps_dry (handleFiltersForHosts N spec ifs F)"
  "keeps_dry (handleFiltersForServices N spec)"
  by (auto simp: keeps_dry_def ConfigBPFFilter_def allowed_hosts_step_def handleFiltersForHosts_def handleFiltersForServices_def
      addFiltersForHosts_def dest!: add_hosts_keeps split: prod.splits sum.splits option.splits)

lemma list_all_op_steps: "list_all keeps_dry (op_steps X ifs P h ops)"
  by (induction ops arbitrary: P h) (simp_all add: keeps_dry_tc)

lemma all_steps_keep_dry: "list_all keeps_dry (all_steps N spec ifs defaultRoutes nodeIP ops)"
proof -
  have "list_all keeps_dry (tree_steps N spec ifs ops)"
    by (simp add: tree_steps_def http_steps_def mark_steps_def keeps_dry_tc keeps_dry_other list_all_op_steps split: option.split)
  moreover have "list_all keeps_dry (safeguard_steps N ifs defaultRoutes nodeIP)"
    by (auto simp: safeguard_steps_def allow_step_def keeps_dry_filter list_all_iff split: net_level.split)
  moreover have "list_all keeps_dry (target_steps N spec ifs)"
    by (auto simp: target_steps_def keeps_dry_filter keeps_dry_other list_all_iff)
  ultimately show ?thesis by (simp add: all_steps_def keeps_dry_tc keeps_dry_other)
qed

lemma run_steps_keep_dry: "list_all keeps_dry fs \<Longrightarrow> keeps_dry (run_steps fs)"
proof (induction fs)
  case (Cons f fs)
  then have "keeps_dry f" "keeps_dry (run_steps fs)" by simp_all
  show ?case
    unfolding keeps_dry_def
  proof
    fix s
    obtain e s1 where f: "f s = (e, s1)" by fastforce
    then have "tc_dryRun (ns_tc s1) = tc_dryRun (ns_tc s)"
      using \<open>keeps_dry f\<close> unfolding keeps_dry_def by (metis snd_conv)
    then show "tc_dryRun (ns_tc (snd (run_steps (f # fs) s))) = tc_dryRun (ns_tc s)"
      using f \<open>keeps_dry (run_steps fs)\<close> by (cases e) (simp_all add: keeps_dry_def)
  qed
qed (simp add: keeps_dry_def)

lemma applyOperations_keeps_dry: "tc_dryRun (ns_tc (snd (applyOperations N spec s))) = tc_dryRun (ns_tc s)"
proof -
  have "tc_dryRun (ns_tc s1) = tc_dryRun (ns_tc s)"
    if "run_steps (all_steps N spec ifaces defaultRoutes nodeIP ops) (s\<lparr>ns_qlen := q\<rparr>) = (e, s1)" for ifaces defaultRoutes nodeIP ops q e s1
    using run_steps_keep_dry [OF all_steps_keep_dry, unfolded keeps_dry_def, rule_format, of N spec ifaces defaultRoutes nodeIP ops "s\<lparr>ns_qlen := q\<rparr>"]
      that by simp
  then show ?thesis by (auto simp: applyOperations_def split: option.splits prod.splits)
qed

section \<open>Injecting and cleaning up\<close>

lemma run_inj_invariant:
  assumes "\<And>f s e s'. f \<in> set fs \<Longrightarrow> I s \<Longrightarrow> f s = (e, s') \<Longrightarrow> I s'" and "I s" and "run_inj fs s = (e, s')"
  shows "I s'"
  using assms
proof (induction fs arbitrary: s)
  case (Cons f fs)
  obtain e1 s1 where f: "f s = (e1, s1)" by fastforce
  then have "I s1" using Cons.prems(1,2) by (metis list.set_intros(1))
  show ?case
  proof (cases e1)
    case None
    then have "run_inj fs s1 = (e, s')" using Cons.prems(3) f by simp
    moreover have "\<And>g s e s'. g \<in> set fs \<Longrightarrow> I s \<Longrightarrow> g s = (e, s') \<Longrightarrow> I s'" using Cons.prems(1) by (meson list.set_intros(2))
    ultimately show ?thesis using Cons.IH \<open>I s1\<close> by blast
  next
    case (Some e2)
    then show ?thesis using Cons.prems(3) f \<open>I s1\<close> by simp
  qed
qed simp

text \<open>
  What holds at every point of an injection, whatever has failed: the firewall is the one of the start
  with the injector's rules on top, and the queue lengths are those of the start.
\<close>

definition under_way :: "('w \<Rightarrow> firewall) \<Rightarrow> 'w inj_state \<Rightarrow> 'w inj_state \<Rightarrow> bool" where
  "under_way rules s0 s \<longleftrightarrow> holds (rules (is_fw s0)) (is_ipt s) (rules (is_fw s)) \<and> \<not> it_dryRun (is_ipt s) \<and>
     ns_qlen (is_net s) = ns_qlen (is_net s0) \<and> \<not> tc_dryRun (ns_tc (is_net s))"

definition links_ok :: "net_env \<Rightarrow> (string \<Rightarrow> nat) \<Rightarrow> bool" where
  "links_ok N q \<longleftrightarrow> (case ne_links N of None \<Rightarrow> True
     | Some links \<Rightarrow> distinct (map l_name links) \<and> (\<forall>l \<in> set links. l_txQLen l = q (l_name l) \<and> l_set_ok l 0))"

lemma ipt_to_inj_under_way:
  assumes "sound I rules" and "under_way rules s0 s" and "c = chaosChainName \<longrightarrow> t = ''nat''"
    and "ipt_to_inj (insert_rule I t c spec) s = (e, s')"
  shows "under_way rules s0 s' \<and> (e = None \<longrightarrow> present (rules (is_fw s')) t c spec)"
proof -
  obtain e1 i w where r: "insert_rule I t c spec (is_ipt s, is_fw s) = (e1, i, w)" by (cases "insert_rule I t c spec (is_ipt s, is_fw s)") auto
  have "holds (rules (is_fw s0)) (is_ipt s) (rules (is_fw s))" using assms(2) by (simp add: under_way_def)
  from insert_rule_sound [OF assms(1,3) this r] assms(2,4) r show ?thesis
    by (auto simp: ipt_to_inj_def under_way_def)
qed

lemma Inject_step_under_way:
  assumes "sound (ie_ipt E) rules" and "links_ok (ie_net E) (ns_qlen (is_net s0))"
    and "f \<in> set ([kernel_step E d, enter_step E, add_ops d, tree_step E d, ipt_to_inj (LogConntrack (ie_ipt E))] @ mark_packets E @ [exit_step E])"
    and "under_way rules s0 s" and "f s = (e, s')"
  shows "under_way rules s0 s'"
proof -
  have same: "under_way rules s0 s'" if "is_net s' = is_net s" "is_ipt s' = is_ipt s" "is_fw s' = is_fw s"
    using assms(4) that by (simp add: under_way_def)
  have "ns_qlen (snd (applyOperations (ie_net E) (nd_spec d) (is_net s))) = ns_qlen (is_net s)"
    by (rule applyOperations_qlen) (use assms(2,4) in \<open>auto simp: links_ok_def under_way_def\<close>)
  then have tree: "under_way rules s0 s'" if "tree_step E d s = (e, s')"
    using that assms(4) applyOperations_keeps_dry [of "ie_net E" "nd_spec d" "is_net s"]
    by (auto simp: tree_step_def net_to_inj_def under_way_def split: prod.splits if_splits)
  have ipt: "under_way rules s0 s'" if "ipt_to_inj (insert_rule (ie_ipt E) t c spec) s = (e, s')" "c \<noteq> chaosChainName" for t c spec
    using ipt_to_inj_under_way [OF assms(1,4) _ that(1)] that(2) by blast
  have cls: "under_way rules s0 s'" if "classid_step E s = (e, s')"
    using that by (intro same) (auto simp: classid_step_def cgroup_Write_def split: if_splits write_result.splits)
  have ops: "under_way rules s0 s'" if "add_ops d s = (e, s')"
    using that assms(4) by (auto simp: add_ops_def under_way_def)
  have rest: "under_way rules s0 s'" if "f \<in> {kernel_step E d, enter_step E, exit_step E}"
    using that assms(5) by (intro same) (auto simp: kernel_step_def enter_step_def exit_step_def Let_def split: if_splits)
  show ?thesis
    using assms(3,5) tree ops rest cls ipt [of "''nat''" "''OUTPUT''"] ipt [of "''mangle''" "''POSTROUTING''"]
    unfolding mark_packets_def LogConntrack_def MarkCgroupPath_def MarkClassID_def
    by (auto simp: chaosChainName_def split: if_splits)
qed

lemma Inject_under_way:
  assumes "sound (ie_ipt E) rules" and "links_ok (ie_net E) (ns_qlen (is_net s0))" and "under_way rules s0 s"
    and "Inject E d s = (e, s')"
  shows "under_way rules s0 s'"
  by (rule run_inj_invariant [where I = "under_way rules s0", OF _ assms(3) assms(4) [unfolded Inject_def]])
    (rule Inject_step_under_way [OF assms(1,2)])

lemma under_way_start:
  "is_ipt s = NewIPTables False \<Longrightarrow> \<not> tc_dryRun (ns_tc (is_net s)) \<Longrightarrow> under_way rules s s"
  using holds_start by (simp add: under_way_def) (simp add: NewIPTables_def)

text \<open>
  C13: Cleaning up undoes an injection, whether it succeeded or failed at any point. When the firewall program does
  what is documented, the root disciplines can be deleted and the namespace can be entered and left, \<open>Clean\<close> after
  \<open>Inject\<close> succeeds: the firewall is as before the injection, the root discipline of every interface is deleted,
  which takes the whole tree with it, the queue lengths are as before, the class id is reset, the watchers are
  stopped, no operation is left for the next injection, the thread is in its own namespace, and \<open>Clean\<close> has given
  back the lock on the thread that it took.
\<close>

theorem Inject_then_Clean:
  assumes "sound (ie_ipt E) rules" and "ne_links (ie_net E) = Some links" and "links_ok (ie_net E) (ns_qlen (is_net s))"
    and "clears (ne_exec (ie_net E))" and "ne_enter (ie_net E)" and "ne_exit (ie_net E)" and "ie_write E ''0'' \<noteq> Write_failed"
    and "is_ipt s = NewIPTables False" and "\<not> tc_dryRun (ns_tc (is_net s))" and "Inject E d s = (e, s1)"
  shows "\<exists>s2. Clean E s1 = (None, s2) \<and> restored (rules (is_fw s)) (rules (is_fw s2)) \<and>
    tc_log (ns_tc (is_net s2)) = tc_log (ns_tc (is_net s1)) @ map (del_root \<circ> l_name) links \<and>
    ns_qlen (is_net s2) = ns_qlen (is_net s) \<and>
    is_classids s2 = is_classids s1 @ (if ie_v2 E \<or> ie_dryRun E \<or> ie_write E ''0'' = Missing then [] else [''0'']) \<and>
    ns_services (is_net s2) = None \<and> ns_hosts (is_net s2) = None \<and> ns_operations (is_net s2) = [] \<and> \<not> is_ns s2 \<and>
    is_locks s2 = is_locks s1"
proof -
  have u: "under_way rules s s1"
    by (rule Inject_under_way [OF assms(1,3) under_way_start [OF assms(8,9)] assms(10)])
  then obtain w where w: "ipt_Clear (ie_ipt E) (is_ipt s1) (is_fw s1) = (None, w)" "restored (rules (is_fw s)) (rules w)"
    using ipt_Clear_sound [OF assms(1)] unfolding under_way_def by blast
  have q: "ClearQdisc (ne_exec (ie_net E)) (map l_name links) (ns_tc (is_net s1)) =
      (None, (ns_tc (is_net s1))\<lparr>tc_log := tc_log (ns_tc (is_net s1)) @ map (del_root \<circ> l_name) links\<rparr>)"
    using ClearQdisc_all [OF assms(4)] u by (simp add: under_way_def)
  show ?thesis
    using w q u assms(2,5-7)
    by (cases "ie_write E ''0''")
      (simp_all add: Clean_def stop_watchers_def enter_step_def net_to_inj_def clearOperations_def tc_step_def clear_firewall_def
        exit_step_def Let_def reset_classid_def cgroup_Write_def under_way_def)
qed

definition mark_spec :: "'w inj_env \<Rightarrow> string list" where
  "mark_spec E =
     [''-m'', ''cgroup''] @ (if ie_v2 E then [''--path'', RelativePath E] else [''--cgroup'', InjectorCgroupClassID]) @
     [''-j'', ''MARK'', ''--set-mark'', InjectorCgroupClassID]"

lemma run_inj_Cons: "run_inj (f # fs) s = (None, s') \<longleftrightarrow> (\<exists>s1. f s = (None, s1) \<and> run_inj fs s1 = (None, s'))"
  by (auto split: prod.splits option.splits)

lemma ipt_to_inj_None:
  "ipt_to_inj f s = (None, s') \<longleftrightarrow> (\<exists>i w. f (is_ipt s, is_fw s) = (None, i, w) \<and> s' = s\<lparr>is_ipt := i, is_fw := w\<rparr>)"
  by (auto simp: ipt_to_inj_def split: prod.splits)

lemma tree_step_None:
  "ns_operations (is_net s) \<noteq> [] \<Longrightarrow> tree_step E d s = (None, s') \<longleftrightarrow>
     (\<exists>n. applyOperations (ie_net E) (nd_spec d) (is_net s) = (None, n) \<and> s' = s\<lparr>is_net := n\<rparr>)"
  by (auto simp: tree_step_def net_to_inj_def split: prod.splits)

text \<open>The parts of a successful injection.\<close>

lemma Inject_None:
  assumes "disruption_ops d \<noteq> []" and "Inject E d s = (None, s')"
  obtains n i w where "applyOperations (ie_net E) (nd_spec d)
      ((is_net s)\<lparr>ns_operations := ns_operations (is_net s) @ disruption_ops d\<rparr>) = (None, n)"
    and "LogConntrack (ie_ipt E) (is_ipt s, is_fw s) = (None, i, w)"
    and "run_inj (mark_packets E @ [exit_step E]) (s\<lparr>is_locks := is_locks s + 1, is_ns := True, is_net := n, is_ipt := i, is_fw := w\<rparr>) = (None, s')"
    and "kernel_step E d s = (None, s)"
proof -
  obtain s0 s1 where "kernel_step E d s = (None, s0)" "enter_step E s0 = (None, s1)"
    using assms(2) by (auto simp: Inject_def run_inj_Cons simp del: run_inj.simps(2))
  then have "kernel_step E d s = (None, s)" "enter_step E s = (None, s\<lparr>is_locks := is_locks s + 1, is_ns := True\<rparr>)"
    by (auto simp: kernel_step_def enter_step_def Let_def split: if_splits)
  then show ?thesis
    using assms that by (auto simp: Inject_def run_inj_Cons add_ops_def tree_step_None ipt_to_inj_None simp del: run_inj.simps(2))
qed

lemma mark_packets_net:
  "run_inj (mark_packets E @ [exit_step E]) s = (None, s') \<Longrightarrow> is_net s' = is_net s \<and> \<not> is_ns s' \<and> is_locks s' = is_locks s - 1"
  by (auto simp: mark_packets_def run_inj_Cons ipt_to_inj_None exit_step_def Let_def classid_step_def cgroup_Write_def
      simp del: run_inj.simps(2) split: if_splits write_result.splits)

lemma Inject_tree:
  assumes "disruption_ops d \<noteq> []" and "Inject E d s = (None, s')"
  shows "applyOperations (ie_net E) (nd_spec d)
    ((is_net s)\<lparr>ns_operations := ns_operations (is_net s) @ disruption_ops d\<rparr>) = (None, is_net s')"
proof -
  obtain n i w where "applyOperations (ie_net E) (nd_spec d)
      ((is_net s)\<lparr>ns_operations := ns_operations (is_net s) @ disruption_ops d\<rparr>) = (None, n)"
    and "run_inj (mark_packets E @ [exit_step E]) (s\<lparr>is_locks := is_locks s + 1, is_ns := True, is_net := n, is_ipt := i, is_fw := w\<rparr>) = (None, s')"
    using Inject_None [OF assms] .
  then show ?thesis by (auto dest!: mark_packets_net)
qed

text \<open>
  C25: What a successful injection has done: with HTTP filters the kernel has what the classifiers need; the tree is
  built for the operations of the resource, one for delay, loss, corruption and duplication and one for the
  bandwidth, as far as they are asked for; the rule that enables connection tracking is in the firewall, and in
  a pod the rule that marks the packets of the target's cgroup, by its path or by its class id, which has
  then been written to the cgroup; the thread is back in its own namespace, and the lock that ties it to the
  goroutine, which entering takes, is given back.
\<close>

theorem Inject_effects:
  assumes "sound (ie_ipt E) rules" and "is_ipt s = NewIPTables False" and "disruption_ops d \<noteq> []"
    and "Inject E d s = (None, s')"
  shows "applyOperations (ie_net E) (nd_spec d) ((is_net s)\<lparr>ns_operations := ns_operations (is_net s) @
      (if nd_delay d > 0 \<or> nd_drop d > 0 \<or> nd_corrupt d > 0 \<or> nd_duplicate d > 0
       then [Netem (nd_delay d * 1000000) (jitter_ns (nd_delay d) (nd_jitter d)) (nd_drop d) (nd_corrupt d) (nd_duplicate d)] else []) @
      (if nd_bandwidth d > 0 then [Output_limit (nat (nd_bandwidth d))] else [])\<rparr>) = (None, is_net s') \<and>
    (HasHTTPFilters (spec_http (nd_spec d)) \<longrightarrow>
      ValidateRequiredSystemConfig (ie_uname E) (ie_stat E) (ie_features E) = [] \<and> ie_array_map E) \<and>
    present (rules (is_fw s')) ''nat'' ''OUTPUT'' conntrack_spec \<and>
    (ne_level (ie_net E) = Level_pod \<and> \<not> ne_on_init (ie_net E) \<longrightarrow>
      present (rules (is_fw s')) ''mangle'' ''POSTROUTING'' (mark_spec E) \<and>
      (\<not> ie_v2 E \<and> \<not> ie_dryRun E \<longrightarrow> is_classids s' = is_classids s @ [InjectorCgroupClassID])) \<and>
    \<not> is_ns s' \<and> is_locks s' = is_locks s"
proof -
  let ?I = "ie_ipt E" and ?R0 = "rules (is_fw s)"
  obtain n i w where t: "applyOperations (ie_net E) (nd_spec d)
      ((is_net s)\<lparr>ns_operations := ns_operations (is_net s) @ disruption_ops d\<rparr>) = (None, n)"
    and l: "LogConntrack ?I (is_ipt s, is_fw s) = (None, i, w)"
    and m: "run_inj (mark_packets E @ [exit_step E]) (s\<lparr>is_locks := is_locks s + 1, is_ns := True, is_net := n, is_ipt := i, is_fw := w\<rparr>) = (None, s')"
    and k: "kernel_step E d s = (None, s)"
    using Inject_None [OF assms(3,4)] .
  have h: "holds ?R0 i (rules w)" "\<not> it_dryRun i" "present (rules w) ''nat'' ''OUTPUT'' conntrack_spec"
    using insert_rule_sound [OF assms(1) _ holds_start l [unfolded assms(2) LogConntrack_def]] by (simp_all add: NewIPTables_def)
  have mark: "present (rules w') ''mangle'' ''POSTROUTING'' x \<and> present (rules w') ''nat'' ''OUTPUT'' conntrack_spec"
    if "insert_rule ?I ''mangle'' ''POSTROUTING'' x (i, w) = (None, i', w')" for x i' w'
    using insert_rule_sound [OF assms(1) _ h(1) that] h(2) insert_rule_present [OF assms(1) h(3) that] by (simp add: chaosChainName_def)
  have kern: "HasHTTPFilters (spec_http (nd_spec d)) \<longrightarrow>
      ValidateRequiredSystemConfig (ie_uname E) (ie_stat E) (ie_features E) = [] \<and> ie_array_map E"
    using k by (auto simp: kernel_step_def split: if_splits)
  have rest: "present (rules (is_fw s')) ''nat'' ''OUTPUT'' conntrack_spec \<and>
    (ne_level (ie_net E) = Level_pod \<and> \<not> ne_on_init (ie_net E) \<longrightarrow>
      present (rules (is_fw s')) ''mangle'' ''POSTROUTING'' (mark_spec E) \<and>
      (\<not> ie_v2 E \<and> \<not> ie_dryRun E \<longrightarrow> is_classids s' = is_classids s @ [InjectorCgroupClassID])) \<and>
    is_net s' = n \<and> \<not> is_ns s' \<and> is_locks s' = is_locks s"
  proof (cases "ne_level (ie_net E) = Level_pod \<and> \<not> ne_on_init (ie_net E)")
    case True
    have "\<exists>i' w'. insert_rule ?I ''mangle'' ''POSTROUTING'' (mark_spec E) (i, w) = (None, i', w') \<and>
        is_net s' = n \<and> is_fw s' = w' \<and>
        (\<not> ie_v2 E \<and> \<not> ie_dryRun E \<longrightarrow> is_classids s' = is_classids s @ [InjectorCgroupClassID])"
    proof (cases "ie_v2 E")
      case v2: True
      then show ?thesis using m True
        by (auto simp: mark_packets_def run_inj_Cons ipt_to_inj_None exit_step_def Let_def MarkCgroupPath_def mark_spec_def
            simp del: run_inj.simps(2) split: if_splits)
    next
      case v1: False
      then show ?thesis using m True
        by (auto simp: mark_packets_def run_inj_Cons ipt_to_inj_None exit_step_def Let_def MarkClassID_def mark_spec_def
            classid_step_def cgroup_Write_def simp del: run_inj.simps(2) split: if_splits write_result.splits)
    qed
    then show ?thesis using mark mark_packets_net [OF m] by auto
  next
    case False
    then have "mark_packets E = []" by (simp add: mark_packets_def)
    then show ?thesis using m h(3) False by (auto simp: exit_step_def Let_def split: if_splits)
  qed
  then show ?thesis using t [unfolded disruption_ops_def] kern by simp
qed

section \<open>An instance of an injection\<close>

definition sample_inj :: "firewall inj_env" where
  "sample_inj = \<lparr>ie_net = sample_net, ie_ipt = fw_ipt, ie_uname = Some ''6.1'', ie_stat = \<lambda>p. True,
     ie_features = \<lparr>system_config = \<lambda>p. ''y'', HavePerfEventArrayMapType = True\<rparr>, ie_array_map = True, ie_v2 = True,
     ie_cgroup = ''/sys/fs/cgroup/kubepods/pod1'', ie_mount = ''/sys/fs/cgroup'', ie_dryRun = False, ie_write = \<lambda>v. Written\<rparr>"

definition sample_disruption :: net_disruption where
  "sample_disruption = \<lparr>nd_spec = sample_net_spec, nd_drop = 10, nd_duplicate = 0, nd_corrupt = 0, nd_delay = 100, nd_jitter = 0,
     nd_bandwidth = 0\<rparr>"

definition sample_inj_state :: "firewall inj_state" where
  "sample_inj_state = \<lparr>is_net = sample_net_state\<lparr>ns_operations := []\<rparr>, is_ipt = NewIPTables False, is_fw = fw_empty, is_ns = False,
     is_locks = 0, is_classids = []\<rparr>"

lemma sample_inj_simps:
  "ie_net sample_inj = sample_net" "ie_ipt sample_inj = fw_ipt" "is_ipt sample_inj_state = NewIPTables False"
  "is_net sample_inj_state = sample_net_state\<lparr>ns_operations := []\<rparr>" "nd_spec sample_disruption = sample_net_spec"
  "disruption_ops sample_disruption \<noteq> []" "\<not> tc_dryRun (ns_tc (is_net sample_inj_state))"
  by (simp_all add: sample_inj_def sample_inj_state_def sample_disruption_def disruption_ops_def sample_net_state_def NewTrafficController_def)

lemma sample_inj_env:
  "sound (ie_ipt sample_inj) (\<lambda>R. R)" "ne_links (ie_net sample_inj) = Some [sample_link]"
  "links_ok (ie_net sample_inj) (ns_qlen (is_net sample_inj_state))" "clears (ne_exec (ie_net sample_inj))"
  "ne_enter (ie_net sample_inj)" "ne_exit (ie_net sample_inj)" "ie_write sample_inj ''0'' \<noteq> Write_failed"
  by (simp_all add: sample_inj_simps fw_sound sample_net_simps(2) sample_net_flags links_ok_def clears_def ok_tc_def)
    (simp_all add: sample_link_def sample_net_state_def sample_inj_def)

lemma sample_Inject: "\<exists>s'. Inject sample_inj sample_disruption sample_inj_state = (None, s')"
proof -
  have k: "kernel_step sample_inj sample_disruption sample_inj_state = (None, sample_inj_state)"
    by (simp add: kernel_step_def sample_inj_def ValidateRequiredSystemConfig_def IsKernelConfigAvailable_def GetRequiredSystemConfig_def Enabled_def)
  let ?n = "(is_net sample_inj_state)\<lparr>ns_operations := disruption_ops sample_disruption\<rparr>"
  have "fst (applyOperations sample_net sample_net_spec ?n) = None"
    by (rule applyOperations_ok [OF sample_net_simps(1,2,4,5)])
      (use sample_net_simps in \<open>auto simp: sample_inj_simps sample_net_state_def\<close>)
  then obtain n where n: "applyOperations sample_net sample_net_spec ?n = (None, n)" by (metis prod.collapse)
  obtain i1 w1 where l: "LogConntrack fw_ipt (NewIPTables False, fw_empty) = (None, i1, w1)" "\<forall>t c. w1 t c = None \<longleftrightarrow> fw_empty t c = None"
    using fw_insert [of "NewIPTables False" fw_empty "''nat''" "''OUTPUT''" conntrack_spec]
    by (auto simp: LogConntrack_def NewIPTables_def fw_empty_def chaosChainName_def)
  have "\<not> it_dryRun i1"
    using insert_rule_sound [OF fw_sound _ holds_start l(1) [unfolded LogConntrack_def]] by (simp add: NewIPTables_def)
  moreover have "w1 ''mangle'' ''POSTROUTING'' \<noteq> None" using l(2) by (simp add: fw_empty_def)
  moreover have "''POSTROUTING'' \<noteq> chaosChainName" by (simp add: chaosChainName_def)
  ultimately obtain i2 w2 where m: "MarkCgroupPath fw_ipt (RelativePath sample_inj) InjectorCgroupClassID (i1, w1) = (None, i2, w2)"
    unfolding MarkCgroupPath_def by (metis (no_types) fw_insert)
  have "mark_packets sample_inj = [ipt_to_inj (MarkCgroupPath fw_ipt (RelativePath sample_inj) InjectorCgroupClassID)]"
    by (simp add: mark_packets_def sample_inj_def sample_net_def)
  then show ?thesis
    using k n l(1) m sample_inj_env(5,6) sample_inj_simps
    by (simp add: Inject_def enter_step_def Let_def add_ops_def tree_step_def net_to_inj_def ipt_to_inj_def exit_step_def)
      (simp add: sample_inj_state_def sample_net_state_def ipt_to_inj_def exit_step_def Let_def)
qed

theorem Inject_effects_witness:
  "\<exists>s'. Inject sample_inj sample_disruption sample_inj_state = (None, s') \<and> present (is_fw s') ''nat'' ''OUTPUT'' conntrack_spec \<and>
     present (is_fw s') ''mangle'' ''POSTROUTING'' (mark_spec sample_inj) \<and> \<not> is_ns s'"
proof -
  obtain s' where s': "Inject sample_inj sample_disruption sample_inj_state = (None, s')" using sample_Inject ..
  then show ?thesis
    using Inject_effects [OF sample_inj_env(1) sample_inj_simps(3,6) s', THEN conjunct2, THEN conjunct2] sample_net_simps(6,7)
    by (simp add: sample_inj_simps(1))
qed

theorem Inject_then_Clean_witness:
  "\<exists>s1 s2. Inject sample_inj sample_disruption sample_inj_state = (None, s1) \<and> Clean sample_inj s1 = (None, s2) \<and>
     restored fw_empty (is_fw s2) \<and> ns_operations (is_net s2) = [] \<and> \<not> is_ns s2"
proof -
  obtain s1 where s1: "Inject sample_inj sample_disruption sample_inj_state = (None, s1)" using sample_Inject ..
  then show ?thesis
    using Inject_then_Clean [OF sample_inj_env sample_inj_simps(3,7) s1] by (auto simp: sample_inj_state_def)
qed

end
