(* ===== verification/Spec2Isabelle.thy ===== *)
theory Spec2Isabelle
  imports Filter_Driver Ebpf_Config Disk_Smp Map_Low Net_Inject
begin

text \<open>
  A verification development for the eBPF disruptions of chaos-controller: the C programs that run in
  the kernel, the C part of the Go binding that loads them, and the Go code that validates a resource,
  turns it into arguments, configures the programs, and puts them to work in the network of the target.

  \<^bold>\<open>The program.\<close> Two disruptions are carried out by eBPF programs. The disk failure
  (\<open>src/ebpf/disk-failure/injection.bpf.c\<close>) is a kprobe on \<open>openat\<close> that overrides the result of
  calls on paths with a given prefix. The HTTP filters of the network disruption
  (\<open>src/ebpf/network-tc-filter/injection.bpf.c\<close>) are two tc classifiers that select packets by the method
  and the path of the request they carry. Around them, a resource is validated by the API server
  (\<open>src/api/v1beta1\<close>), becomes the command line of an injector pod (\<open>src/cli/injector\<close>,
  \<open>src/injector\<close>), and there the command line of a loader (\<open>main.go\<close> beside each program), which
  configures the program through libbpfgo: by global variables (disk failure) or by array maps
  (HTTP filters). The network injector (\<open>src/injector/network_disruption.go\<close>) builds the tree of
  \<open>tc\<close> disciplines the classifiers sit in (\<open>src/network/tc.go\<close>), marks the packets of the target by
  firewall rules (\<open>src/network/iptables.go\<close>), and follows the hosts and services that are disrupted.

  \<^bold>\<open>The theories\<close>, each importing the ones it builds on:

  \<^item> \<open>Prelude\<close>: bytes and words, C strings, slices and overwriting of buffers, padding, reads that can
    fail; the collections \<open>c_consts\<close> and \<open>layout_simps\<close>.

  \<^item> \<open>CLayout\<close>: C declarations as data and the size, alignment and offset the compiler gives them.
    For every declaration: fields in order, disjoint, aligned and inside.

  \<^item> \<open>Vmlinux_Amd64\<close>, \<open>Vmlinux_Aarch64\<close>: the declarations of the two \<open>vmlinux.h\<close> the programs
    reach (\<open>task_struct\<close> with every type it embeds, \<open>__sk_buff\<close>, the packet headers, \<open>bpf_attr\<close>, the
    enumerations), with their sizes and the offsets used.

  \<^item> \<open>Bpf_Endian\<close>: \<open>src/ebpf/includes/bpf_endian.h\<close>, macro by macro; the locale \<open>byte_swap\<close> is the
    contract the hand-written and the builtin swaps share.

  \<^item> \<open>Http\<close>: \<open>src/ebpf/includes/http.h\<close>. The locale \<open>net_headers\<close> states what the parser needs of
    the packet headers and is interpreted for both architectures; inside it the parser is shown equal
    to a reading of the wire formats.

  \<^item> \<open>Tc_Filter\<close>: the two classifiers. The locale \<open>prefix_scan\<close> captures the two scans over a map of
    prefixes; the classifiers are shown to match exactly the packets the filters allow, and never to
    leave an array. Every read and every store of an array checks its bounds, and an access outside them is the
    value \<open>Bad_access\<close>.

  \<^item> \<open>Disk_Failure\<close>: the kprobe. The locale \<open>task_layout\<close> is interpreted for both task structures.
    Which calls are selected, the rate over sequences of calls, and the reachable states as an
    inductive relation.

  \<^item> \<open>Disk_Smp\<close>: the rate limiter on several processors, whose single reads and writes of the two
    counters interleave: a processor that is not interrupted implements the sequential program, the counters stay
    within what the calls allow, and the rate can be missed.

  \<^item> \<open>Libbpfgo\<close>: \<open>libbpfgo.c\<close> of the vendored binding over a heap in which any allocation may
    fail; the locale \<open>opts_ctor\<close> is the contract of the four pairs of constructor and destructor.

  \<^item> \<open>Map_Low\<close>: the maps of libbpfgo on file descriptors (\<open>map-low.go\<close>, \<open>map-common.go\<close>), creation,
    search, description and batches, over a process with open descriptors and the heap of \<open>Libbpfgo\<close>. The
    loader of the filters is run again on this level and refines the one over map ids; which descriptors it
    leaves open is determined on every path.

  \<^item> \<open>Disk_Driver\<close>: \<open>InitGlobalVariable\<close> of libbpfgo, the loader of the disk failure, its resource,
    command and injector; the locale \<open>global_vars\<close> is the contract of setting variables by name.

  \<^item> \<open>Filter_Driver\<close>: validation and arguments of the HTTP filters, the search for maps by name in
    libbpfgo and the program that fills the maps.

  \<^item> \<open>Ebpf_Config\<close>: \<open>src/ebpf/validator.go\<close>, the check of the kernel's configuration.

  \<^item> \<open>Float64\<close>: the \<open>float64\<close> arithmetic of Go on the natural numbers and quotients the injectors compute with,
    rounded to 53 bits, ties to even, and how exact it is.

  \<^item> \<open>Traffic_Control\<close>: \<open>src/network/tc.go\<close> and the types beside it: every operation with the words of
    the commands it runs, the priorities of filters at 32 bits, and the share of the addresses that is disrupted.

  \<^item> \<open>Host_Resolver\<close>: \<open>src/injector/ipresolver.go\<close> with the notation of addresses and networks.

  \<^item> \<open>Service_Filters\<close>: the filters for Kubernetes services and their pods, and the handlers of their
    events. Lists that Go code shortens in place while it ranges over them are modelled with their aliasing.

  \<^item> \<open>Net_Operations\<close>: \<open>applyOperations\<close>, \<open>clearOperations\<close> and the watcher of hosts, as lists of steps
    over the state of the injector: which commands are run in which order, which filters are used first, when it
    succeeds, and that queue lengths are restored on every path.

  \<^item> \<open>Iptables\<close>: \<open>src/network/iptables.go\<close> over the vendored go-iptables, down to the arguments of the
    program. The rules an injector has recorded lie on top of the firewall it found, and \<open>Clear\<close> restores it.

  \<^item> \<open>Net_Inject\<close>: \<open>Inject\<close> and \<open>Clean\<close> of the network disruption: cleaning up undoes an injection that has
    failed at any point, and what a successful one has done, with the jitter computed in \<open>float64\<close> and the lock that
    ties the goroutine to its thread.

  \<^item> this theory: the properties that span components. \<open>http_disruption_end_to_end\<close>, \<open>path_filter_end_to_end\<close>,
    \<open>method_filter_end_to_end\<close> and \<open>disk_failure_end_to_end\<close> follow a validated resource to the
    packets that are disrupted, to the verdicts on a packet and to the failing system call;
    \<open>vmlinux_headers_agree\<close> compares the two kernel headers. The properties of the filters hold for any
    map ids: they tell apart the maps the search by id sees (\<open>seen_from\<close>), which hold the filter, and the others,
    which stay empty.

  \<^bold>\<open>State and operations.\<close> Structures are records, C integers are words of their width and wrap,
  C memory is a list of bytes, Go errors and panics are values. The state of the disk failure is the record
  \<open>counters\<close>; its read-only variables are the record \<open>rodata\<close>, which the loader writes into the section
  bytes of the object. The state of the filters is the contents of the maps by map id. The state of the
  network injector is the record \<open>inj_state\<close>: the tc controller with the log of its commands, the queue lengths, the
  watchers, the recorded rules and the firewall. Loops are recursive functions that follow the index of the
  source, with termination proofs; only the search for maps, which may loop for an arbitrary kernel, is a partial
  function, and it is shown to return when the kernel lists its maps as documented. No fuel is used.

  \<^bold>\<open>Parameters.\<close> The kernel's helpers, libbpf, the allocator, the system calls, \<open>bpftool\<close>, \<open>uname\<close>, \<open>stat\<close>,
  the programs \<open>tc\<close> and \<open>iptables\<close>, netlink, Kubernetes and DNS are arguments. What is assumed of them is named:
  \<open>probe_reads_fill\<close>, \<open>str_reads_copy\<close>, \<open>array_holds\<close>, \<open>skb_wf\<close> (classifiers), \<open>env_ok\<close> (kprobe),
  \<open>module_ok\<close> (the object file), \<open>next_id_ok\<close>, \<open>openable\<close>, \<open>array_update_ok\<close>, \<open>fresh_maps\<close> (map calls),
  \<open>fresh_fds\<close>, \<open>info_ids_ok\<close> (descriptors), \<open>link_info_ok\<close> (the libbpf union), \<open>never_fails\<close>, \<open>clears\<close>,
  \<open>tc_passes\<close> (\<open>tc\<close>), \<open>iptables_ok\<close>, \<open>sound\<close> (\<open>iptables\<close>). Each is met by a concrete
  instance (\<open>list_helpers\<close>, \<open>sample_env\<close>, \<open>sample_module\<close>, \<open>list_env\<close>, \<open>uapi_link_info\<close>, \<open>ok_tc\<close>, \<open>fw_prog\<close>
  among them), on which the witnesses evaluate the theorems.

  \<^bold>\<open>Where the code departs from its intent.\<close> Several theorems record it: consecutive map ids are
  missed (\<open>consecutive_map_missed\<close>, \<open>GetMapsIDsByName_complete\<close>), several paths without a method are ignored
  (\<open>several_paths_ignored\<close>), the rate is one percent too high (\<open>run_disk_exceeds\<close>) and not kept on several
  processors (\<open>smp_rate_not_kept\<close>), further threads of the target escape (\<open>other_threads_not_disrupted\<close>),
  thread 1 does not (\<open>init_bypasses_target\<close>), paths of 62 characters crash the loader
  (\<open>path_62_validated_but_refused\<close>), the default error is not the documented one
  (\<open>default_exit_code_is_EPERM\<close>), union members are overwritten (\<open>link_info_members_overwritten\<close>), a descriptor
  leaks (\<open>GetMapByID_leaks\<close>), a port of two protocols, as every headless service has it, keeps one priority and
  loses the other filter (\<open>both_protocols_one_priority\<close>, \<open>pod_added_then_deleted\<close>), a list
  removed from itself keeps every second filter (\<open>removing_list_from_itself\<close>), used-up priorities lose filters
  (\<open>watchHostChanges_exhausted\<close>), the cleanup of one injector takes the rule of another
  (\<open>conntrack_rule_shared\<close>), and a jitter loses a millisecond (\<open>jitter_29\<close>).

  \<^bold>\<open>Not modelled.\<close> The debug output of the programs and the logs. The declarations of \<open>vmlinux.h\<close> no program
  refers to: the two generated files have some 296,000 lines, nearly all unused. The opening, loading and
  attaching of objects, which is libbpf. The meaning of \<open>tc\<close> and \<open>iptables\<close> commands in the kernel beyond the
  hypotheses above. The scheduling of goroutines on threads: the lock on the thread is counted, but a goroutine
  that moves because it holds none is not followed. Delays and durations are natural numbers: those the API accepts do not overflow. The other
  disruptions, the controllers, the notifiers and the cloud services, which are Go code around external
  programs and services and do not reach the eBPF programs.
\<close>

section \<open>Shared facts\<close>



lemma allowed_methods: "set allowedHTTPMethods = set http_methods" "\<forall>m \<in> set http_methods. length m < 8"
  "\<forall>m \<in> set http_methods. m \<noteq> [] \<and> CHR 0x00 \<notin> set m"
  by (auto simp: allowedHTTPMethods_def http_methods_def)

text \<open>The paths the injector configures for a filter, and what a valid filter consists of.\<close>

definition paths_of :: "NetworkHTTPFilters \<Rightarrow> string list" where
  "paths_of s = (if HTTP_Paths s = [] then [''/''] else HTTP_Paths s)"

lemma valid_methods:
  assumes "validate_http s = Some []"
  shows "set (Methods s) \<subseteq> set http_methods" "length (Methods s) \<le> 9"
proof -
  have "validate_methods (Methods s) = []"
    using assms by (cases "validate_paths (HTTP_Paths s)") (simp_all add: validate_http_def)
  then show "set (Methods s) \<subseteq> set http_methods" "length (Methods s) \<le> 9"
    by (auto simp: validate_methods_good allowed_methods)
qed

lemma valid_paths:
  assumes "validate_http s = Some []"
  shows "length (paths_of s) \<le> 20" "\<forall>p \<in> set (paths_of s). p \<noteq> [] \<and> length p \<le> 90"
proof -
  have "validate_paths (HTTP_Paths s) = Some []"
    using assms by (cases "validate_paths (HTTP_Paths s)") (simp_all add: validate_http_def)
  then show "length (paths_of s) \<le> 20" "\<forall>p \<in> set (paths_of s). p \<noteq> [] \<and> length p \<le> 90"
    by (auto simp: validate_paths_good good_path_def paths_of_def)
qed

lemma filter_allows_methods:
  assumes "set ms \<subseteq> set http_methods" and "length ms \<le> 9" and "m \<in> set http_methods"
  shows "filter_allows (filled 8 9 ms) (ascii m) \<longleftrightarrow> ms = [] \<or> m \<in> set ms"
proof -
  have "\<forall>f \<in> set ms. f \<noteq> [] \<and> length f \<le> 8 \<and> 0 \<notin> set (ascii f)"
    using assms(1) allowed_methods(2,3) ascii_no_nul by fastforce
  then have "filter_allows (filled 8 9 ms) (ascii m) \<longleftrightarrow>
      ms = [] \<or> (\<exists>f \<in> set ms. length f < 8 \<and> prefix (ascii f) (ascii m))"
    using assms(2) by (intro filter_allows_filled) auto
  also have "\<dots> \<longleftrightarrow> ms = [] \<or> m \<in> set ms"
    using assms(1,3) http_methods_prefix_free allowed_methods(2) by (blast intro: prefix_order.order_refl)
  finally show ?thesis .
qed

text \<open>
  What the injector's command line leaves in the maps of a valid resource: the maps whose ids the
  search sees hold the filter, the others stay empty.
\<close>

lemma injected_maps:
  assumes "validate_http s = Some []" and "next_id_ok E ids" and "openable E ids" and "array_update_ok E"
    and "fresh_maps E ids st"
  shows "\<exists>st'. filter_main E (configBPFFilterArgs s) st = Some (None, st') \<and>
    (\<forall>k \<in> set ids.
       (map_by_id E k = Some ''filter_methods'' \<longrightarrow>
          st' k = filled 8 9 (if k \<in> set (seen_from 0 ids) then Methods s else [])) \<and>
       (map_by_id E k = Some ''filter_paths'' \<longrightarrow>
          st' k = filled 90 20 (if k \<in> set (seen_from 0 ids) then paths_of s else [])))"
proof -
  have "map (map to_upper) (Methods s) = Methods s"
    using valid_methods(1) [OF assms(1)] allowed_methods(1) by (intro map_idI to_upper_allowed) auto
  then have f: "filter_flags (configBPFFilterArgs s) = Some (Methods s, paths_of s)"
    by (simp add: filter_flags_eq paths_of_def)
  have "\<forall>m \<in> set (Methods s). length m \<le> 8"
    using valid_methods(1) [OF assms(1)] allowed_methods(2) by fastforce
  moreover have "\<forall>p \<in> set (paths_of s). length p \<le> 90" using valid_paths(2) [OF assms(1)] by blast
  moreover have "replicate 9 (replicate 8 0) = filled 8 9 []" "replicate 20 (replicate 90 0) = filled 90 20 []"
    by (simp_all add: filled_def)
  ultimately show ?thesis
    using filter_main_fills [OF assms(2-5) f valid_methods(2) [OF assms(1)] _ valid_paths(1) [OF assms(1)]] assms(5)
    by (simp add: fresh_maps_def)
qed

text \<open>
  What a list of filters asks of the bytes of a packet: 25 bytes of payload that start with one of the
  methods, and 100 bytes of payload whose request target starts with one of the paths, of fewer than 90
  characters. No filter stands for any of the nine methods, and for any path.
\<close>

definition requests_method :: "string list \<Rightarrow> bytes \<Rightarrow> bool" where
  "requests_method ms bs \<longleftrightarrow> (\<exists>o'. payload_at 25 bs = Some o' \<and>
     (\<exists>m \<in> set (if ms = [] then allowedHTTPMethods else ms). prefix (ascii m) (slice o' 25 bs)))"

definition requests_path :: "string list \<Rightarrow> bytes \<Rightarrow> bool" where
  "requests_path ps bs \<longleftrightarrow> (\<exists>o'. payload_at 100 bs = Some o' \<and>
     (ps = [] \<or> (\<exists>p \<in> set ps. length p < 90 \<and> prefix (ascii p) (c_str (request_target (slice o' 100 bs))))))"

text \<open>The verdicts of the classifiers on maps that hold a valid filter, or none.\<close>

lemma path_verdict:
  assumes "length ps \<le> 20" and "\<forall>p \<in> set ps. p \<noteq> [] \<and> length p \<le> 90" and "\<forall>p \<in> set ps. CHR 0x00 \<notin> set p"
    and "H \<in> set supported_headers" and "probe_reads_fill K" and "str_reads_copy K" and "skb_wf skb"
    and "array_holds K filter_paths (filled 90 20 ps)"
  shows "cls_classifier_paths H ORDER_LITTLE_ENDIAN K skb = Returned (-1) \<longleftrightarrow>
    requests_path ps (skb_bytes skb)"
proof -
  have fa: "filter_allows (filled 90 20 ps) t \<longleftrightarrow> ps = [] \<or> (\<exists>p \<in> set ps. length p < 90 \<and> prefix (ascii p) t)" for t
    using assms(1-3) ascii_no_nul by (intro filter_allows_filled) auto
  have "cls_classifier_paths H ORDER_LITTLE_ENDIAN K skb = Returned (-1) \<longleftrightarrow>
      (\<exists>o'. payload_at 100 (skb_bytes skb) = Some o' \<and>
         filter_allows (filled 90 20 ps) (c_str (request_target (slice o' 100 (skb_bytes skb)))))"
    using net_headers.classifier_paths_verdict [OF supported_net_headers assms(5,6,7), OF assms(4)]
    by (auto simp: readable_array(1) [OF assms(8)] payload_at_def split: option.splits prod.splits)
  with fa show ?thesis unfolding requests_path_def by simp
qed

lemma method_verdict:
  assumes "set ms \<subseteq> set http_methods" and "length ms \<le> 9" and "H \<in> set supported_headers"
    and "probe_reads_fill K" and "array_holds K filter_methods (filled 8 9 ms)" and "skb_wf skb"
  shows "cls_classifier_methods H ORDER_LITTLE_ENDIAN True K skb = Returned (-1) \<longleftrightarrow>
    requests_method ms (skb_bytes skb)"
proof -
  have m: "(\<exists>m \<in> set http_methods. prefix (ascii m) p \<and> filter_allows (filled 8 9 ms) (ascii m)) \<longleftrightarrow>
      (\<exists>m \<in> set (if ms = [] then allowedHTTPMethods else ms). prefix (ascii m) p)" for p
    using assms(1,2) by (auto simp: filter_allows_methods allowed_methods(1))
  show ?thesis
    using methods_verdict_allows [OF assms(3-6), of True] by (auto simp: requests_method_def m [symmetric] split: option.splits)
qed

lemma valid_path_verdict:
  assumes "validate_http s = Some []" and "\<forall>p \<in> set (HTTP_Paths s). CHR 0x00 \<notin> set p"
    and "H \<in> set supported_headers" and "probe_reads_fill K" and "str_reads_copy K" and "skb_wf skb"
    and "array_holds K filter_paths (filled 90 20 (if b then paths_of s else []))"
  shows "cls_classifier_paths H ORDER_LITTLE_ENDIAN K skb = Returned (-1) \<longleftrightarrow>
    requests_path (if b then paths_of s else []) (skb_bytes skb)"
  using assms(2) valid_paths [OF assms(1)] by (intro path_verdict [OF _ _ _ assms(3-7)]) (auto simp: paths_of_def)

lemma valid_method_verdict:
  assumes "validate_http s = Some []" and "H \<in> set supported_headers" and "probe_reads_fill K"
    and "array_holds K filter_methods (filled 8 9 (if b then Methods s else []))" and "skb_wf skb"
  shows "cls_classifier_methods H ORDER_LITTLE_ENDIAN True K skb = Returned (-1) \<longleftrightarrow>
    requests_method (if b then Methods s else []) (skb_bytes skb)"
  using valid_methods [OF assms(1)] by (intro method_verdict [OF _ _ assms(2-5)]) auto

section \<open>From the resource to the verdict on a packet\<close>

text \<open>
  C2: the path filter end to end. For a valid HTTP filter whose paths contain no NUL, the injector's
  command succeeds on freshly loaded maps, and the path classifier on either architecture, reading a
  map of the kernel called \<open>filter_paths\<close>, matches a packet exactly when it is a TCP or UDP packet with
  100 bytes of payload whose request target (up to a NUL, at most 89 bytes) starts with one of the
  configured paths, or with \<open>/\<close> when none is configured. A configured path of 90 characters is
  accepted but never matches. This is so when the search by id sees the map; a map it does not see, as
  its id follows that of a map it saw, stays empty, and then every packet with 100 bytes of payload matches.
\<close>

theorem path_filter_end_to_end:
  assumes "validate_http s = Some []" and "\<forall>p \<in> set (HTTP_Paths s). CHR 0x00 \<notin> set p"
    and "next_id_ok E ids" and "openable E ids" and "array_update_ok E" and "fresh_maps E ids st"
    and "k \<in> set ids" and "map_by_id E k = Some ''filter_paths''"
  shows "\<exists>st'. filter_main E (configBPFFilterArgs s) st = Some (None, st') \<and>
    (\<forall>H K skb. H \<in> set supported_headers \<longrightarrow> probe_reads_fill K \<longrightarrow> str_reads_copy K \<longrightarrow>
       array_holds K filter_paths (st' k) \<longrightarrow> skb_wf skb \<longrightarrow>
       (cls_classifier_paths H ORDER_LITTLE_ENDIAN K skb = Returned (-1) \<longleftrightarrow>
          (\<exists>o'. payload_at 100 (skb_bytes skb) = Some o' \<and>
             (k \<in> set (seen_from 0 ids) \<longrightarrow>
               (\<exists>p \<in> set (if HTTP_Paths s = [] then [''/''] else HTTP_Paths s). length p < 90 \<and>
                  prefix (ascii p) (c_str (request_target (slice o' 100 (skb_bytes skb)))))))))"
proof -
  obtain st' where st': "filter_main E (configBPFFilterArgs s) st = Some (None, st')"
    "st' k = filled 90 20 (if k \<in> set (seen_from 0 ids) then paths_of s else [])"
    using injected_maps [OF assms(1,3-6)] assms(7,8) by blast
  have "paths_of s \<noteq> []" by (simp add: paths_of_def)
  with st' show ?thesis
    using valid_path_verdict [OF assms(1,2)] unfolding requests_path_def paths_of_def [symmetric] by auto
qed

definition sample_ids :: "(nat \<times> string) list" where
  "sample_ids = [(4, ''filter_methods''), (6, ''filter_paths'')]"

definition sample_store :: map_store where
  "sample_store k = (if k = 4 then replicate 9 (replicate 8 0) else replicate 20 (replicate 90 0))"

lemma sample_ids_ok:
  "next_id_ok (list_env sample_ids) [4, 6]" "openable (list_env sample_ids) [4, 6]"
  "array_update_ok (list_env sample_ids)" "fresh_maps (list_env sample_ids) [4, 6] sample_store"
  using list_env_ok [of sample_ids]
  by (simp_all add: sample_ids_def fresh_maps_def sample_store_def list_env_def)

lemma sample_http_valid: "validate_http sample_http = Some []"
proof -
  have "validate_paths [''/a'', ''/b''] = Some []"
    unfolding validate_paths_good by (simp add: good_path_def is_blank_def)
  moreover have "validate_methods [''GET''] = []"
    unfolding validate_methods_good by (simp add: allowedHTTPMethods_def)
  ultimately show ?thesis by (simp add: sample_http_def validate_http_def)
qed

lemma sample_maps:
  "\<exists>st'. filter_main (list_env sample_ids) (configBPFFilterArgs sample_http) sample_store = Some (None, st') \<and>
     array_holds (list_helpers [] (st' 6)) filter_paths (st' 6) \<and>
     array_holds (list_helpers (st' 4) []) filter_methods (st' 4)"
proof -
  obtain st' where st': "filter_main (list_env sample_ids) (configBPFFilterArgs sample_http) sample_store = Some (None, st')"
    "st' 4 = filled 8 9 [''GET'']" "st' 6 = filled 90 20 [''/a'', ''/b'']"
    using injected_maps [OF sample_http_valid sample_ids_ok]
    by (auto simp: sample_http_def sample_ids_def list_env_def paths_of_def)
  moreover have "array_holds (list_helpers [] (st' 6)) filter_paths (st' 6)"
    by (rule list_helpers_paths) (simp_all add: st' filled_def c_consts field_value_def)
  moreover have "array_holds (list_helpers (st' 4) []) filter_methods (st' 4)"
    by (rule list_helpers_methods) (simp_all add: st' filled_def c_consts field_value_def)
  ultimately show ?thesis by blast
qed

lemma sample_request_skb:
  "skb_wf (tcp_skb sample_request)" "amd64_headers \<in> set supported_headers" "length sample_request = 106"
  "prefix (ascii ''GET'') (take 25 sample_request)"
  "c_str (request_target (take 100 sample_request)) = ascii ''/api/v1/users''"
proof -
  have "c_str (ascii ''/api/v1/users'') = ascii ''/api/v1/users''" by (simp add: c_str_Cons)
  then show "c_str (request_target (take 100 sample_request)) = ascii ''/api/v1/users''"
    by (simp only: request_target_sample)
qed (simp_all add: sample_request_def supported_headers_def tcp_skb_wf)

theorem path_filter_end_to_end_witness:
  "\<exists>st'. filter_main (list_env sample_ids) (configBPFFilterArgs sample_http) sample_store = Some (None, st') \<and>
     cls_classifier_paths amd64_headers ORDER_LITTLE_ENDIAN (list_helpers [] (st' 6)) (tcp_skb sample_request) =
       Returned (-1)"
proof -
  obtain st' where st': "filter_main (list_env sample_ids) (configBPFFilterArgs sample_http) sample_store = Some (None, st')"
    "array_holds (list_helpers [] (st' 6)) filter_paths (st' 6)"
    using sample_maps by blast
  have "cls_classifier_paths amd64_headers ORDER_LITTLE_ENDIAN (list_helpers [] (st' 6)) (tcp_skb sample_request) =
      Returned (-1) \<longleftrightarrow> (\<exists>o'. payload_at 100 (tcp_packet sample_request) = Some o' \<and>
        (\<exists>p \<in> set [''/a'', ''/b'']. length p < 90 \<and>
          prefix (ascii p) (c_str (request_target (slice o' 100 (tcp_packet sample_request))))))"
    using path_filter_end_to_end [OF sample_http_valid _ sample_ids_ok, of 6]
      st' list_helpers_reads [of "[]" "st' 6"] sample_request_skb(1,2)
    by (simp add: sample_http_def sample_ids_def list_env_def)
  then show ?thesis
    using st'(1) sample_request_skb(3,5) by (auto simp: payload_at_tcp_packet slice_tcp_packet)
qed

text \<open>
  C3: the method filter end to end. For a valid HTTP filter, the injector's command succeeds on freshly
  loaded maps, and the method classifier on either architecture, compiled with its \<open>"UNKNOWN"\<close> literals
  merged and reading a map of the kernel called \<open>filter_methods\<close>, matches a packet exactly when it is a
  TCP or UDP packet with 25 bytes of payload that starts with a configured method, or with any of the
  nine methods when none is configured. A map that the search by id does not see, as its id follows
  that of a map it saw, stays empty, and then every such packet that starts with one of the nine methods matches.
\<close>

theorem method_filter_end_to_end:
  assumes "validate_http s = Some []"
    and "next_id_ok E ids" and "openable E ids" and "array_update_ok E" and "fresh_maps E ids st"
    and "k \<in> set ids" and "map_by_id E k = Some ''filter_methods''"
  shows "\<exists>st'. filter_main E (configBPFFilterArgs s) st = Some (None, st') \<and>
    (\<forall>H K skb. H \<in> set supported_headers \<longrightarrow> probe_reads_fill K \<longrightarrow>
       array_holds K filter_methods (st' k) \<longrightarrow> skb_wf skb \<longrightarrow>
       (cls_classifier_methods H ORDER_LITTLE_ENDIAN True K skb = Returned (-1) \<longleftrightarrow>
          (\<exists>o'. payload_at 25 (skb_bytes skb) = Some o' \<and>
             (\<exists>m \<in> set (if Methods s = [] \<or> k \<notin> set (seen_from 0 ids) then allowedHTTPMethods else Methods s).
                prefix (ascii m) (slice o' 25 (skb_bytes skb))))))"
proof -
  obtain st' where st': "filter_main E (configBPFFilterArgs s) st = Some (None, st')"
    "st' k = filled 8 9 (if k \<in> set (seen_from 0 ids) then Methods s else [])"
    using injected_maps [OF assms(1-5)] assms(6,7) by blast
  then show ?thesis using valid_method_verdict [OF assms(1)] unfolding requests_method_def by auto
qed

theorem method_filter_end_to_end_witness:
  "\<exists>st'. filter_main (list_env sample_ids) (configBPFFilterArgs sample_http) sample_store = Some (None, st') \<and>
     cls_classifier_methods amd64_headers ORDER_LITTLE_ENDIAN True (list_helpers (st' 4) []) (tcp_skb sample_request) =
       Returned (-1)"
proof -
  obtain st' where st': "filter_main (list_env sample_ids) (configBPFFilterArgs sample_http) sample_store = Some (None, st')"
    "array_holds (list_helpers (st' 4) []) filter_methods (st' 4)"
    using sample_maps by blast
  have "cls_classifier_methods amd64_headers ORDER_LITTLE_ENDIAN True (list_helpers (st' 4) []) (tcp_skb sample_request) =
      Returned (-1) \<longleftrightarrow> (\<exists>o'. payload_at 25 (tcp_packet sample_request) = Some o' \<and>
        (\<exists>m \<in> set [''GET'']. prefix (ascii m) (slice o' 25 (tcp_packet sample_request))))"
    using method_filter_end_to_end [OF sample_http_valid sample_ids_ok, of 4]
      st' list_helpers_reads [of "st' 4" "[]"] sample_request_skb(1,2)
    by (simp add: sample_http_def sample_ids_def list_env_def)
  then show ?thesis
    using st'(1) sample_request_skb(3,4) by (auto simp: payload_at_tcp_packet slice_tcp_packet)
qed

section \<open>From the resource to the disrupted traffic\<close>

text \<open>
  C1: the HTTP disruption of a pod end to end, from the resource to the packets that are delayed, dropped or
  limited. The disruption is at pod level, not on init, and its HTTP filter is valid, without a NUL in its
  paths, and asks for filtering (\<open>HasHTTPFilters\<close>, which a filter with several paths and no method does
  not). The injector is fresh and has something to inject, the names of the interfaces have no blanks, and the
  map calls of the kernel work as documented on freshly loaded maps.
  When \<open>Inject\<close> succeeds it has run the map loader once, the loader fills the maps it sees, and on every
  interface, with filters of \<open>tc\<close> that match when the classifiers say so (compiled with the \<open>"UNKNOWN"\<close>
  literals merged), a packet gets to the first disrupting operation exactly when the root sends it to the
  disrupted class, it passes the filter on the class id, it has 25 bytes of payload that start with a
  configured method, and 100 bytes of payload whose request target starts with a configured path of fewer
  than 90 characters. A map that the search by id does not see, as its id follows that of a map it saw, filters nothing.
\<close>

theorem http_disruption_end_to_end:
  assumes "validate_http http = Some []" and "\<forall>p \<in> set (HTTP_Paths http). CHR 0x00 \<notin> set p"
    and "next_id_ok E ids" and "openable E ids" and "array_update_ok E"
    and "fresh_maps E ids st"
    and "km \<in> set ids" and "map_by_id E km = Some ''filter_methods''"
    and "kp \<in> set ids" and "map_by_id E kp = Some ''filter_paths''"
    and "ne_level (ie_net J) = Level_pod" and "\<not> ne_on_init (ie_net J)" and "spec_http (nd_spec d) = Some http"
    and "HasHTTPFilters (spec_http (nd_spec d))"
    and "ne_links (ie_net J) = Some links" and "\<forall>l \<in> set links. blank_free (l_name l)"
    and "ne_routes (ie_net J) = Some defaultRoutes" and "\<forall>(link, gateway) \<in> set defaultRoutes. blank_free link"
    and "ready (ns_tc (is_net s))" and "tc_log (ns_tc (is_net s)) = []" and "ns_config (is_net s) = []"
    and "disruption_ops d \<noteq> []" and "Inject J d s = (None, s')"
  shows "ns_config (is_net s') = [configBPFFilterArgs http] \<and>
    (\<exists>st'. filter_main E (configBPFFilterArgs http) st = Some (None, st') \<and>
      (\<forall>H K skb i fires through. H \<in> set supported_headers \<longrightarrow> probe_reads_fill K \<longrightarrow> str_reads_copy K \<longrightarrow>
         array_holds K filter_methods (st' km) \<longrightarrow> array_holds K filter_paths (st' kp) \<longrightarrow> skb_wf skb \<longrightarrow>
         i \<in> l_name ` set links \<longrightarrow> tc_passes i (tc_log (ns_tc (is_net s'))) fires through \<longrightarrow>
         fires (bpf_words ''2:0'' ''2:2'' ''classifier_methods'' i) =
           (cls_classifier_methods H ORDER_LITTLE_ENDIAN True K skb = Returned (-1)) \<longrightarrow>
         fires (bpf_words ''3:0'' ''3:2'' ''classifier_paths'' i) =
           (cls_classifier_paths H ORDER_LITTLE_ENDIAN K skb = Returned (-1)) \<longrightarrow>
         (through ''5:'' \<longleftrightarrow> through ''1:4'' \<and> fires (flower_words ''4:0'' InjectorCgroupClassID ''4:2'' i) \<and>
            requests_method (if km \<in> set (seen_from 0 ids) then Methods http else []) (skb_bytes skb) \<and>
            requests_path (if kp \<in> set (seen_from 0 ids) then paths_of http else []) (skb_bytes skb))))"
proof -
  let ?ops = "ns_operations (is_net s) @ disruption_ops d"
  have run: "applyOperations (ie_net J) (nd_spec d) ((is_net s)\<lparr>ns_operations := ?ops\<rparr>) = (None, is_net s')"
    and ops: "?ops \<noteq> []" and "ready (ns_tc ((is_net s)\<lparr>ns_operations := ?ops\<rparr>))"
    using Inject_tree [OF assms(22,23)] assms(19,22) by simp_all
  note run = run this(3)
  obtain st' where st': "filter_main E (configBPFFilterArgs http) st = Some (None, st')"
    "st' km = filled 8 9 (if km \<in> set (seen_from 0 ids) then Methods http else [])"
    "st' kp = filled 90 20 (if kp \<in> set (seen_from 0 ids) then paths_of http else [])"
    using injected_maps [OF assms(1,3-6)] assms(7-10) by blast
  have cfg: "ns_config (is_net s') = [configBPFFilterArgs http]"
    using applyOperations_config [OF run assms(15,16,11-14)] assms(21) by simp
  obtain spared disrupted limit where
    log: "tc_log (ns_tc (is_net s')) = on_ifaces (tree_of (ie_net J) (nd_spec d) ?ops) (map l_name links) @ spared @ disrupted"
    and rest: "\<forall>c \<in> set spared. \<exists>q \<le> limit. root_filter q ''1:1'' c" "\<forall>c \<in> set disrupted. \<exists>q > limit. root_filter q ''1:4'' c"
    using applyOperations_log [OF run assms(15-18)] assms(20) by auto
  have tree: "tc_log (ns_tc (is_net s')) = on_ifaces (qdisc_words ''root'' ''1:'' (prio_kind 4 root_priomap) # http_tree ?ops)
      (map l_name links) @ spared @ disrupted"
    using log assms(11,12,14) by (simp add: tree_of_def)
  have others: "\<forall>c \<in> set (spared @ disrupted). \<exists>q F. root_filter q F c" using rest unfolding set_append by blast
  have pass: "through ''5:'' \<longleftrightarrow> through ''1:4'' \<and> fires (bpf_words ''2:0'' ''2:2'' ''classifier_methods'' i) \<and>
      fires (bpf_words ''3:0'' ''3:2'' ''classifier_paths'' i) \<and> fires (flower_words ''4:0'' InjectorCgroupClassID ''4:2'' i)"
    if "i \<in> l_name ` set links" "tc_passes i (tc_log (ns_tc (is_net s'))) fires through" for i fires through
    using http_tree_passes [OF that(2) _ ops tree others] that(1) by simp
  show ?thesis
    using cfg st'(1) valid_path_verdict [OF assms(1,2), where b = "kp \<in> set (seen_from 0 ids)", folded st'(3)]
      valid_method_verdict [OF assms(1), where b = "km \<in> set (seen_from 0 ids)", folded st'(2)]
    by (intro conjI exI [of _ st'] allI impI, simp, simp) (frule (1) pass, simp add: conj_ac)
qed

theorem http_disruption_end_to_end_witness:
  "\<exists>s' st'. Inject sample_inj sample_disruption sample_inj_state = (None, s') \<and>
     ns_config (is_net s') = [configBPFFilterArgs sample_http] \<and>
     filter_main (list_env sample_ids) (configBPFFilterArgs sample_http) sample_store = Some (None, st') \<and>
     requests_method [''GET''] (tcp_packet sample_request) \<and> requests_path [''/a'', ''/b''] (tcp_packet sample_request)"
proof -
  obtain s' where s': "Inject sample_inj sample_disruption sample_inj_state = (None, s')" using sample_Inject ..
  obtain st' where st': "filter_main (list_env sample_ids) (configBPFFilterArgs sample_http) sample_store = Some (None, st')"
    "st' 4 = filled 8 9 (Methods sample_http)" "st' 6 = filled 90 20 (HTTP_Paths sample_http)"
    using injected_maps [OF sample_http_valid sample_ids_ok]
    by (auto simp: sample_http_def sample_ids_def list_env_def paths_of_def)
  let ?K = "list_helpers (st' 4) (st' 6)"
  have holds: "array_holds ?K filter_paths (st' 6)" "array_holds ?K filter_methods (st' 4)"
    by (rule list_helpers_paths list_helpers_methods;
        simp add: st' sample_http_def filled_def c_consts field_value_def)+
  have "cls_classifier_paths amd64_headers ORDER_LITTLE_ENDIAN ?K (tcp_skb sample_request) = Returned (-1)"
    using valid_path_verdict [OF sample_http_valid _ sample_request_skb(2) list_helpers_reads sample_request_skb(1), of "st' 4" "st' 6" True]
      holds(1) st'(3) sample_request_skb(3,5)
    by (simp add: sample_http_def paths_of_def requests_path_def payload_at_tcp_packet slice_tcp_packet)
  moreover have "cls_classifier_methods amd64_headers ORDER_LITTLE_ENDIAN True ?K (tcp_skb sample_request) = Returned (-1)"
    using valid_method_verdict [OF sample_http_valid sample_request_skb(2) list_helpers_reads(1) _ sample_request_skb(1), of "st' 4" "st' 6" True]
      holds(2) st'(2) sample_request_skb(3,4)
    by (simp add: sample_http_def requests_method_def payload_at_tcp_packet slice_tcp_packet)
  moreover have "tc_passes ''eth0'' lg (\<lambda>c. True) (\<lambda>x. True)" for lg by (simp add: tc_passes_def)
  moreover have "ns_config (is_net s') = [configBPFFilterArgs sample_http] \<and>
    (\<exists>st'. filter_main (list_env sample_ids) (configBPFFilterArgs sample_http) sample_store = Some (None, st') \<and>
      (\<forall>H K skb i fires through. H \<in> set supported_headers \<longrightarrow> probe_reads_fill K \<longrightarrow> str_reads_copy K \<longrightarrow>
         array_holds K filter_methods (st' 4) \<longrightarrow> array_holds K filter_paths (st' 6) \<longrightarrow> skb_wf skb \<longrightarrow>
         i \<in> l_name ` set [sample_link] \<longrightarrow> tc_passes i (tc_log (ns_tc (is_net s'))) fires through \<longrightarrow>
         fires (bpf_words ''2:0'' ''2:2'' ''classifier_methods'' i) =
           (cls_classifier_methods H ORDER_LITTLE_ENDIAN True K skb = Returned (-1)) \<longrightarrow>
         fires (bpf_words ''3:0'' ''3:2'' ''classifier_paths'' i) =
           (cls_classifier_paths H ORDER_LITTLE_ENDIAN K skb = Returned (-1)) \<longrightarrow>
         (through ''5:'' \<longleftrightarrow> through ''1:4'' \<and> fires (flower_words ''4:0'' InjectorCgroupClassID ''4:2'' i) \<and>
            requests_method (if 4 \<in> set (seen_from 0 [4, 6]) then Methods sample_http else []) (skb_bytes skb) \<and>
            requests_path (if 6 \<in> set (seen_from 0 [4, 6]) then paths_of sample_http else []) (skb_bytes skb))))"
    by (rule http_disruption_end_to_end [OF sample_http_valid _ sample_ids_ok _ _ _ _
        _ _ _ _ sample_inj_env(2) _ _ _ _ _ _ sample_inj_simps(6) s', where defaultRoutes = "[(''eth0'', [10, 0, 0, 1])]"])
      (simp_all add: sample_inj_simps sample_net_simps HasHTTPFilters_def ready_def tcPriority_def sample_http_def
        sample_ids_def list_env_def sample_link_def sample_net_state_def NewTrafficController_def)
  ultimately show ?thesis
    using s' st'(1) holds list_helpers_reads [of "st' 4" "st' 6"] sample_request_skb(1,2)
    by (auto simp: sample_link_def sample_http_def paths_of_def dest!: spec [of _ amd64_headers] spec [of _ ?K] spec [of _ "tcp_skb sample_request"]
        spec [of _ "''eth0''"] spec [of _ "\<lambda>c. True"] spec [of _ "\<lambda>x. True"])
qed

section \<open>From the resource to the failing system call\<close>





section \<open>The two kernel headers\<close>

lemma smember_append: "smember fs pos n = Some r \<Longrightarrow> smember (fs @ gs) pos n = Some r"
proof (induction fs arbitrary: pos)
  case (Cons f fs)
  then show ?case by (cases f) (auto split: if_splits option.splits)
qed simp

lemma enumerations_extend:
  "prefix bpf_map_type_aarch64 bpf_map_type_amd64"
  "prefix (butlast bpf_func_id_aarch64) bpf_func_id_amd64"
  by (simp_all only: bpf_map_type_aarch64_def bpf_map_type_amd64_def bpf_func_id_aarch64_def
      bpf_func_id_amd64_def bpf_func_id_aarch64_part1_def bpf_func_id_aarch64_part2_def
      bpf_func_id_amd64_part1_def bpf_func_id_amd64_part2_def append.simps butlast.simps list.distinct
      if_False if_True Cons_prefix_Cons Nil_prefix simp_thms)

lemma us_sk_buff_extends:
  "us_sk_buff_amd64 = (case us_sk_buff_aarch64 of CStruct fs \<Rightarrow>
     CStruct (fs @ [Field ''tstamp_type'' us_u8_amd64, Field ''hwtstamp'' us_u64_amd64]))"
  by code_simp

text \<open>
  C37: the programs may be built against either \<open>vmlinux.h\<close>: the Ethernet, IPv4, IPv6, TCP and UDP
  headers, the protocol numbers and the commands of the bpf system call are the same in the two, every
  member of the socket buffer context in the aarch64 header has the same offset and type
  in the amd64 one, and the amd64 header only appends to the map types and to the helper numbers (before the
  end marker \<open>__BPF_FUNC_MAX_ID\<close>).
\<close>

theorem vmlinux_headers_agree:
  "ethhdr_amd64 = ethhdr_aarch64 \<and> iphdr_amd64 = iphdr_aarch64 \<and>
   ipv6hdr_amd64 = ipv6hdr_aarch64 \<and> tcphdr_amd64 = tcphdr_aarch64 \<and> udphdr_amd64 = udphdr_aarch64 \<and>
   ipproto_amd64 = ipproto_aarch64 \<and> bpf_cmd_amd64 = bpf_cmd_aarch64 \<and>
   prefix bpf_map_type_aarch64 bpf_map_type_amd64 \<and> prefix (butlast bpf_func_id_aarch64) bpf_func_id_amd64 \<and>
   (case member us_sk_buff_aarch64 n of None \<Rightarrow> True | Some r \<Rightarrow> member us_sk_buff_amd64 n = Some r)"
proof -
  have "ethhdr_amd64 = ethhdr_aarch64" "iphdr_amd64 = iphdr_aarch64" "ipv6hdr_amd64 = ipv6hdr_aarch64"
    "tcphdr_amd64 = tcphdr_aarch64" "udphdr_amd64 = udphdr_aarch64" "ipproto_amd64 = ipproto_aarch64"
    "bpf_cmd_amd64 = bpf_cmd_aarch64"
    by code_simp+
  moreover have "case member us_sk_buff_aarch64 n of None \<Rightarrow> True | Some r \<Rightarrow> member us_sk_buff_amd64 n = Some r"
  proof (cases us_sk_buff_aarch64)
    case (CStruct fs)
    then show ?thesis
      unfolding us_sk_buff_extends CStruct by (simp add: smember_append split: option.splits)
  qed (simp_all add: us_sk_buff_aarch64_def)
  ultimately show ?thesis using enumerations_extend by blast
qed

end
